(* ===== verification/Src_Prelude.thy ===== *)
theory Src_Prelude
  imports Main "HOL-Library.Word"
begin

text \<open>
  Machine integers and their Rust operations. The canister is built with
  \<^verbatim>\<open>cargo build --release\<close> (\<^verbatim>\<open>dfx.json\<close>), so plain \<open>+\<close>, \<open>-\<close> and \<open>*\<close> wrap around; a
  division by zero always panics and is therefore an explicit test wherever the
  code divides by a computed value. The \<open>checked_\<close> and \<open>saturating_\<close> operations
  of the Rust standard library are defined here once, with their readings as natural
  numbers in the collection \<open>unat_ops\<close>.
\<close>

type_synonym u8 = "8 word"
type_synonym u32 = "32 word"
type_synonym u64 = "64 word"
type_synonym u128 = "128 word"

named_theorems unat_ops "readings of word operations as natural numbers"

section \<open>Checked and saturating operations\<close>

definition checked_mul :: "'a::len word \<Rightarrow> 'a word \<Rightarrow> 'a word option" where
  "checked_mul a b = (if unat a * unat b < 2 ^ LENGTH('a) then Some (a * b) else None)"

definition checked_div :: "'a::len word \<Rightarrow> 'a word \<Rightarrow> 'a word option" where
  "checked_div a b = (if b = 0 then None else Some (a div b))"

definition checked_sub :: "'a::len word \<Rightarrow> 'a word \<Rightarrow> 'a word option" where
  "checked_sub a b = (if b \<le> a then Some (a - b) else None)"

definition saturating_add :: "'a::len word \<Rightarrow> 'a word \<Rightarrow> 'a word" where
  "saturating_add a b = (if unat a + unat b < 2 ^ LENGTH('a) then a + b else -1)"

definition saturating_sub :: "'a::len word \<Rightarrow> 'a word \<Rightarrow> 'a word" where
  "saturating_sub a b = (if b \<le> a then a - b else 0)"

definition saturating_mul :: "'a::len word \<Rightarrow> 'a word \<Rightarrow> 'a word" where
  "saturating_mul a b = (if unat a * unat b < 2 ^ LENGTH('a) then a * b else -1)"

text \<open>\<open>try_into\<close> between unsigned widths, and the truncating \<open>as\<close> cast.\<close>

definition try_into :: "'a::len word \<Rightarrow> 'b::len word option" where
  "try_into a = (if unat a < 2 ^ LENGTH('b) then Some (ucast a) else None)"

lemma unat_max_word: "unat (- 1 :: 'a::len word) = 2 ^ LENGTH('a) - 1"
  by (simp add: unsigned_minus_1_eq_mask mask_eq_exp_minus_1)

lemma min_pred_if: "min n (m - 1) = (if n < m then n else m - 1)" for n m :: nat
  by (simp add: min_def) linarith

lemma unat_mult_exact:
  "unat a * unat b < 2 ^ LENGTH('a) \<Longrightarrow> unat (a * b) = unat a * unat b" for a :: "'a::len word"
  by (simp add: unat_mult_lem [THEN iffD1])

lemma unat_add_exact:
  "unat a + unat b < 2 ^ LENGTH('a) \<Longrightarrow> unat (a + b) = unat a + unat b" for a :: "'a::len word"
  by (simp add: unat_add_lem [THEN iffD1])

lemma unat_sub_exact: "b \<le> a \<Longrightarrow> unat (a - b) = unat a - unat b" for a :: "'a::len word"
  by (simp add: unat_sub)

lemma unat_less_len: "unat (a :: 'a::len word) < 2 ^ LENGTH('a)"
  by (rule unsigned_less)

lemma unat_le_max: "unat (a :: 'a::len word) \<le> 2 ^ LENGTH('a) - 1"
  using unat_less_len [of a] by linarith

lemma unat_ucast_narrow:
  "unat (ucast a :: 'b::len word) = unat (a :: 'a::len word) mod 2 ^ LENGTH('b)"
  by (simp add: unsigned_ucast_eq take_bit_eq_mod)

lemma unat_ucast_widen:
  "LENGTH('a) \<le> LENGTH('b) \<Longrightarrow> unat (ucast (a :: 'a::len word) :: 'b::len word) = unat a"
proof -
  assume le: "LENGTH('a) \<le> LENGTH('b)"
  have "unat a < 2 ^ LENGTH('a)" by (rule unat_less_len)
  also have "\<dots> \<le> 2 ^ LENGTH('b)" using le by simp
  finally show ?thesis by (simp add: unat_ucast_narrow)
qed

lemma unat_saturating_add [unat_ops]:
  "unat (saturating_add a b) = min (unat a + unat b) (2 ^ LENGTH('a) - 1)" for a :: "'a::len word"
  by (simp add: saturating_add_def unat_add_exact unat_max_word min_pred_if del: One_nat_def)

lemma unat_saturating_sub [unat_ops]: "unat (saturating_sub a b) = unat a - unat b"
  by (simp add: saturating_sub_def unat_sub_exact word_le_nat_alt)

lemma unat_saturating_mul [unat_ops]:
  "unat (saturating_mul a b) = min (unat a * unat b) (2 ^ LENGTH('a) - 1)" for a :: "'a::len word"
  by (simp add: saturating_mul_def unat_mult_exact unat_max_word min_pred_if del: One_nat_def)

lemma checked_mul_Some:
  "checked_mul a b = Some c \<longleftrightarrow> unat a * unat b < 2 ^ LENGTH('a) \<and> c = a * b" for a :: "'a::len word"
  by (auto simp: checked_mul_def)

lemma checked_mul_SomeD: "checked_mul a b = Some c \<Longrightarrow> unat c = unat a * unat b"
  by (auto simp: checked_mul_def unat_mult_exact split: if_splits)

lemma checked_div_SomeD: "checked_div a b = Some c \<Longrightarrow> unat c = unat a div unat b \<and> b \<noteq> 0"
  by (auto simp: checked_div_def unat_div split: if_splits)

lemma try_into_Some: "try_into (a :: 'a::len word) = Some (b :: 'b::len word) \<Longrightarrow> unat b = unat a"
  by (auto simp: try_into_def unat_ucast_narrow split: if_splits)

lemma try_into_None_iff:
  "try_into (a :: 'a::len word) = (None :: 'b::len word option) \<longleftrightarrow> 2 ^ LENGTH('b) \<le> unat a"
  by (auto simp: try_into_def)

lemma saturating_sub_0_iff [simp]: "saturating_sub a b = 0 \<longleftrightarrow> a \<le> b"
proof -
  have "saturating_sub a b = 0 \<longleftrightarrow> unat (saturating_sub a b) = 0" by (simp add: unat_eq_0)
  then show ?thesis by (simp add: unat_ops word_le_nat_alt)
qed

lemma saturating_add_ge_left [simp]: "a \<le> saturating_add a b"
  using unat_le_max [of a] by (simp add: word_le_nat_alt unat_ops del: One_nat_def)

lemma saturating_add_0 [simp]: "saturating_add a 0 = a"
  by (simp add: saturating_add_def unat_less_len)

section \<open>Rounding facts on natural numbers\<close>

lemma div_mult_le_self: "b * (a div b) \<le> (a::nat)"
  by simp

lemma less_div_mult_add: "0 < b \<Longrightarrow> (a::nat) < b * (a div b) + b"
  by (metis add_less_cancel_left div_mult_mod_eq mod_less_divisor mult.commute)

lemma sub_mod_eq: "(a::nat) - a mod b = b * (a div b)"
  by (simp add: minus_mod_eq_mult_div)

end
