(* ===== verification/Src_Store.thy ===== *)
theory Src_Store
  imports Src_Prelude
begin

text \<open>
  The ordered maps of the canister. \<^verbatim>\<open>StableBTreeMap\<close> (and \<^verbatim>\<open>BTreeMap\<close>) iterate in the
  order of their keys; the code uses \<open>get\<close>, \<open>insert\<close>, \<open>remove\<close>, \<open>contains_key\<close>, \<open>iter\<close>
  and \<open>range\<close>. The type \<open>omap\<close> is an association list whose keys increase strictly, so a
  map has one representation, equality is equality of contents and iteration is the list
  itself. The locale \<open>ordered_store\<close> states what the rest of the development relies on;
  it is interpreted on the operations of \<open>omap\<close>.
\<close>

section \<open>Strictly increasing association lists\<close>

abbreviation sorted_keys :: "('k::linorder \<times> 'v) list \<Rightarrow> bool" where
  "sorted_keys xs \<equiv> sorted_wrt (<) (map fst xs)"

fun al_insert :: "'k::linorder \<Rightarrow> 'v \<Rightarrow> ('k \<times> 'v) list \<Rightarrow> ('k \<times> 'v) list" where
  "al_insert k v [] = [(k, v)]"
| "al_insert k v ((a, b) # xs) =
     (if k < a then (k, v) # (a, b) # xs
      else if k = a then (k, v) # xs
      else (a, b) # al_insert k v xs)"

definition al_remove :: "'k \<Rightarrow> ('k \<times> 'v) list \<Rightarrow> ('k \<times> 'v) list" where
  "al_remove k xs = filter (\<lambda>p. fst p \<noteq> k) xs"

lemma keys_al_insert: "set (map fst (al_insert k v xs)) = insert k (set (map fst xs))"
  by (induction k v xs rule: al_insert.induct) auto

lemma sorted_al_insert: "sorted_keys xs \<Longrightarrow> sorted_keys (al_insert k v xs)"
proof (induction k v xs rule: al_insert.induct)
  case (2 k v a b xs)
  have "y \<in> fst ` set (al_insert k v xs) \<Longrightarrow> y = k \<or> y \<in> fst ` set xs" for y
    using keys_al_insert [of k v xs] by auto
  with 2 show ?case by fastforce
qed simp

lemma map_of_al_insert: "map_of (al_insert k v xs) = (map_of xs)(k \<mapsto> v)"
  by (induction k v xs rule: al_insert.induct) auto

lemma sorted_keys_filter: "sorted_keys xs \<Longrightarrow> sorted_keys (filter P xs)"
  by (induction xs) auto

lemma map_of_al_remove: "map_of (al_remove k xs) = (map_of xs)(k := None)"
  by (induction xs) (auto simp: al_remove_def)

lemma sorted_keys_distinct: "sorted_keys xs \<Longrightarrow> distinct (map fst xs)"
  using strict_sorted_iff by blast

lemma sorted_keys_map_of_eq:
  assumes "sorted_keys xs" "sorted_keys ys" "map_of xs = map_of ys"
  shows "xs = ys"
proof -
  have "set xs = set ys"
    using assms map_of_inject_set [of xs ys] by (simp add: sorted_keys_distinct)
  moreover have "map fst xs = map fst ys"
    using assms(1,2) \<open>set xs = set ys\<close>
    by (metis list.set_map strict_sorted_equal)
  moreover have "inj_on fst (set xs \<union> set ys)"
    using sorted_keys_distinct [OF assms(1)] \<open>set xs = set ys\<close> by (simp add: distinct_map)
  ultimately show ?thesis by (simp add: map_inj_on)
qed

section \<open>The type of ordered maps\<close>

typedef (overloaded) ('k::linorder, 'v) omap = "{xs :: ('k \<times> 'v) list. sorted_keys xs}"
  morphisms om_entries Omap
  by (rule exI [of _ "[]"]) simp

setup_lifting type_definition_omap

lift_definition om_empty :: "('k::linorder, 'v) omap" is "[]" by simp

lift_definition om_get :: "('k::linorder, 'v) omap \<Rightarrow> 'k \<Rightarrow> 'v option" is map_of .

lift_definition om_insert :: "'k::linorder \<Rightarrow> 'v \<Rightarrow> ('k, 'v) omap \<Rightarrow> ('k, 'v) omap"
  is al_insert by (rule sorted_al_insert)

lift_definition om_remove :: "'k::linorder \<Rightarrow> ('k, 'v) omap \<Rightarrow> ('k, 'v) omap"
  is al_remove by (simp add: al_remove_def sorted_keys_filter)

text \<open>\<open>range(lo..hi)\<close>: the entries with \<open>lo \<le> key < hi\<close>, in key order.\<close>

definition om_range :: "'k::linorder \<Rightarrow> 'k \<Rightarrow> ('k, 'v) omap \<Rightarrow> ('k \<times> 'v) list" where
  "om_range lo hi m = filter (\<lambda>p. lo \<le> fst p \<and> fst p < hi) (om_entries m)"

definition om_contains :: "('k::linorder, 'v) omap \<Rightarrow> 'k \<Rightarrow> bool" where
  "om_contains m k = (om_get m k \<noteq> None)"

lemma om_entries_empty [simp]: "om_entries om_empty = []"
  by transfer simp

lemma om_entries_insert [simp]: "om_entries (om_insert k v m) = al_insert k v (om_entries m)"
  by transfer simp

lemma om_entries_remove [simp]: "om_entries (om_remove k m) = al_remove k (om_entries m)"
  by transfer simp

lemma om_entries_sorted [simp]: "sorted_keys (om_entries m)"
  by transfer simp

lemma om_entries_distinct [simp]: "distinct (map fst (om_entries m))"
  by (simp add: sorted_keys_distinct)

lemma om_get_entries: "om_get m k = map_of (om_entries m) k"
  by transfer simp

lemma om_get_empty [simp]: "om_get om_empty k = None"
  by (simp add: om_get_entries)

lemma om_get_insert [simp]: "om_get (om_insert k v m) = (om_get m)(k \<mapsto> v)"
  by (rule ext) (simp add: om_get_entries map_of_al_insert)

lemma om_get_remove [simp]: "om_get (om_remove k m) = (om_get m)(k := None)"
  by (rule ext) (simp add: om_get_entries map_of_al_remove)

lemma om_entries_get: "(k, v) \<in> set (om_entries m) \<longleftrightarrow> om_get m k = Some v"
  by (simp add: om_get_entries)

lemma om_ext: "(\<And>k. om_get m k = om_get m' k) \<Longrightarrow> m = m'"
  by (metis ext om_entries_inject om_entries_sorted om_get_entries sorted_keys_map_of_eq)

lemma om_insert_get [simp]: "om_get m k = Some v \<Longrightarrow> om_insert k v m = m"
  by (rule om_ext) simp

lemma om_insert_insert [simp]: "om_insert k v' (om_insert k v m) = om_insert k v' m"
  by (rule om_ext) simp

lemma om_remove_insert [simp]: "om_get m k = None \<Longrightarrow> om_remove k (om_insert k v m) = m"
  by (rule om_ext) simp

lemma om_range_empty [simp]: "om_range lo hi om_empty = []"
  by (simp add: om_range_def)

lemma om_range_sorted: "sorted_keys (om_range lo hi m)"
  by (simp add: om_range_def sorted_keys_filter)

lemma om_range_mem: "(k, v) \<in> set (om_range lo hi m) \<longleftrightarrow> lo \<le> k \<and> k < hi \<and> om_get m k = Some v"
  by (auto simp: om_range_def om_entries_get)

lemma length_al_insert_fresh: "k \<notin> fst ` set xs \<Longrightarrow> length (al_insert k v xs) = Suc (length xs)"
  by (induction k v xs rule: al_insert.induct) auto

lemma length_al_insert_ge: "length xs \<le> length (al_insert k v xs)"
  by (induction k v xs rule: al_insert.induct) auto

definition om_size :: "('k::linorder, 'v) omap \<Rightarrow> nat" where
  "om_size m = length (om_entries m)"

lemma om_size_insert_ge: "om_size m \<le> om_size (om_insert k v m)"
  by (simp add: om_size_def length_al_insert_ge)

lemma om_size_insert_fresh: "om_get m k = None \<Longrightarrow> om_size (om_insert k v m) = Suc (om_size m)"
  by (simp add: om_size_def om_get_entries map_of_eq_None_iff length_al_insert_fresh)

section \<open>The interface\<close>

locale ordered_store =
  fixes empty :: 'm
    and get :: "'m \<Rightarrow> 'k::linorder \<Rightarrow> 'v option"
    and put :: "'k \<Rightarrow> 'v \<Rightarrow> 'm \<Rightarrow> 'm"
    and del :: "'k \<Rightarrow> 'm \<Rightarrow> 'm"
    and entries :: "'m \<Rightarrow> ('k \<times> 'v) list"
  assumes get_empty: "get empty k = None"
    and get_put: "get (put k v m) = (get m)(k \<mapsto> v)"
    and get_del: "get (del k m) = (get m)(k := None)"
    and entries_sorted: "sorted_keys (entries m)"
    and entries_get: "(k, v) \<in> set (entries m) \<longleftrightarrow> get m k = Some v"
begin

text \<open>Reads after writes, and what an iteration of the store sees after one.\<close>

lemma get_put_same: "get (put k v m) k = Some v"
  by (simp add: get_put)

lemma get_put_other: "k' \<noteq> k \<Longrightarrow> get (put k v m) k' = get m k'"
  by (simp add: get_put)

lemma get_del_same: "get (del k m) k = None"
  by (simp add: get_del)

lemma entries_distinct: "distinct (map fst (entries m))"
  by (rule sorted_keys_distinct) (rule entries_sorted)

lemma entries_map_of: "map_of (entries m) = get m"
proof
  fix k show "map_of (entries m) k = get m k"
  proof (cases "get m k")
    case None
    then have "k \<notin> fst ` set (entries m)" using entries_get by force
    then show ?thesis by (simp add: None map_of_eq_None_iff)
  next
    case (Some v)
    then show ?thesis by (simp add: entries_get entries_distinct map_of_eq_Some_iff)
  qed
qed

text \<open>A store is determined by its reads, in contents and in iteration order.\<close>

lemma entries_ext: "get m = get m' \<Longrightarrow> entries m = entries m'"
  by (rule sorted_keys_map_of_eq) (simp_all add: entries_sorted entries_map_of)

text \<open>A predicate on all stored entries survives a write of an entry that has it.\<close>

lemma all_put: "(\<forall>k v. get m k = Some v \<longrightarrow> P k v) \<Longrightarrow> P k0 v0 \<Longrightarrow>
    get (put k0 v0 m) k = Some v \<Longrightarrow> P k v"
  by (auto simp: get_put split: if_splits)

lemma all_del: "(\<forall>k v. get m k = Some v \<longrightarrow> P k v) \<Longrightarrow>
    get (del k0 m) k = Some v \<Longrightarrow> P k v"
  by (auto simp: get_del split: if_splits)

text \<open>Searching the values, as \<^verbatim>\<open>iter().any(..)\<close> does.\<close>

lemma any_entry: "(\<exists>p\<in>set (entries m). Q (snd p)) \<longleftrightarrow> (\<exists>k v. get m k = Some v \<and> Q v)"
  by (metis entries_get prod.collapse snd_conv)

end

interpretation om: ordered_store om_empty om_get om_insert om_remove om_entries
  by unfold_locales (auto simp: om_entries_get)

end
