(* ===== verification/Src_Types.thy ===== *)
theory Src_Types
  imports Src_Store "HOL-Library.List_Lexorder" "HOL-Library.Product_Lexorder" "HOL-Library.Option_ord"
begin

text \<open>
  The data of the canister: the types of \<^verbatim>\<open>lib.rs\<close>, the events of \<^verbatim>\<open>history.rs\<close>, the
  interface types of \<^verbatim>\<open>external_types.rs\<close>, the calls the canister makes and the replies it
  reads, and the thread-local and stable state of \<^verbatim>\<open>canister_state.rs\<close>. Record fields carry
  a prefix (\<open>rr_\<close> for \<^verbatim>\<open>RentalRequest\<close>, \<open>ra_\<close> for \<^verbatim>\<open>RentalAgreement\<close> and so on) because the
  structs share field names. What third-party crates compute is a field of \<open>platform\<close>, an
  argument of every definition that uses it.
\<close>

section \<open>Identifiers and amounts\<close>

text \<open>
  A principal is its byte string; the key order of the stable maps is by length, then
  bytes. \<open>Tokens\<close> is the ledger's e8s newtype with its derived order.
\<close>

datatype principal = Principal (principal_bytes: "u8 list")

instantiation principal :: linorder
begin

definition less_eq_principal :: "principal \<Rightarrow> principal \<Rightarrow> bool" where
  "less_eq_principal p q \<longleftrightarrow>
     (length (principal_bytes p), principal_bytes p) \<le> (length (principal_bytes q), principal_bytes q)"

definition less_principal :: "principal \<Rightarrow> principal \<Rightarrow> bool" where
  "less_principal p q \<longleftrightarrow>
     (length (principal_bytes p), principal_bytes p) < (length (principal_bytes q), principal_bytes q)"

instance
proof
  fix p q r :: principal
  show "p < q \<longleftrightarrow> p \<le> q \<and> \<not> q \<le> p"
    unfolding less_eq_principal_def less_principal_def by (rule less_le_not_le)
  show "p \<le> p"
    unfolding less_eq_principal_def by (rule order.refl)
  show "p \<le> q \<Longrightarrow> q \<le> r \<Longrightarrow> p \<le> r"
    unfolding less_eq_principal_def by (rule order.trans)
  show "p \<le> q \<Longrightarrow> q \<le> p \<Longrightarrow> p = q"
    unfolding less_eq_principal_def by (drule (1) order.antisym) (simp add: principal.expand)
  show "p \<le> q \<or> q \<le> p"
    unfolding less_eq_principal_def by (rule linear)
qed

end

datatype tokens = Tokens (e8s: u64)

instantiation tokens :: linorder
begin

definition less_eq_tokens :: "tokens \<Rightarrow> tokens \<Rightarrow> bool" where
  "less_eq_tokens a b \<longleftrightarrow> e8s a \<le> e8s b"

definition less_tokens :: "tokens \<Rightarrow> tokens \<Rightarrow> bool" where
  "less_tokens a b \<longleftrightarrow> e8s a < e8s b"

instance
  by standard (auto simp: less_eq_tokens_def less_tokens_def intro: tokens.expand)

end

lemma tokens_le_iff: "a \<le> b \<longleftrightarrow> unat (e8s a) \<le> unat (e8s b)"
  by (simp add: less_eq_tokens_def word_le_nat_alt)

lemma tokens_less_iff: "a < b \<longleftrightarrow> unat (e8s a) < unat (e8s b)"
  by (simp add: less_tokens_def word_less_nat_alt)

datatype rental_condition_id = App13CH | App7CH

instantiation rental_condition_id :: linorder
begin

definition less_eq_rental_condition_id :: "rental_condition_id \<Rightarrow> rental_condition_id \<Rightarrow> bool" where
  "less_eq_rental_condition_id a b \<longleftrightarrow> a = App13CH \<or> b = App7CH"

definition less_rental_condition_id :: "rental_condition_id \<Rightarrow> rental_condition_id \<Rightarrow> bool" where
  "less_rental_condition_id a b \<longleftrightarrow> a = App13CH \<and> b = App7CH"

instance
proof
  fix a b c :: rental_condition_id
  show "a < b \<longleftrightarrow> a \<le> b \<and> \<not> b \<le> a"
    by (cases a; cases b) (simp_all add: less_eq_rental_condition_id_def less_rental_condition_id_def)
  show "a \<le> a" by (cases a) (simp_all add: less_eq_rental_condition_id_def)
  show "a \<le> b \<Longrightarrow> b \<le> c \<Longrightarrow> a \<le> c"
    by (cases a; cases b; cases c) (simp_all add: less_eq_rental_condition_id_def)
  show "a \<le> b \<Longrightarrow> b \<le> a \<Longrightarrow> a = b"
    by (cases a; cases b) (simp_all add: less_eq_rental_condition_id_def)
  show "a \<le> b \<or> b \<le> a"
    by (cases a; cases b) (simp_all add: less_eq_rental_condition_id_def)
qed

end

text \<open>Constants of \<^verbatim>\<open>lib.rs\<close> and \<^verbatim>\<open>canister.rs\<close>.\<close>

definition BILLION :: u64 where "BILLION = 1000000000"
definition SECONDS_PER_DAY :: u64 where "SECONDS_PER_DAY = 24 * 60 * 60"
definition TRILLION :: u128 where "TRILLION = 1000000000000"
definition MEMO_TOP_UP_CANISTER :: u64 where "MEMO_TOP_UP_CANISTER = 0x50555054"
definition CYCLES_BURN_INTERVAL_SECONDS :: u64 where "CYCLES_BURN_INTERVAL_SECONDS = 60"
definition INITIAL_RENTAL_PERIOD_DAYS :: u64 where "INITIAL_RENTAL_PERIOD_DAYS = 180"

definition SWISS_NODES_DESCRIPTION :: string where
  "SWISS_NODES_DESCRIPTION = ''All nodes must be in Switzerland or Liechtenstein.''"

lemmas src_constants =
  BILLION_def SECONDS_PER_DAY_def TRILLION_def CYCLES_BURN_INTERVAL_SECONDS_def
  INITIAL_RENTAL_PERIOD_DAYS_def

section \<open>The structs of lib.rs\<close>

record rental_conditions =
  rc_description :: string
  rc_subnet_id :: "principal option"
  rc_daily_cost_cycles :: u128
  rc_initial_rental_period_days :: u64

record subnet_rental_proposal_payload =
  srp_user :: principal
  srp_rental_condition_id :: rental_condition_id
  srp_proposal_id :: u64
  srp_proposal_creation_time_seconds :: u64

record create_rental_agreement_payload =
  crp_user :: principal
  crp_proposal_id :: u64
  crp_subnet_id :: principal

record rental_request =
  rr_user :: principal
  rr_initial_cost_icp :: tokens
  rr_locked_amount_icp :: tokens
  rr_locked_amount_cycles :: u128
  rr_initial_proposal_id :: u64
  rr_creation_time_nanos :: u64
  rr_rental_condition_id :: rental_condition_id
  rr_last_locking_time_nanos :: u64

record rental_agreement =
  ra_user :: principal
  ra_rental_request_proposal_id :: u64
  ra_subnet_creation_proposal_id :: "u64 option"
  ra_subnet_id :: principal
  ra_rental_condition_id :: rental_condition_id
  ra_creation_time_nanos :: u64
  ra_paid_until_nanos :: u64
  ra_total_icp_paid :: tokens
  ra_total_cycles_created :: u128
  ra_total_cycles_burned :: u128

record price_calculation_data =
  pcd_daily_cost_cycles :: u128
  pcd_initial_rental_period_days :: u64
  pcd_scaled_exchange_rate_xdr_per_icp :: u64
  pcd_decimals :: u32

datatype execute_proposal_error =
  CallGovernanceFailed
  | CallXRCFailed string
  | PriceCalculationError price_calculation_data
  | UserAlreadyRequestingSubnetRental
  | UserAlreadyHasAgreement
  | SubnetAlreadyRented
  | SubnetAlreadyRequested
  | UnauthorizedCaller
  | InsufficientFunds (have_icp: tokens) (need_icp: tokens)
  | TransferSrcToCmcError string
  | NotifyTopUpError string
  | SubnetNotRented
  | RentalRequestNotFound

record top_up_summary =
  tus_description :: string
  tus_cycles_added :: u128
  tus_days_added :: u64

record rental_agreement_status =
  ras_description :: string
  ras_cycles_left :: u128
  ras_days_left :: u64

text \<open>
  \<^verbatim>\<open>BoundedVec<MAX_ALLOWED_SUBNET_ADMINS, ..>\<close> rejects longer lists while a message is decoded,
  before any code of the canister runs, so an operation carries a plain list here.
\<close>

datatype operation_type =
  OpAdd "principal list"
  | OpRemove "principal list"
  | OpClear

record update_subnet_admins_payload =
  usa_subnet_id :: principal
  usa_operation_type :: "operation_type option"

datatype update_subnet_admins_error =
  CallerNotRentingSubnet
  | PrincipalListEmpty
  | ConcurrentChange
  | UnknownOperationType
  | RegistryError string

text \<open>\<^verbatim>\<open>UpdateSubnetAdminsResult::Err\<close> carries an option; the code always passes \<^verbatim>\<open>Some\<close>.\<close>

datatype update_subnet_admins_result =
  AdminsOk
  | AdminsErr "update_subnet_admins_error option"

section \<open>The events of history.rs\<close>

datatype event_type =
  RentalConditionsChanged rental_condition_id "rental_conditions option"
  | RentalRequestCreated rental_request
  | RentalRequestFailed (failed_user: principal) (failed_proposal_id: u64) (failed_reason: string)
  | RentalRequestCancelled rental_request
  | RentalAgreementCreated principal u64 "u64 option" rental_condition_id
  | RentalAgreementTerminated principal u64 "u64 option" rental_condition_id
  | TransferSuccess (transfer_amount: tokens) (transfer_block_index: u64)
  | LockingSuccess principal tokens u128
  | LockingFailure principal string
  | SubnetTopUp principal tokens u128 u64 u64
  | SubnetTopUpFailed principal string
  | RentalConditionSwitched principal rental_condition_id rental_condition_id u128 u64 u64
  | Degraded
  | Undegraded
  | Other string

record event =
  ev_time_nanos :: u64
  ev_event :: event_type

record event_page =
  ep_events :: "event list"
  ep_continuation :: u64

section \<open>Calls to other canisters and their replies\<close>

type_synonym subaccount = "u8 list"
type_synonym account_identifier = "u8 list"

text \<open>Errors of other canisters are only rendered by the code, never inspected.\<close>

datatype transfer_error = TransferError string
datatype exchange_rate_error = ExchangeRateError string

datatype notify_error =
  Refunded "u64 option" string
  | InvalidTransaction string
  | NotifyOther string u64
  | Processing
  | TransactionTooOld u64

record transfer_args =
  ta_to :: account_identifier
  ta_fee :: tokens
  ta_from_subaccount :: "subaccount option"
  ta_amount :: tokens
  ta_memo :: u64
  ta_created_at_time :: "u64 option"

record notify_top_up_arg =
  nta_block_index :: u64
  nta_canister_id :: principal

record set_authorized_subnetwork_list_args =
  sal_who :: "principal option"
  sal_subnets :: "principal list"

datatype asset_class = Cryptocurrency | FiatCurrency

record asset =
  as_class :: asset_class
  as_symbol :: string

record get_exchange_rate_request =
  ger_timestamp :: "u64 option"
  ger_quote_asset :: asset
  ger_base_asset :: asset

record exchange_rate_metadata =
  erm_decimals :: u32
  erm_base_asset_num_queried_sources :: u64
  erm_base_asset_num_received_rates :: u64
  erm_quote_asset_num_queried_sources :: u64
  erm_quote_asset_num_received_rates :: u64
  erm_standard_deviation :: u64
  erm_forex_timestamp :: "u64 option"

record exchange_rate =
  er_base_asset :: asset
  er_quote_asset :: asset
  er_timestamp :: u64
  er_rate :: u64
  er_metadata :: exchange_rate_metadata

text \<open>
  The payload for the registry has the shape of the public payload with the operation
  always present and \<^verbatim>\<open>Clear\<close> as an empty record.
\<close>

datatype call =
  CallLedgerTransfer principal transfer_args
  | CallAccountBalance principal account_identifier
  | CallNotifyTopUp principal notify_top_up_arg
  | CallSetAuthorizedSubnetworkList principal set_authorized_subnetwork_list_args
  | CallGetExchangeRate principal get_exchange_rate_request u128
  | CallUpdateSubnetAdmins principal update_subnet_admins_payload

text \<open>
  A reply is decoded at the type the code asks for; a call that fails (rejected, not
  delivered, or with a payload that does not decode) is \<open>ReplyFailed\<close> with the error text.
\<close>

datatype reply =
  ReplyTransfer "transfer_error + u64"
  | ReplyBalance tokens
  | ReplyNotify "notify_error + u128"
  | ReplyUnit
  | ReplyRate "exchange_rate_error + exchange_rate"
  | ReplyFailed string

section \<open>The state of canister\_state.rs\<close>

type_synonym lock = "principal \<times> string"

text \<open>
  \<open>conditions\<close> and \<open>locks\<close> live on the heap and are lost in an upgrade, the other maps are
  stable. \<open>burn_log\<close> is not a variable of the code: it is the system's own record of the
  canister's \<^verbatim>\<open>cycles_burn\<close> calls, requested amount and burned amount, kept in the state so
  that a trap undoes it together with everything else the trapped message did.
\<close>

record canister =
  conditions :: "rental_condition_id \<rightharpoonup> rental_conditions"
  locks :: "lock set"
  rental_requests :: "(principal, rental_request) omap"
  rental_agreements :: "(principal, rental_agreement) omap"
  event_counters :: "(principal option, u64) omap"
  history :: "(principal option \<times> u64, event) omap"
  rates :: "(u64, u64 \<times> u32) omap"
  burn_log :: "(u128 \<times> u128) list"

definition empty_canister :: canister where
  "empty_canister =
     \<lparr>conditions = Map.empty, locks = {}, rental_requests = om_empty, rental_agreements = om_empty,
      event_counters = om_empty, history = om_empty, rates = om_empty, burn_log = []\<rparr>"

section \<open>What third-party crates and the system compute\<close>

text \<open>
  The fields: the arithmetic of \<^verbatim>\<open>ic_ledger_types::Tokens\<close> and its \<^verbatim>\<open>DEFAULT_FEE\<close> and
  \<^verbatim>\<open>DEFAULT_SUBACCOUNT\<close>; the well-known canister ids and \<^verbatim>\<open>Principal::anonymous()\<close>;
  \<^verbatim>\<open>Principal::from_text\<close>, \<^verbatim>\<open>Subaccount::from\<close>, \<^verbatim>\<open>AccountIdentifier::new\<close> and \<^verbatim>\<open>to_hex\<close>;
  the amount the system burns when asked for some amount (given all earlier burns); and the
  renderings of values of those crates used inside \<^verbatim>\<open>format!\<close>.
\<close>

record platform =
  tokens_add :: "tokens \<Rightarrow> tokens \<Rightarrow> tokens"
  tokens_sub :: "tokens \<Rightarrow> tokens \<Rightarrow> tokens"
  default_fee :: tokens
  default_subaccount :: subaccount
  governance_id :: principal
  ledger_id :: principal
  cmc_id :: principal
  anonymous_id :: principal
  self_id :: principal
  principal_from_text :: "string \<Rightarrow> principal option"
  subaccount_of :: "principal \<Rightarrow> subaccount"
  account_of :: "principal \<Rightarrow> subaccount \<Rightarrow> account_identifier"
  account_hex :: "account_identifier \<Rightarrow> string"
  system_burn :: "(u128 \<times> u128) list \<Rightarrow> u128 \<Rightarrow> u128"
  show_principal :: "principal \<Rightarrow> string"
  show_tokens :: "tokens \<Rightarrow> string"
  show_transfer_error :: "transfer_error \<Rightarrow> string"
  debug_transfer_error :: "transfer_error \<Rightarrow> string"
  debug_rate_error :: "exchange_rate_error \<Rightarrow> string"
  debug_notify_error :: "notify_error \<Rightarrow> string"
  debug_execute_error :: "execute_proposal_error \<Rightarrow> string"

text \<open>
  The documented behaviour the code relies on: token arithmetic saturates (the code's own
  comment says so), and the system never burns more cycles than it is asked to.
\<close>

definition tokens_saturate :: "platform \<Rightarrow> bool" where
  "tokens_saturate P \<longleftrightarrow>
     (\<forall>a b. tokens_add P a b = Tokens (saturating_add (e8s a) (e8s b))) \<and>
     (\<forall>a b. tokens_sub P a b = Tokens (saturating_sub (e8s a) (e8s b)))"

definition burns_at_most :: "platform \<Rightarrow> bool" where
  "burns_at_most P \<longleftrightarrow> (\<forall>log n. system_burn P log n \<le> n)"

text \<open>\<^verbatim>\<open>Display\<close> of unsigned integers is decimal.\<close>

fun show_nat :: "nat \<Rightarrow> string" where
  "show_nat n = (if n < 10 then [char_of (48 + n)] else show_nat (n div 10) @ [char_of (48 + n mod 10)])"

declare show_nat.simps [simp del]

text \<open>A concrete platform, used where a hypothesis about the platform is exercised.\<close>

definition demo_platform :: platform where
  "demo_platform =
     \<lparr>tokens_add = (\<lambda>a b. Tokens (saturating_add (e8s a) (e8s b))),
      tokens_sub = (\<lambda>a b. Tokens (saturating_sub (e8s a) (e8s b))),
      default_fee = Tokens 10000,
      default_subaccount = replicate 32 0,
      governance_id = Principal [1], ledger_id = Principal [2], cmc_id = Principal [3],
      anonymous_id = Principal [4], self_id = Principal [5],
      principal_from_text = (\<lambda>t. Some (Principal (map (\<lambda>c. of_nat (of_char c)) t))),
      subaccount_of = principal_bytes,
      account_of = (\<lambda>p sub. principal_bytes p @ sub),
      account_hex = (\<lambda>_. ''''),
      system_burn = (\<lambda>_ n. n),
      show_principal = (\<lambda>_. ''''), show_tokens = (\<lambda>_. ''''),
      show_transfer_error = (\<lambda>_. ''''), debug_transfer_error = (\<lambda>_. ''''),
      debug_rate_error = (\<lambda>_. ''''), debug_notify_error = (\<lambda>_. ''''),
      debug_execute_error = (\<lambda>_. '''')\<rparr>"

lemma demo_platform_ok [simp]: "tokens_saturate demo_platform" "burns_at_most demo_platform"
  by (simp_all add: tokens_saturate_def burns_at_most_def demo_platform_def)

lemma demo_platform_sel [simp]:
  "default_fee demo_platform = Tokens 10000" "system_burn demo_platform log m = m"
  "anonymous_id demo_platform = Principal [4]"
  by (simp_all add: demo_platform_def)

lemma tokens_add_e8s [unat_ops]:
  "tokens_saturate P \<Longrightarrow> unat (e8s (tokens_add P a b)) = min (unat (e8s a) + unat (e8s b)) (2 ^ 64 - 1)"
  by (simp add: tokens_saturate_def unat_saturating_add)

lemma tokens_sub_e8s [unat_ops]:
  "tokens_saturate P \<Longrightarrow> unat (e8s (tokens_sub P a b)) = unat (e8s a) - unat (e8s b)"
  by (simp add: tokens_saturate_def unat_saturating_sub)

end
