(* ===== verification/Src_Exec.thy ===== *)
theory Src_Exec
  imports Src_Types
begin

text \<open>
  How a message executes on the Internet Computer, and the logic the handlers are
  verified in. A handler runs until its next \<^verbatim>\<open>.await\<close> on a call to another canister; up
  to there it is atomic. While it is suspended other messages execute and change the
  state, then it resumes with the reply. If a part between two awaits traps, everything
  that part did is undone; when the trapped part was a resumption, the future is dropped,
  which releases the guards it still holds.

  The first section models this: the outcome of an atomic part (\<open>out\<close>) and the
  combinators the handlers are written with. \<^verbatim>\<open>CallerGuard\<close> is \<open>with_guard\<close>: it puts
  a lock into the shared set and takes it out again when its scope is left, on every path.
  The second section is a rely/guarantee logic over outcomes: \<open>safe\<close> and its rules.
\<close>

section \<open>Outcomes and programs\<close>

datatype 'a out =
  Done 'a canister
  | Trapped string
  | Suspended call "lock list" canister "reply \<Rightarrow> u64 \<Rightarrow> canister \<Rightarrow> 'a out"

text \<open>
  A program takes the system time of the current part and the state. \<open>Suspended c held s k\<close>
  has made the call \<open>c\<close>, committed \<open>s\<close> and still holds the guards \<open>held\<close>; \<open>k\<close> is the rest, for
  any reply, the time then, and the state then.
\<close>

lemma out_induct [case_names Done Trapped Suspended, induct type: out]:
  assumes "\<And>a s. P (Done a s)" and "\<And>m. P (Trapped m)"
    and "\<And>c h s k. (\<And>r n s'. P (k r n s')) \<Longrightarrow> P (Suspended c h s k)"
  shows "P out"
proof (induction out rule: out.induct)
  case (Suspended c h s k)
  show ?case by (rule assms(3)) (rule Suspended.IH [OF rangeI rangeI rangeI])
qed (rule assms)+

type_synonym 'a prog = "u64 \<Rightarrow> canister \<Rightarrow> 'a out"

primrec bind_out :: "'a out \<Rightarrow> u64 \<Rightarrow> ('a \<Rightarrow> 'b prog) \<Rightarrow> 'b out" where
  "bind_out (Done a s) n f = f a n s"
| "bind_out (Trapped m) n f = Trapped m"
| "bind_out (Suspended c h s k) n f = Suspended c h s (\<lambda>r n' s'. bind_out (k r n' s') n' f)"

definition bnd :: "'a prog \<Rightarrow> ('a \<Rightarrow> 'b prog) \<Rightarrow> 'b prog" where
  "bnd m f = (\<lambda>n s. bind_out (m n s) n f)"

definition ret :: "'a \<Rightarrow> 'a prog" where
  "ret a = (\<lambda>n s. Done a s)"

definition panic :: "string \<Rightarrow> 'a prog" where
  "panic msg = (\<lambda>n s. Trapped msg)"

definition gets :: "(canister \<Rightarrow> 'a) \<Rightarrow> 'a prog" where
  "gets f = (\<lambda>n s. Done (f s) s)"

definition modify :: "(canister \<Rightarrow> canister) \<Rightarrow> unit prog" where
  "modify f = (\<lambda>n s. Done () (f s))"

text \<open>A state change with a result, and \<^verbatim>\<open>ic_cdk::api::time()\<close>.\<close>

definition update_with :: "(canister \<Rightarrow> 'a \<times> canister) \<Rightarrow> 'a prog" where
  "update_with f = (\<lambda>n s. case f s of (a, s') \<Rightarrow> Done a s')"

definition update_now :: "(u64 \<Rightarrow> canister \<Rightarrow> 'a \<times> canister) \<Rightarrow> 'a prog" where
  "update_now f = (\<lambda>n s. case f n s of (a, s') \<Rightarrow> Done a s')"

definition api_time :: "u64 prog" where
  "api_time = (\<lambda>n s. Done n s)"

definition await_call :: "call \<Rightarrow> reply prog" where
  "await_call c = (\<lambda>n s. Suspended c [] s (\<lambda>r n' s'. Done r s'))"

text \<open>\<^verbatim>\<open>ic_cdk::api::cycles_burn\<close>: the system decides how much it burns.\<close>

definition cycles_burn :: "platform \<Rightarrow> u128 \<Rightarrow> u128 prog" where
  "cycles_burn P amount = update_with (\<lambda>s.
     let burned = system_burn P (burn_log s) amount
     in (burned, s\<lparr>burn_log := burn_log s @ [(amount, burned)]\<rparr>))"

section \<open>Guards\<close>

definition lock_id :: "lock \<Rightarrow> canister \<Rightarrow> canister" where
  "lock_id l s = s\<lparr>locks := insert l (locks s)\<rparr>"

definition unlock_id :: "lock \<Rightarrow> canister \<Rightarrow> canister" where
  "unlock_id l s = s\<lparr>locks := locks s - {l}\<rparr>"

definition caller_guard_new :: "lock \<Rightarrow> canister \<Rightarrow> (string + lock) \<times> canister" where
  "caller_guard_new l s =
     (if l \<in> locks s then (Inl ''Failed to acquire lock'', s) else (Inr l, lock_id l s))"

primrec release_out :: "lock \<Rightarrow> 'a out \<Rightarrow> 'a out" where
  "release_out l (Done a s) = Done a (unlock_id l s)"
| "release_out l (Trapped m) = Trapped m"
| "release_out l (Suspended c h s k) = Suspended c (l # h) s (\<lambda>r n' s'. release_out l (k r n' s'))"

definition with_guard :: "lock \<Rightarrow> 'a prog \<Rightarrow> 'a prog \<Rightarrow> 'a prog" where
  "with_guard l busy body = (\<lambda>n s.
     case caller_guard_new l s of
       (Inl e, s') \<Rightarrow> busy n s'
     | (Inr l', s') \<Rightarrow> release_out l' (body n s'))"

text \<open>Dropping a suspended future: every guard it holds is released.\<close>

definition release_all :: "lock list \<Rightarrow> canister \<Rightarrow> canister" where
  "release_all h s = s\<lparr>locks := locks s - set h\<rparr>"

lemma release_all_Nil [simp]: "release_all [] s = s"
  by (simp add: release_all_def)

lemma lock_id_sel [simp]:
  "locks (lock_id l s) = insert l (locks s)" "conditions (lock_id l s) = conditions s"
  "rental_requests (lock_id l s) = rental_requests s"
  "rental_agreements (lock_id l s) = rental_agreements s"
  "event_counters (lock_id l s) = event_counters s" "history (lock_id l s) = history s"
  "rates (lock_id l s) = rates s" "burn_log (lock_id l s) = burn_log s"
  by (simp_all add: lock_id_def)

lemma unlock_id_sel [simp]:
  "locks (unlock_id l s) = locks s - {l}" "conditions (unlock_id l s) = conditions s"
  "rental_requests (unlock_id l s) = rental_requests s"
  "rental_agreements (unlock_id l s) = rental_agreements s"
  "event_counters (unlock_id l s) = event_counters s" "history (unlock_id l s) = history s"
  "rates (unlock_id l s) = rates s" "burn_log (unlock_id l s) = burn_log s"
  by (simp_all add: unlock_id_def)

lemma release_all_sel [simp]:
  "locks (release_all h s) = locks s - set h" "conditions (release_all h s) = conditions s"
  "rental_requests (release_all h s) = rental_requests s"
  "rental_agreements (release_all h s) = rental_agreements s"
  "event_counters (release_all h s) = event_counters s" "history (release_all h s) = history s"
  "rates (release_all h s) = rates s" "burn_log (release_all h s) = burn_log s"
  by (simp_all add: release_all_def)

lemma unlock_lock [simp]: "l \<notin> locks s \<Longrightarrow> unlock_id l (lock_id l s) = s"
  by (simp add: unlock_id_def lock_id_def)

text \<open>The guards as an interface: mutual exclusion of holders, independence of other locks.\<close>

locale mutex =
  fixes held :: "'s \<Rightarrow> 'l \<Rightarrow> bool"
    and acquire :: "'l \<Rightarrow> 's \<Rightarrow> (string + 'l) \<times> 's"
    and release :: "'l \<Rightarrow> 's \<Rightarrow> 's"
  assumes acquire_busy: "held s l \<Longrightarrow> acquire l s = (Inl ''Failed to acquire lock'', s)"
    and acquire_free: "\<not> held s l \<Longrightarrow> \<exists>s'. acquire l s = (Inr l, s') \<and> (\<forall>l'. held s' l' \<longleftrightarrow> l' = l \<or> held s l')"
    and release_held: "held (release l s) l' \<longleftrightarrow> l' \<noteq> l \<and> held s l'"
begin

lemma acquire_succeeds_iff: "(\<exists>s'. acquire l s = (Inr l, s')) \<longleftrightarrow> \<not> held s l"
proof (cases "held s l")
  case True
  then show ?thesis by (simp add: acquire_busy)
next
  case False
  then show ?thesis using acquire_free by blast
qed

text \<open>A second acquisition fails and changes nothing until the first holder releases.\<close>

lemma second_acquire_fails:
  "acquire l s = (Inr l, s') \<Longrightarrow> acquire l s' = (Inl ''Failed to acquire lock'', s')"
proof -
  assume acq: "acquire l s = (Inr l, s')"
  then have "\<not> held s l" using acquire_succeeds_iff by blast
  then have "held s' l" using acquire_free [of s l] acq by auto
  then show ?thesis by (rule acquire_busy)
qed

lemma acquire_after_release: "\<exists>s'. acquire l (release l s) = (Inr l, s')"
  using acquire_free [of "release l s" l] by (auto simp: release_held)

lemma other_locks_unaffected:
  "acquire l s = (Inr l, s') \<Longrightarrow> l' \<noteq> l \<Longrightarrow> held (release l s') l' \<longleftrightarrow> held s l'"
proof -
  assume acq: "acquire l s = (Inr l, s')" and "l' \<noteq> l"
  from acq have "\<not> held s l" using acquire_succeeds_iff by blast
  with acq \<open>l' \<noteq> l\<close> show ?thesis using acquire_free [of s l] by (auto simp: release_held)
qed

end

interpretation guard: mutex "\<lambda>s l. l \<in> locks s" caller_guard_new unlock_id
  by unfold_locales (auto simp: caller_guard_new_def)

section \<open>A rely/guarantee logic for messages\<close>

text \<open>
  Which part of the state a lock protects against other messages, as a relation between
  an earlier and a later state. \<^verbatim>\<open>"request"\<close> protects a user's rental request;
  \<^verbatim>\<open>"agreement"\<close> protects the existing rental agreement of a subnet; \<^verbatim>\<open>"nns"\<close> protects
  a subnet from being rented to somebody else.
\<close>

definition protects :: "lock \<Rightarrow> canister \<Rightarrow> canister \<Rightarrow> bool" where
  "protects l s s' \<longleftrightarrow>
     (snd l = ''request'' \<longrightarrow> om_get (rental_requests s') (fst l) = om_get (rental_requests s) (fst l)) \<and>
     (snd l = ''agreement'' \<longrightarrow> (\<forall>a. om_get (rental_agreements s) (fst l) = Some a \<longrightarrow>
         om_get (rental_agreements s') (fst l) = Some a)) \<and>
     (snd l = ''nns'' \<longrightarrow> om_get (rental_agreements s) (fst l) = None \<longrightarrow>
         om_get (rental_agreements s') (fst l) = None)"

lemma protects_refl [simp]: "protects l s s"
  by (simp add: protects_def)

lemma protects_trans: "protects l s s' \<Longrightarrow> protects l s' s'' \<Longrightarrow> protects l s s''"
  by (simp add: protects_def)

text \<open>
  A specification: an invariant of the committed states, a guarantee between the first
  and the last state of each atomic part, the panics that may occur, and the calls that
  may be made.
\<close>

record spec =
  sp_inv :: "canister \<Rightarrow> bool"
  sp_guar :: "canister \<Rightarrow> canister \<Rightarrow> bool"
  sp_trap :: "string \<Rightarrow> bool"
  sp_call :: "call \<Rightarrow> canister \<Rightarrow> bool"

text \<open>
  \<open>H\<close> are the locks the message holds and \<open>X\<close> those of all other messages. A part that
  commits leaves exactly the locks it holds, keeps the invariant, and leaves alone what the
  others' locks protect. A resumption may rely on the same from the others, and on the
  guarantee all of them give (a reflexive and transitive relation).
\<close>

definition segment_ok :: "spec \<Rightarrow> lock set \<Rightarrow> lock set \<Rightarrow> canister \<Rightarrow> canister \<Rightarrow> bool" where
  "segment_ok S H X s0 s \<longleftrightarrow> locks s = X \<union> H \<and> X \<inter> H = {} \<and> sp_inv S s \<and> sp_guar S s0 s \<and>
     (\<forall>l\<in>X. protects l s0 s)"

definition resume_ok :: "spec \<Rightarrow> lock set \<Rightarrow> lock set \<Rightarrow> canister \<Rightarrow> canister \<Rightarrow> bool" where
  "resume_ok S H X s s' \<longleftrightarrow> locks s' = X \<union> H \<and> X \<inter> H = {} \<and> sp_inv S s' \<and> sp_guar S s s' \<and>
     (\<forall>l\<in>H. protects l s s')"

type_synonym 'a post = "'a \<Rightarrow> lock set \<Rightarrow> canister \<Rightarrow> u64 \<Rightarrow> canister \<Rightarrow> bool"

text \<open>
  \<open>safe out S Q H X s0 n\<close>: the outcome and everything that can follow it meets \<open>S\<close>, and \<open>Q\<close>
  holds when the program is done. \<open>H\<close> are locks of enclosing guards, \<open>s0\<close> is the state at the
  start of the current part, \<open>n\<close> its time.
\<close>

primrec safe :: "'a out \<Rightarrow> spec \<Rightarrow> 'a post \<Rightarrow> lock set \<Rightarrow> lock set \<Rightarrow> canister \<Rightarrow> u64 \<Rightarrow> bool" where
  "safe (Done a s) S Q H X s0 n = Q a X s0 n s"
| "safe (Trapped m) S Q H X s0 n = sp_trap S m"
| "safe (Suspended c h s k) S Q H X s0 n =
     (distinct h \<and> H \<inter> set h = {} \<and> segment_ok S (H \<union> set h) X s0 s \<and> sp_call S c s \<and>
      (\<forall>r n' s' X'. resume_ok S (H \<union> set h) X' s s' \<longrightarrow> safe (k r n' s') S Q H X' s' n'))"

definition wp :: "spec \<Rightarrow> 'a post \<Rightarrow> lock set \<Rightarrow> lock set \<Rightarrow> canister \<Rightarrow> 'a prog \<Rightarrow> u64 \<Rightarrow> canister \<Rightarrow> bool" where
  "wp S Q H X s0 m n s = safe (m n s) S Q H X s0 n"

text \<open>A whole message: no lock is left behind and the last part is a good one.\<close>

definition finish :: "spec \<Rightarrow> 'a post" where
  "finish S = (\<lambda>a X s0 n s. segment_ok S {} X s0 s)"

definition message_safe :: "spec \<Rightarrow> 'a prog \<Rightarrow> bool" where
  "message_safe S m \<longleftrightarrow> (\<forall>n s. sp_inv S s \<longrightarrow> wp S (finish S) {} (locks s) s m n s)"

subsection \<open>Rules\<close>

named_theorems wp_rules "rules that compute the safety of a program"

lemma safe_bind_out:
  "safe (bind_out m n f) S Q H X s0 n = safe m S (\<lambda>a X s0 n s. safe (f a n s) S Q H X s0 n) H X s0 n"
  by (induction m arbitrary: n X s0) simp_all

lemma wp_bnd [wp_rules]:
  "wp S Q H X s0 (bnd m f) n s = wp S (\<lambda>a X s0 n s. wp S Q H X s0 (f a) n s) H X s0 m n s"
  by (simp add: wp_def bnd_def safe_bind_out)

lemma wp_ret [wp_rules]: "wp S Q H X s0 (ret a) n s = Q a X s0 n s"
  by (simp add: wp_def ret_def)

lemma wp_panic [wp_rules]: "wp S Q H X s0 (panic msg) n s = sp_trap S msg"
  by (simp add: wp_def panic_def)

lemma wp_gets [wp_rules]: "wp S Q H X s0 (gets f) n s = Q (f s) X s0 n s"
  by (simp add: wp_def gets_def)

lemma wp_modify [wp_rules]: "wp S Q H X s0 (modify f) n s = Q () X s0 n (f s)"
  by (simp add: wp_def modify_def)

lemma wp_update_with [wp_rules]:
  "wp S Q H X s0 (update_with f) n s = Q (fst (f s)) X s0 n (snd (f s))"
  by (simp add: wp_def update_with_def split: prod.splits)

lemma wp_update_now [wp_rules]:
  "wp S Q H X s0 (update_now f) n s = Q (fst (f n s)) X s0 n (snd (f n s))"
  by (simp add: wp_def update_now_def split: prod.splits)

lemma wp_api_time [wp_rules]: "wp S Q H X s0 api_time n s = Q n X s0 n s"
  by (simp add: wp_def api_time_def)

lemma wp_await_call [wp_rules]:
  "wp S Q H X s0 (await_call c) n s \<longleftrightarrow> segment_ok S H X s0 s \<and> sp_call S c s \<and>
     (\<forall>r n' s' X'. resume_ok S H X' s s' \<longrightarrow> Q r X' s' n' s')"
  by (simp add: wp_def await_call_def)

lemma safe_release_out:
  assumes "l \<notin> H"
  shows "safe (release_out l m) S Q H X s0 n =
    safe m S (\<lambda>a X s0 n s. Q a X s0 n (unlock_id l s)) (insert l H) X s0 n"
proof (induction m arbitrary: X s0 n)
  case (Suspended c h s k)
  have "H \<union> set (l # h) = insert l H \<union> set h" by simp
  moreover have "distinct (l # h) \<and> H \<inter> set (l # h) = {} \<longleftrightarrow> distinct h \<and> insert l H \<inter> set h = {}"
    using assms by auto
  ultimately show ?case
    unfolding release_out.simps safe.simps by (simp only: Suspended.IH) blast
qed simp_all

lemma wp_with_guard [wp_rules]:
  assumes "l \<in> H \<Longrightarrow> l \<in> locks s"
  shows "wp S Q H X s0 (with_guard l busy body) n s =
    (if l \<in> locks s then wp S Q H X s0 busy n s
     else wp S (\<lambda>a X s0 n s. Q a X s0 n (unlock_id l s)) (insert l H) X s0 body n (lock_id l s))"
proof (cases "l \<in> locks s")
  case False
  with assms have "l \<notin> H" by blast
  with False show ?thesis by (simp add: wp_def with_guard_def caller_guard_new_def safe_release_out)
qed (simp add: wp_def with_guard_def caller_guard_new_def)

lemma wp_if [wp_rules]:
  "wp S Q H X s0 (if b then m else m') n s = (if b then wp S Q H X s0 m n s else wp S Q H X s0 m' n s)"
  by simp

lemma wp_mono:
  assumes "wp S Q H X s0 m n s"
    and "\<And>a X s0 n s. Q a X s0 n s \<Longrightarrow> Q' a X s0 n s"
  shows "wp S Q' H X s0 m n s"
proof -
  have "safe out S Q H X s0 n \<Longrightarrow> safe out S Q' H X s0 n" for out X s0 n
    by (induction out arbitrary: X s0 n) (use assms(2) in auto)
  then show ?thesis using assms(1) by (simp add: wp_def)
qed

text \<open>Sequencing with a stated intermediate assertion, for loops and long handlers.\<close>

lemma wp_seq:
  assumes "wp S R H X s0 m n s"
    and "\<And>a X s0 n s. R a X s0 n s \<Longrightarrow> wp S Q H X s0 (f a) n s"
  shows "wp S Q H X s0 (bnd m f) n s"
  unfolding wp_bnd using assms by (rule wp_mono)

section \<open>Runs without interference\<close>

text \<open>
  A message that is alone: each reply is delivered with the time it arrives at, to the
  state the message left. \<open>calls\<close> lists the calls made on the way.
\<close>

fun run :: "(reply \<times> u64) list \<Rightarrow> 'a out \<Rightarrow> 'a out" where
  "run ((r, n) # rs) (Suspended c h s k) = run rs (k r n s)"
| "run rs out = out"

fun calls :: "(reply \<times> u64) list \<Rightarrow> 'a out \<Rightarrow> call list" where
  "calls ((r, n) # rs) (Suspended c h s k) = c # calls rs (k r n s)"
| "calls [] (Suspended c h s k) = [c]"
| "calls rs out = []"

text \<open>
  The same with interference: \<open>env\<close> is what the other messages do to the state while the call
  is out. The result lists the calls answered on the way and what is left of the message.
\<close>

fun drive :: "(reply \<times> u64 \<times> (canister \<Rightarrow> canister)) list \<Rightarrow> 'a out \<Rightarrow> call list \<times> 'a out" where
  "drive ((r, n, env) # rs) (Suspended c h s k) = (case drive rs (k r n (env s)) of (cs, out) \<Rightarrow> (c # cs, out))"
| "drive rs out = ([], out)"

text \<open>
  What holds of all calls (\<open>C\<close>) and of all states (\<open>I\<close>, an assertion on committed states and
  on the last one) of a message, whatever it is replied, as long as the others keep \<open>I\<close>.
\<close>

primrec keeps :: "(call \<Rightarrow> bool) \<Rightarrow> (canister \<Rightarrow> bool) \<Rightarrow> 'a out \<Rightarrow> bool" where
  "keeps C I (Done a s) = I s"
| "keeps C I (Trapped m) = True"
| "keeps C I (Suspended c h s k) = (C c \<and> I s \<and> (\<forall>r n s'. I s' \<longrightarrow> keeps C I (k r n s')))"

lemma keeps_bind_out:
  assumes "keeps C I m" and "\<And>a n s. I s \<Longrightarrow> keeps C I (f a n s)"
  shows "keeps C I (bind_out m n f)"
  using assms(1) by (induction m arbitrary: n) (simp_all add: assms(2))

lemma keeps_bnd:
  assumes "keeps C I (m n s)" and "\<And>a n s. I s \<Longrightarrow> keeps C I (f a n s)"
  shows "keeps C I (bnd m f n s)"
  unfolding bnd_def using assms by (rule keeps_bind_out)

lemma keeps_release_out:
  assumes "keeps C I m" and "\<And>s. I s \<Longrightarrow> I (unlock_id l s)"
  shows "keeps C I (release_out l m)"
  using assms(1) by (induction m) (simp_all add: assms(2))

lemma keeps_with_guard:
  assumes "l \<in> locks s \<Longrightarrow> keeps C I (busy n s)"
    and "l \<notin> locks s \<Longrightarrow> keeps C I (body n (lock_id l s))" and "\<And>s. I s \<Longrightarrow> I (unlock_id l s)"
  shows "keeps C I (with_guard l busy body n s)"
  using assms by (auto simp: with_guard_def caller_guard_new_def intro: keeps_release_out)

lemma keeps_run:
  "keeps C I out \<Longrightarrow> run rs out = Done a s' \<Longrightarrow> I s'"
  "keeps C I out \<Longrightarrow> run rs out = Suspended c h s' k \<Longrightarrow> I s'"
  by (induction rs out rule: run.induct) auto

lemma keeps_calls: "keeps C I out \<Longrightarrow> c \<in> set (calls rs out) \<Longrightarrow> C c"
  by (induction rs out rule: calls.induct) auto

text \<open>Unfolding these computes a run.\<close>

lemmas exec_simps =
  bnd_def ret_def panic_def gets_def modify_def update_with_def update_now_def api_time_def
  await_call_def with_guard_def caller_guard_new_def

end
