(* ===== verification/Src_System.thy ===== *)
theory Src_System
  imports Src_Exec
begin

text \<open>
  A canister in operation: messages arrive, suspend at calls, and resume in any order, any
  number of them in flight. \<open>msg_step\<close> is one atomic part of one message; an upgrade
  happens on a stopped canister, that is with no message in flight. The locale
  \<open>safe_service\<close> turns the safety of each handler (\<open>message_safe\<close>) into invariants of every
  reachable system: the rely/guarantee soundness argument, once for all handlers.
\<close>

section \<open>Systems\<close>

datatype 'r task = Task (pending: call) (held_locks: "lock list") (left: canister)
  (rest: "reply \<Rightarrow> u64 \<Rightarrow> canister \<Rightarrow> 'r out")

type_synonym 'r system = "canister \<times> 'r task list"

datatype 'r obs = Answered 'r | Panicked string | Called call

definition all_held :: "'r task list \<Rightarrow> lock list" where
  "all_held ts = concat (map held_locks ts)"

text \<open>
  A part of a message ends in one of three ways: it answers, it traps (then its changes are
  dropped, and the guards of a suspended message are released), or it suspends at a call.
\<close>

inductive msg_step :: "('m \<Rightarrow> 'r prog) \<Rightarrow> 'r system \<Rightarrow> 'r obs \<Rightarrow> 'r system \<Rightarrow> bool"
  for handler :: "'m \<Rightarrow> 'r prog" where
  arrive_done:
    "handler m n s = Done r s' \<Longrightarrow> msg_step handler (s, ts) (Answered r) (s', ts)"
| arrive_trap:
    "handler m n s = Trapped e \<Longrightarrow> msg_step handler (s, ts) (Panicked e) (s, ts)"
| arrive_call:
    "handler m n s = Suspended c h s' k \<Longrightarrow>
     msg_step handler (s, ts) (Called c) (s', ts @ [Task c h s' k])"
| resume_done:
    "k reply n s = Done r s' \<Longrightarrow>
     msg_step handler (s, ts @ Task c0 h0 s0 k # ts') (Answered r) (s', ts @ ts')"
| resume_trap:
    "k reply n s = Trapped e \<Longrightarrow>
     msg_step handler (s, ts @ Task c0 h0 s0 k # ts') (Panicked e) (release_all h0 s, ts @ ts')"
| resume_call:
    "k reply n s = Suspended c h s' k' \<Longrightarrow>
     msg_step handler (s, ts @ Task c0 h0 s0 k # ts') (Called c) (s', ts @ Task c h s' k' # ts')"

inductive_cases msg_stepE: "msg_step handler \<sigma> ob \<sigma>'"

inductive msg_steps :: "('m \<Rightarrow> 'r prog) \<Rightarrow> 'r system \<Rightarrow> 'r obs list \<Rightarrow> 'r system \<Rightarrow> bool"
  for handler :: "'m \<Rightarrow> 'r prog" where
  steps_Nil: "msg_steps handler \<sigma> [] \<sigma>"
| steps_snoc: "msg_steps handler \<sigma> obs \<sigma>' \<Longrightarrow> msg_step handler \<sigma>' ob \<sigma>'' \<Longrightarrow>
    msg_steps handler \<sigma> (obs @ [ob]) \<sigma>''"

inductive reachable ::
  "('m \<Rightarrow> 'r prog) \<Rightarrow> (u64 \<Rightarrow> canister \<Rightarrow> canister) \<Rightarrow> (u64 \<Rightarrow> canister) \<Rightarrow> 'r system \<Rightarrow> bool"
  for handler :: "'m \<Rightarrow> 'r prog" and upgrade :: "u64 \<Rightarrow> canister \<Rightarrow> canister" and start :: "u64 \<Rightarrow> canister" where
  reach_start: "reachable handler upgrade start (start n, [])"
| reach_step: "reachable handler upgrade start \<sigma> \<Longrightarrow> msg_step handler \<sigma> ob \<sigma>' \<Longrightarrow>
    reachable handler upgrade start \<sigma>'"
| reach_upgrade: "reachable handler upgrade start (s, []) \<Longrightarrow>
    reachable handler upgrade start (upgrade n s, [])"

lemma reach_steps: "msg_steps handler \<sigma> obs \<sigma>' \<Longrightarrow> reachable handler upgrade start \<sigma> \<Longrightarrow>
    reachable handler upgrade start \<sigma>'"
  by (induction rule: msg_steps.induct) (auto intro: reach_step)

lemma msg_steps_single: "msg_step handler \<sigma> ob \<sigma>' \<Longrightarrow> msg_steps handler \<sigma> [ob] \<sigma>'"
  using steps_snoc [OF steps_Nil, of handler \<sigma> ob \<sigma>'] by simp

lemma all_held_simps [simp]:
  "all_held [] = []" "all_held (t # ts) = held_locks t @ all_held ts"
  "all_held (ts @ ts') = all_held ts @ all_held ts'"
  by (simp_all add: all_held_def)

section \<open>Soundness\<close>

text \<open>
  A suspended task is fine in state \<open>s\<close> when whatever resumes it from a state the others may
  leave is safe, and \<open>s\<close> is such a state.
\<close>

definition task_ok :: "spec \<Rightarrow> canister \<Rightarrow> 'r task \<Rightarrow> bool" where
  "task_ok S s t \<longleftrightarrow> sp_guar S (left t) s \<and> (\<forall>l\<in>set (held_locks t). protects l (left t) s) \<and>
     (\<forall>r n s' X'. resume_ok S (set (held_locks t)) X' (left t) s' \<longrightarrow>
        safe (rest t r n s') S (finish S) {} X' s' n)"

definition system_ok :: "spec \<Rightarrow> 'r system \<Rightarrow> bool" where
  "system_ok S \<sigma> \<longleftrightarrow> sp_inv S (fst \<sigma>) \<and> distinct (all_held (snd \<sigma>)) \<and>
     locks (fst \<sigma>) = set (all_held (snd \<sigma>)) \<and> (\<forall>t\<in>set (snd \<sigma>). task_ok S (fst \<sigma>) t)"

locale safe_service =
  fixes handler :: "'m \<Rightarrow> 'r prog"
    and upgrade :: "u64 \<Rightarrow> canister \<Rightarrow> canister"
    and start :: "u64 \<Rightarrow> canister"
    and S :: spec
  assumes handler_safe: "message_safe S (handler m)"
    and start_ok: "sp_inv S (start n) \<and> locks (start n) = {}"
    and upgrade_ok: "sp_inv S s \<Longrightarrow> sp_inv S (upgrade n s) \<and> locks (upgrade n s) = {}"
    and guar_refl: "sp_guar S s s"
    and guar_trans: "sp_guar S s s' \<Longrightarrow> sp_guar S s' s'' \<Longrightarrow> sp_guar S s s''"
    and release_ok: "sp_inv S s \<Longrightarrow> sp_inv S (release_all h s) \<and> sp_guar S s (release_all h s)"
begin

text \<open>A part that is good for the others keeps every other task fine.\<close>

lemma task_ok_step:
  assumes "task_ok S s t" and "sp_guar S s s'" and "\<forall>l\<in>set (held_locks t). protects l s s'"
  shows "task_ok S s' t"
  using assms guar_trans protects_trans unfolding task_ok_def by blast

lemma tasks_ok_segment:
  assumes "\<forall>t\<in>set ts. task_ok S s t" and "segment_ok S H X s s'" and "set (all_held ts) \<subseteq> X"
  shows "\<forall>t\<in>set ts. task_ok S s' t"
proof
  fix t assume t: "t \<in> set ts"
  then have "set (held_locks t) \<subseteq> X" using assms(3) by (auto simp: all_held_def)
  then have "\<forall>l\<in>set (held_locks t). protects l s s'" using assms(2) by (auto simp: segment_ok_def)
  with t assms(1,2) show "task_ok S s' t" by (meson segment_ok_def task_ok_step)
qed

text \<open>What a part of a message may do: the three outcomes, for a task or a new message.\<close>

lemma part_done:
  assumes safe: "safe (Done r s') S (finish S) {} X s n" and X: "X = set (all_held ts)"
    and d: "distinct (all_held ts)" and ok: "\<forall>t\<in>set ts. task_ok S s t"
  shows "system_ok S (s', ts)"
proof -
  have seg: "segment_ok S {} X s s'" using safe by (simp add: finish_def)
  have "\<forall>t\<in>set ts. task_ok S s' t"
    using ok seg by (rule tasks_ok_segment) (simp add: X)
  with seg d X show ?thesis by (simp add: system_ok_def segment_ok_def)
qed

lemma part_call:
  assumes safe: "safe (Suspended c h s' k) S (finish S) {} X s n"
    and X: "X = set (all_held (ts @ ts'))" and d: "distinct (all_held (ts @ ts'))"
    and ok: "\<forall>t\<in>set (ts @ ts'). task_ok S s t"
  shows "system_ok S (s', ts @ Task c h s' k # ts') \<and> sp_call S c s'"
proof -
  have seg: "segment_ok S (set h) X s s'" and "distinct h" and call: "sp_call S c s'"
    and rest: "\<forall>r n s'' X'. resume_ok S (set h) X' s' s'' \<longrightarrow> safe (k r n s'') S (finish S) {} X' s'' n"
    using safe by auto
  have "\<forall>t\<in>set (ts @ ts'). task_ok S s' t"
    using ok seg by (rule tasks_ok_segment) (simp add: X)
  moreover have "task_ok S s' (Task c h s' k)"
    using rest by (simp add: task_ok_def guar_refl)
  ultimately show ?thesis
    using seg \<open>distinct h\<close> d X call by (auto simp: system_ok_def segment_ok_def)
qed

lemma handler_part:
  assumes "system_ok S (s, ts)"
  shows "safe (handler m n s) S (finish S) {} (set (all_held ts)) s n"
proof -
  have "sp_inv S s" and l: "locks s = set (all_held ts)" using assms by (simp_all add: system_ok_def)
  from handler_safe [of m] \<open>sp_inv S s\<close> have "safe (handler m n s) S (finish S) {} (locks s) s n"
    by (simp only: message_safe_def wp_def)
  then show ?thesis by (simp only: l)
qed

lemma resumed_part:
  assumes "system_ok S (s, ts @ Task c0 h0 s0 k # ts')"
  shows "safe (k reply n s) S (finish S) {} (set (all_held (ts @ ts'))) s n"
proof -
  let ?X = "set (all_held (ts @ ts'))"
  have t: "task_ok S s (Task c0 h0 s0 k)" and d: "distinct (all_held (ts @ Task c0 h0 s0 k # ts'))"
    and l: "locks s = set (all_held (ts @ Task c0 h0 s0 k # ts'))" and "sp_inv S s"
    using assms by (auto simp: system_ok_def)
  have "locks s = ?X \<union> set h0" "?X \<inter> set h0 = {}"
    using l d by auto
  with t \<open>sp_inv S s\<close> have "resume_ok S (set h0) ?X s0 s"
    by (simp add: resume_ok_def task_ok_def)
  with t show ?thesis by (simp add: task_ok_def)
qed

lemma others:
  assumes "system_ok S (s, ts @ t # ts')"
  shows "distinct (all_held (ts @ ts'))" and "\<forall>t\<in>set (ts @ ts'). task_ok S s t"
  using assms by (auto simp: system_ok_def)

lemma trapped_task:
  assumes "system_ok S (s, ts @ Task c0 h0 s0 k # ts')"
  shows "system_ok S (release_all h0 s, ts @ ts')"
proof -
  have "\<forall>t\<in>set (ts @ ts'). task_ok S (release_all h0 s) t"
  proof
    fix t assume "t \<in> set (ts @ ts')"
    then have "task_ok S s t" using others(2) [OF assms] by blast
    moreover have "sp_guar S s (release_all h0 s)"
      using assms release_ok by (simp add: system_ok_def)
    ultimately show "task_ok S (release_all h0 s) t"
      by (rule task_ok_step) (simp add: protects_def)
  qed
  with assms release_ok show ?thesis by (auto simp: system_ok_def)
qed

lemma step_ok:
  assumes "msg_step handler \<sigma> ob \<sigma>'" and ok: "system_ok S \<sigma>"
  shows "system_ok S \<sigma>' \<and>
    (\<forall>e. ob = Panicked e \<longrightarrow> sp_trap S e) \<and> (\<forall>c. ob = Called c \<longrightarrow> sp_call S c (fst \<sigma>'))"
  using assms
proof (induction rule: msg_step.induct)
  case (arrive_done m n s r s' ts)
  note part = handler_part [OF arrive_done.prems, of m n, unfolded arrive_done.hyps]
  show ?case
    using part_done [OF part refl] arrive_done.prems by (simp add: system_ok_def)
next
  case (arrive_trap m n s e ts)
  then show ?case using handler_part [OF arrive_trap.prems, of m n] by simp
next
  case (arrive_call m n s c h s' k ts)
  note part = handler_part [OF arrive_call.prems, of m n, unfolded arrive_call.hyps]
  show ?case
    using part_call [OF part, of ts "[]"] arrive_call.prems by (simp add: system_ok_def)
next
  case (resume_done k reply n s r s' ts c0 h0 s0 ts')
  note part = resumed_part [OF resume_done.prems, of reply n, unfolded resume_done.hyps]
  show ?case
    using part_done [OF part refl others [OF resume_done.prems]] by simp
next
  case (resume_trap k reply n s e ts c0 h0 s0 ts')
  note part = resumed_part [OF resume_trap.prems, of reply n, unfolded resume_trap.hyps]
  show ?case using part trapped_task [OF resume_trap.prems] by simp
next
  case (resume_call k reply n s c h s' k' ts c0 h0 s0 ts')
  note part = resumed_part [OF resume_call.prems, of reply n, unfolded resume_call.hyps]
  show ?case
    using part_call [OF part refl others [OF resume_call.prems]] by simp
qed

theorem reachable_ok: "reachable handler upgrade start \<sigma> \<Longrightarrow> system_ok S \<sigma>"
proof (induction rule: reachable.induct)
  case (reach_start n)
  then show ?case using start_ok by (simp add: system_ok_def)
next
  case (reach_step \<sigma> ob \<sigma>')
  then show ?case using step_ok by blast
next
  case (reach_upgrade s n)
  then show ?case using upgrade_ok by (simp add: system_ok_def)
qed

text \<open>What this says of a reachable system.\<close>

lemma reachable_inv: "reachable handler upgrade start (s, ts) \<Longrightarrow> sp_inv S s"
  using reachable_ok by (force simp: system_ok_def)

lemma reachable_locks:
  "reachable handler upgrade start (s, ts) \<Longrightarrow> distinct (all_held ts) \<and> locks s = set (all_held ts)"
  using reachable_ok by (force simp: system_ok_def)

lemma reachable_no_panic:
  "reachable handler upgrade start \<sigma> \<Longrightarrow> msg_step handler \<sigma> (Panicked e) \<sigma>' \<Longrightarrow> sp_trap S e"
  using reachable_ok step_ok by blast

lemma reachable_calls:
  assumes "reachable handler upgrade start \<sigma>" and "msg_step handler \<sigma> (Called c) \<sigma>'"
  shows "sp_call S c (fst \<sigma>')"
  using step_ok [OF assms(2) reachable_ok [OF assms(1)]] by simp

lemma step_guar:
  assumes "msg_step handler \<sigma> ob \<sigma>'" and ok: "system_ok S \<sigma>"
  shows "sp_guar S (fst \<sigma>) (fst \<sigma>')"
  using assms
proof (induction rule: msg_step.induct)
  case (arrive_done m n s r s' ts)
  show ?case
    using handler_part [OF arrive_done.prems, of m n, unfolded arrive_done.hyps]
    by (simp add: finish_def segment_ok_def)
next
  case (arrive_trap m n s e ts)
  show ?case by (simp add: guar_refl)
next
  case (arrive_call m n s c h s' k ts)
  show ?case
    using handler_part [OF arrive_call.prems, of m n, unfolded arrive_call.hyps]
    by (simp add: segment_ok_def)
next
  case (resume_done k reply n s r s' ts c0 h0 s0 ts')
  show ?case
    using resumed_part [OF resume_done.prems, of reply n, unfolded resume_done.hyps]
    by (simp add: finish_def segment_ok_def)
next
  case (resume_trap k reply n s e ts c0 h0 s0 ts')
  then show ?case using release_ok by (simp add: system_ok_def)
next
  case (resume_call k reply n s c h s' k' ts c0 h0 s0 ts')
  show ?case
    using resumed_part [OF resume_call.prems, of reply n, unfolded resume_call.hyps]
    by (simp add: segment_ok_def)
qed

lemma steps_guar:
  assumes "msg_steps handler \<sigma> obs \<sigma>'" and "system_ok S \<sigma>"
  shows "system_ok S \<sigma>' \<and> sp_guar S (fst \<sigma>) (fst \<sigma>')"
  using assms
proof (induction rule: msg_steps.induct)
  case (steps_Nil \<sigma>)
  then show ?case by (simp add: guar_refl)
next
  case (steps_snoc \<sigma> obs \<sigma>' ob \<sigma>'')
  then have ok: "system_ok S \<sigma>'" and guar: "sp_guar S (fst \<sigma>) (fst \<sigma>')" by simp_all
  have "system_ok S \<sigma>''" using step_ok [OF steps_snoc.hyps(2) ok] by simp
  moreover have "sp_guar S (fst \<sigma>) (fst \<sigma>'')"
    using guar step_guar [OF steps_snoc.hyps(2) ok] by (rule guar_trans)
  ultimately show ?case by simp
qed

end

end
