(* ===== verification/Src_State.thy ===== *)
theory Src_State
  imports Src_Exec
begin

text \<open>
  The operations of \<^verbatim>\<open>canister_state.rs\<close>, one definition each, as functions on the state:
  rental conditions, rental requests, rental agreements, the rate cache, the sequence
  numbers and the history with its pages.
\<close>

section \<open>Rental conditions, requests and agreements\<close>

definition get_rental_conditions :: "rental_condition_id \<Rightarrow> canister \<Rightarrow> rental_conditions option" where
  "get_rental_conditions key s = conditions s key"

definition insert_rental_condition :: "rental_condition_id \<Rightarrow> rental_conditions \<Rightarrow> canister \<Rightarrow> canister" where
  "insert_rental_condition key value s = s\<lparr>conditions := (conditions s)(key \<mapsto> value)\<rparr>"

text \<open>A \<^verbatim>\<open>HashMap\<close> iterates in an unspecified order: \<open>order\<close> lists its keys.\<close>

definition iter_rental_conditions ::
  "rental_condition_id list \<Rightarrow> canister \<Rightarrow> (rental_condition_id \<times> rental_conditions) list" where
  "iter_rental_conditions order s =
     List.map_filter (\<lambda>k. map_option (Pair k) (conditions s k)) order"

definition get_rental_request :: "principal \<Rightarrow> canister \<Rightarrow> rental_request option" where
  "get_rental_request user s = om_get (rental_requests s) user"

definition update_rental_request ::
  "principal \<Rightarrow> (rental_request \<Rightarrow> rental_request) \<Rightarrow> canister \<Rightarrow> (string + unit) \<times> canister" where
  "update_rental_request requester transform s =
     (case om_get (rental_requests s) requester of
        None \<Rightarrow> (Inl ''Princial has no rental agreement.'', s)
      | Some value \<Rightarrow>
          (Inr (), s\<lparr>rental_requests := om_insert requester (transform value) (rental_requests s)\<rparr>))"

definition remove_rental_request :: "principal \<Rightarrow> canister \<Rightarrow> rental_request option \<times> canister" where
  "remove_rental_request requester s =
     (om_get (rental_requests s) requester,
      s\<lparr>rental_requests := om_remove requester (rental_requests s)\<rparr>)"

definition iter_rental_requests :: "canister \<Rightarrow> (principal \<times> rental_request) list" where
  "iter_rental_requests s = om_entries (rental_requests s)"

definition get_rental_agreement :: "principal \<Rightarrow> canister \<Rightarrow> rental_agreement option" where
  "get_rental_agreement subnet_id s = om_get (rental_agreements s) subnet_id"

definition iter_rental_agreements :: "canister \<Rightarrow> (principal \<times> rental_agreement) list" where
  "iter_rental_agreements s = om_entries (rental_agreements s)"

definition update_rental_agreement ::
  "principal \<Rightarrow> (rental_agreement \<Rightarrow> rental_agreement) \<Rightarrow> canister \<Rightarrow> (string + unit) \<times> canister" where
  "update_rental_agreement subnet_id transform s =
     (case om_get (rental_agreements s) subnet_id of
        None \<Rightarrow> (Inl ''Subnet_id has no rental agreement.'', s)
      | Some value \<Rightarrow>
          (Inr (), s\<lparr>rental_agreements := om_insert subnet_id (transform value) (rental_agreements s)\<rparr>))"

definition get_cached_rate :: "u64 \<Rightarrow> canister \<Rightarrow> (u64 \<times> u32) option" where
  "get_cached_rate time s = om_get (rates s) time"

definition cache_rate :: "u64 \<Rightarrow> u64 \<Rightarrow> u32 \<Rightarrow> canister \<Rightarrow> canister" where
  "cache_rate time rate decimals s = s\<lparr>rates := om_insert time (rate, decimals) (rates s)\<rparr>"

section \<open>History\<close>

definition next_seq :: "principal option \<Rightarrow> canister \<Rightarrow> u64 \<times> canister" where
  "next_seq mbp s =
     (let cur = (case om_get (event_counters s) mbp of None \<Rightarrow> 0 | Some c \<Rightarrow> c)
      in (cur, s\<lparr>event_counters := om_insert mbp (cur + 1) (event_counters s)\<rparr>))"

definition get_current_seq :: "principal option \<Rightarrow> canister \<Rightarrow> u64 option" where
  "get_current_seq mbp s =
     (case om_get (event_counters s) mbp of None \<Rightarrow> None | Some x \<Rightarrow> checked_sub x 1)"

text \<open>\<^verbatim>\<open>EventType::into()\<close> stamps the event with the system time.\<close>

definition event_of_type :: "u64 \<Rightarrow> event_type \<Rightarrow> event" where
  "event_of_type now value = \<lparr>ev_time_nanos = now, ev_event = value\<rparr>"

definition persist_event :: "u64 \<Rightarrow> event_type \<Rightarrow> principal option \<Rightarrow> canister \<Rightarrow> canister" where
  "persist_event now ev key s =
     (case next_seq key s of (seq, s') \<Rightarrow>
        s'\<lparr>history := om_insert (key, seq) (event_of_type now ev) (history s')\<rparr>)"

definition emit :: "event_type \<Rightarrow> principal option \<Rightarrow> unit prog" where
  "emit ev key = update_now (\<lambda>now s. ((), persist_event now ev key s))"

definition get_history_page ::
  "principal option \<Rightarrow> u64 option \<Rightarrow> u64 \<Rightarrow> canister \<Rightarrow> event list \<times> u64" where
  "get_history_page prin older_than page_size s =
     (let high_seq = (case older_than of
            Some h \<Rightarrow> h
          | None \<Rightarrow> (case get_current_seq prin s of Some x \<Rightarrow> x + 1 | None \<Rightarrow> 0));
        low_seq = saturating_sub high_seq page_size;
        page = map snd (om_range (prin, low_seq) (prin, high_seq) (history s))
      in (page, low_seq))"

section \<open>Creating requests and agreements\<close>

definition persist_rental_request ::
  "platform \<Rightarrow> rental_request \<Rightarrow> u64 \<Rightarrow> canister \<Rightarrow> (string + unit) \<times> canister" where
  "persist_rental_request P r now s =
     (let user = rr_user r in
      if om_contains (rental_requests s) user
      then (Inl (''User '' @ show_principal P user @ '' already has an active RentalRequest''), s)
      else (Inr (), persist_event now (RentalRequestCreated r) (Some user)
              (s\<lparr>rental_requests := om_insert user r (rental_requests s)\<rparr>)))"

definition persist_rental_agreement ::
  "platform \<Rightarrow> rental_agreement \<Rightarrow> u64 \<Rightarrow> canister \<Rightarrow> (string + unit) \<times> canister" where
  "persist_rental_agreement P a now s =
     (let subnet_id = ra_subnet_id a in
      if om_contains (rental_agreements s) subnet_id
      then (Inl (''Subnet_id '' @ show_principal P subnet_id @ '' already has an active RentalAgreement''), s)
      else (Inr (), persist_event now
              (RentalAgreementCreated (ra_user a) (ra_rental_request_proposal_id a)
                 (ra_subnet_creation_proposal_id a) (ra_rental_condition_id a))
              (Some subnet_id)
              (s\<lparr>rental_agreements := om_insert subnet_id a (rental_agreements s)\<rparr>)))"

section \<open>What the operations leave alone\<close>

lemma persist_event_sel [simp]:
  "conditions (persist_event now ev key s) = conditions s"
  "locks (persist_event now ev key s) = locks s"
  "rental_requests (persist_event now ev key s) = rental_requests s"
  "rental_agreements (persist_event now ev key s) = rental_agreements s"
  "rates (persist_event now ev key s) = rates s"
  "burn_log (persist_event now ev key s) = burn_log s"
  by (simp_all add: persist_event_def next_seq_def Let_def)

lemma cache_rate_sel [simp]:
  "conditions (cache_rate t r d s) = conditions s" "locks (cache_rate t r d s) = locks s"
  "rental_requests (cache_rate t r d s) = rental_requests s"
  "rental_agreements (cache_rate t r d s) = rental_agreements s"
  "event_counters (cache_rate t r d s) = event_counters s"
  "history (cache_rate t r d s) = history s" "burn_log (cache_rate t r d s) = burn_log s"
  by (simp_all add: cache_rate_def)

lemma protects_persist_event [simp]: "protects l s0 (persist_event now ev key s) = protects l s0 s"
  by (simp add: protects_def)

lemma protects_cache_rate [simp]: "protects l s0 (cache_rate t r d s) = protects l s0 s"
  by (simp add: protects_def)

lemma protects_lock_id [simp]: "protects l s0 (lock_id l' s) = protects l s0 s"
  by (simp add: protects_def)

lemma protects_unlock_id [simp]: "protects l s0 (unlock_id l' s) = protects l s0 s"
  by (simp add: protects_def)

lemma protects_release_all [simp]: "protects l s0 (release_all h s) = protects l s0 s"
  by (simp add: protects_def)

end
