(* ===== verification/Src_History.thy ===== *)
theory Src_History
  imports Src_State
begin

text \<open>
  The history as a log per key. \<open>log_of\<close> is the abstract history of a key, oldest event
  first; \<open>history_ok\<close> says that the stored keys are exactly the sequence numbers drawn so
  far. \<open>persist_event\<close> refines appending to the log, \<open>get_history_page\<close> refines taking a
  slice of it, and following the continuation token back to 0 returns the whole log.
\<close>

definition event_count :: "principal option \<Rightarrow> canister \<Rightarrow> u64" where
  "event_count key s = (case om_get (event_counters s) key of None \<Rightarrow> 0 | Some c \<Rightarrow> c)"

definition history_ok :: "canister \<Rightarrow> bool" where
  "history_ok s \<longleftrightarrow> (\<forall>key i. om_get (history s) (key, i) \<noteq> None \<longleftrightarrow> i < event_count key s)"

definition log_of :: "principal option \<Rightarrow> canister \<Rightarrow> event list" where
  "log_of key s = map (\<lambda>i. the (om_get (history s) (key, of_nat i))) [0..<unat (event_count key s)]"

text \<open>Sequence numbers below \<open>2 ^ 64\<close> and their natural numbers.\<close>

lemma unat_of_nat_u64: "i < 2 ^ 64 \<Longrightarrow> unat (of_nat i :: u64) = i"
  by (simp add: unat_of_nat)

lemma u64_less_of_nat: "i < unat (c :: u64) \<Longrightarrow> unat (of_nat i :: u64) = i"
  using unat_less_len [of c] by (intro unat_of_nat_u64) simp

lemma length_log_of [simp]: "length (log_of key s) = unat (event_count key s)"
  by (simp add: log_of_def)

lemma take_upt_min: "take n [0..<m] = [0..<min n m]"
  by (simp add: min_def)

text \<open>A range over one key's sequence numbers is the corresponding stretch of the history.\<close>

lemma om_range_history:
  assumes "history_ok s"
  shows "om_range (key, lo) (key, hi) (history s) =
    map (\<lambda>i. ((key, of_nat i), the (om_get (history s) (key, of_nat i))))
      [unat lo..<min (unat hi) (unat (event_count key s))]" (is "?l = ?r")
proof (rule sorted_keys_map_of_eq)
  let ?c = "event_count key s"
  show "sorted_keys ?l" by (rule om_range_sorted)
  have small: "unat (of_nat i :: u64) = i" if "i < unat ?c" for i
    using that by (rule u64_less_of_nat)
  show sr: "sorted_keys ?r"
    unfolding sorted_wrt_map map_map comp_def fst_conv
    by (rule sorted_wrt_mono_rel [OF _ sorted_wrt_upt]) (simp add: word_less_nat_alt small)
  have mem: "((k, i), e) \<in> set ?l \<longleftrightarrow> ((k, i), e) \<in> set ?r" for k i e
  proof
    assume "((k, i), e) \<in> set ?l"
    then have "k = key" "lo \<le> i" "i < hi" and e: "om_get (history s) (key, i) = Some e"
      by (auto simp: om_range_mem)
    moreover have "i < ?c" using assms e by (auto simp: history_ok_def)
    ultimately show "((k, i), e) \<in> set ?r"
      by (auto simp: image_iff word_le_nat_alt word_less_nat_alt intro!: bexI [of _ "unat i"])
  next
    assume "((k, i), e) \<in> set ?r"
    then obtain j where j: "unat lo \<le> j" "j < unat hi" "j < unat ?c" and k: "k = key" "i = of_nat j"
      and e: "e = the (om_get (history s) (key, of_nat j))" by auto
    have "i < ?c" using j k by (simp add: word_less_nat_alt small)
    with assms have "om_get (history s) (key, i) \<noteq> None" by (simp add: history_ok_def)
    with j k e show "((k, i), e) \<in> set ?l"
      by (auto simp: om_range_mem word_le_nat_alt word_less_nat_alt small)
  qed
  then have "set ?l = set ?r" by auto
  then show "map_of ?l = map_of ?r"
    by (rule map_of_inject_set [OF sorted_keys_distinct [OF om_range_sorted] sorted_keys_distinct [OF sr], THEN iffD2])
qed

lemma get_history_page_slice:
  assumes "history_ok s"
  shows "get_history_page key older_than page_size s =
    (let high = (case older_than of None \<Rightarrow> event_count key s | Some h \<Rightarrow> h);
         low = saturating_sub high page_size
     in (drop (unat low) (take (unat high) (log_of key s)), low))"
proof -
  have high: "(case older_than of Some h \<Rightarrow> h
      | None \<Rightarrow> (case get_current_seq key s of Some x \<Rightarrow> x + 1 | None \<Rightarrow> 0)) =
      (case older_than of None \<Rightarrow> event_count key s | Some h \<Rightarrow> h)"
    by (auto simp: get_current_seq_def event_count_def checked_sub_def word_le_nat_alt
        unat_eq_0 Suc_le_eq unat_gt_0 split: option.splits)
  have slice: "map snd (om_range (key, lo) (key, hi) (history s)) = drop (unat lo) (take (unat hi) (log_of key s))"
    for lo hi
    by (simp add: om_range_history [OF assms] log_of_def take_map drop_map comp_def take_upt_min drop_upt)
  show ?thesis by (simp add: get_history_page_def high slice Let_def)
qed

text \<open>Appending.\<close>

lemma event_count_persist:
  "event_count key' (persist_event now ev key s) =
     (if key' = key then event_count key s + 1 else event_count key' s)"
  by (auto simp: event_count_def persist_event_def next_seq_def Let_def split: option.splits)

lemma history_persist:
  "history (persist_event now ev key s) =
     om_insert (key, event_count key s) (event_of_type now ev) (history s)"
  by (simp add: persist_event_def next_seq_def event_count_def Let_def)

lemma event_count_inc:
  "unat (event_count key s) < 2 ^ 64 - 1 \<Longrightarrow> unat (event_count key s + 1) = Suc (unat (event_count key s))"
  by (simp add: unat_add_exact)

lemma history_ok_persist:
  assumes ok: "history_ok s" and "unat (event_count key s) < 2 ^ 64 - 1"
  shows "history_ok (persist_event now ev key s)"
  unfolding history_ok_def
proof (intro allI)
  fix key' i
  note inc = event_count_inc [OF assms(2)]
  have old: "om_get (history s) (key', i) \<noteq> None \<longleftrightarrow> i < event_count key' s"
    using ok by (simp add: history_ok_def)
  have "i < event_count key s + 1 \<longleftrightarrow> i = event_count key s \<or> i < event_count key s"
    unfolding word_less_nat_alt inc by (auto simp: less_Suc_eq word_unat_eq_iff)
  then show "om_get (history (persist_event now ev key s)) (key', i) \<noteq> None \<longleftrightarrow>
      i < event_count key' (persist_event now ev key s)"
    using old by (auto simp: event_count_persist history_persist)
qed

lemma log_of_persist:
  assumes "history_ok s" and "unat (event_count key s) < 2 ^ 64 - 1"
  shows "log_of key' (persist_event now ev key s) =
    (if key' = key then log_of key s @ [event_of_type now ev] else log_of key' s)"
proof -
  have "of_nat i \<noteq> event_count key s" if "i < unat (event_count key s)" for i
    using u64_less_of_nat [OF that] that by auto
  then show ?thesis
    by (auto simp: log_of_def event_count_persist history_persist event_count_inc [OF assms(2)])
qed

text \<open>The number of events of a key is bounded by the size of the history.\<close>

lemma event_count_le_size:
  assumes "history_ok s"
  shows "unat (event_count key s) \<le> om_size (history s)"
proof -
  let ?c = "event_count key s"
  have "unat ?c = length (om_range (key, 0) (key, ?c) (history s))"
    by (simp add: om_range_history [OF assms])
  also have "\<dots> \<le> om_size (history s)"
    by (simp add: om_range_def om_size_def)
  finally show ?thesis .
qed

text \<open>
  \<open>next_seq\<close> adds with wrap-around, so the log property is guarded by the number of
  events ever stored; the guard makes it an invariant without a hypothesis on the run.
\<close>

definition history_inv :: "canister \<Rightarrow> bool" where
  "history_inv s \<longleftrightarrow> (om_size (history s) < 2 ^ 64 - 1 \<longrightarrow> history_ok s)"

lemma history_inv_persist:
  assumes "history_inv s"
  shows "history_inv (persist_event now ev key s)"
  unfolding history_inv_def
proof
  assume big: "om_size (history (persist_event now ev key s)) < 2 ^ 64 - 1"
  then have "om_size (history s) < 2 ^ 64 - 1"
    using om_size_insert_ge [of "history s" "(key, event_count key s)" "event_of_type now ev"]
    by (simp add: history_persist)
  with assms have ok: "history_ok s" by (simp add: history_inv_def)
  moreover have "unat (event_count key s) < 2 ^ 64 - 1"
    using event_count_le_size [OF ok, of key] \<open>om_size (history s) < 2 ^ 64 - 1\<close> by simp
  ultimately show "history_ok (persist_event now ev key s)" by (rule history_ok_persist)
qed

lemma history_inv_cong:
  "event_counters s' = event_counters s \<Longrightarrow> history s' = history s \<Longrightarrow> history_inv s' = history_inv s"
  by (simp add: history_inv_def history_ok_def event_count_def)

text \<open>Room for \<open>n\<close> more events of a key, and what ignores everything but the history.\<close>

definition has_room :: "principal option \<Rightarrow> nat \<Rightarrow> canister \<Rightarrow> bool" where
  "has_room key n s \<longleftrightarrow> history_ok s \<and> unat (event_count key s) + n < 2 ^ 64"

lemma has_room_mono: "has_room key n s \<Longrightarrow> m \<le> n \<Longrightarrow> has_room key m s"
  by (simp add: has_room_def)

lemma has_room_persist:
  "has_room key (Suc n) s \<Longrightarrow> has_room key n (persist_event now ev key s)"
  by (simp add: has_room_def history_ok_persist event_count_persist event_count_inc)

lemma log_of_persist_room:
  "has_room key (Suc 0) s \<Longrightarrow>
    log_of key (persist_event now ev key s) = log_of key s @ [event_of_type now ev]"
  by (simp add: has_room_def log_of_persist)

lemma log_of_persist_other:
  "key' \<noteq> key \<Longrightarrow> log_of key' (persist_event now ev key s) = log_of key' s"
  by (simp add: log_of_def event_count_persist history_persist)

lemma has_room_persist_other:
  "key' \<noteq> key \<Longrightarrow> has_room key (Suc 0) s \<Longrightarrow> has_room key' n s \<Longrightarrow>
    has_room key' n (persist_event now ev key s)"
  by (simp add: has_room_def history_ok_persist event_count_persist)

lemma history_frame:
  assumes "event_counters s' = event_counters s" and "history s' = history s"
  shows "log_of key s' = log_of key s" and "has_room key n s' = has_room key n s"
  using assms by (simp_all add: log_of_def has_room_def history_ok_def event_count_def)

lemma log_frame [simp]:
  "log_of key (lock_id l s) = log_of key s" "log_of key (unlock_id l s) = log_of key s"
  "log_of key (s\<lparr>burn_log := bl\<rparr>) = log_of key s" "log_of key (s\<lparr>rental_requests := rm\<rparr>) = log_of key s"
  "log_of key (s\<lparr>rental_agreements := am\<rparr>) = log_of key s" "log_of key (cache_rate t r d s) = log_of key s"
  "has_room key n (lock_id l s) = has_room key n s" "has_room key n (unlock_id l s) = has_room key n s"
  "has_room key n (s\<lparr>burn_log := bl\<rparr>) = has_room key n s"
  "has_room key n (s\<lparr>rental_requests := rm\<rparr>) = has_room key n s"
  "has_room key n (s\<lparr>rental_agreements := am\<rparr>) = has_room key n s"
  "has_room key n (cache_rate t r d s) = has_room key n s"
  "log_of key (s\<lparr>rates := cm\<rparr>) = log_of key s" "has_room key n (s\<lparr>rates := cm\<rparr>) = has_room key n s"
  by (rule history_frame; simp)+

lemmas log_simps = log_of_persist_room has_room_persist log_of_persist_other has_room_persist_other

section \<open>The paging contract\<close>

text \<open>
  A client walks a history by asking for the newest page and then, page by page, for what
  is older than the returned token; it stops at token 0. \<open>all_pages\<close> puts the pages it saw
  in order; \<open>fuel\<close> bounds the number of requests.
\<close>

fun all_pages :: "(u64 option \<Rightarrow> 'e list \<times> u64) \<Rightarrow> nat \<Rightarrow> u64 option \<Rightarrow> 'e list" where
  "all_pages page 0 older_than = []"
| "all_pages page (Suc fuel) older_than =
     (case page older_than of (events, continuation) \<Rightarrow>
        if continuation = 0 then events
        else all_pages page fuel (Some continuation) @ events)"

locale event_log =
  fixes good :: "'s \<Rightarrow> bool"
    and log :: "'k \<Rightarrow> 's \<Rightarrow> 'e list"
    and append :: "'k \<Rightarrow> 'e \<Rightarrow> 's \<Rightarrow> 's"
    and page :: "'k \<Rightarrow> u64 option \<Rightarrow> u64 \<Rightarrow> 's \<Rightarrow> 'e list \<times> u64"
  assumes log_append: "good s \<Longrightarrow> length (log k s) < 2 ^ 64 - 1 \<Longrightarrow>
      log k' (append k e s) = (if k' = k then log k s @ [e] else log k' s)"
    and good_append: "good s \<Longrightarrow> length (log k s) < 2 ^ 64 - 1 \<Longrightarrow> good (append k e s)"
    and page_newest: "good s \<Longrightarrow>
      fst (page k None n s) = drop (length (log k s) - unat n) (log k s) \<and>
      unat (snd (page k None n s)) = length (log k s) - unat n"
    and page_older: "good s \<Longrightarrow>
      fst (page k (Some h) n s) = drop (unat h - unat n) (take (unat h) (log k s)) \<and>
      unat (snd (page k (Some h) n s)) = unat h - unat n"
begin

lemma page_length: "good s \<Longrightarrow> length (fst (page k older n s)) \<le> unat n"
  by (cases older) (auto simp: page_newest page_older)

text \<open>A fresh event is the last one of the newest page.\<close>

lemma newest_page_after_append:
  "good s \<Longrightarrow> length (log k s) < 2 ^ 64 - 1 \<Longrightarrow> 0 < unat n \<Longrightarrow>
    last (fst (page k None n (append k e s))) = e"
  by (simp add: page_newest good_append log_append)

lemma all_pages_older:
  "good s \<Longrightarrow> 0 < unat n \<Longrightarrow> unat h < fuel \<Longrightarrow>
    all_pages (\<lambda>older. page k older n s) fuel (Some h) = take (unat h) (log k s)"
proof (induction fuel arbitrary: h)
  case (Suc fuel)
  let ?l = "snd (page k (Some h) n s)"
  note p = page_older [OF Suc.prems(1), of k h n]
  have eq: "take (unat ?l) (log k s) @ drop (unat ?l) (take (unat h) (log k s)) = take (unat h) (log k s)"
    using p by (metis append_take_drop_id diff_le_self min.absorb1 take_take)
  show ?case
  proof (cases "?l = 0")
    case True
    then have "unat h - unat n = 0" using p by (metis unat_0)
    with True p show ?thesis by (simp add: case_prod_beta)
  next
    case False
    then have "0 < unat ?l" by (simp add: unat_gt_0)
    then have "unat ?l < fuel" using Suc.prems p by linarith
    then have "all_pages (\<lambda>older. page k older n s) fuel (Some ?l) = take (unat ?l) (log k s)"
      by (rule Suc.IH [OF Suc.prems(1,2)])
    with False p eq show ?thesis by (simp add: case_prod_beta)
  qed
qed simp

lemma all_pages_newest:
  assumes "good s" "0 < unat n" "length (log k s) < fuel"
  shows "all_pages (\<lambda>older. page k older n s) fuel None = log k s"
proof -
  let ?l = "snd (page k None n s)"
  note p = page_newest [OF assms(1), of k n]
  obtain fuel' where fuel: "fuel = Suc fuel'" using assms(3) by (cases fuel) simp_all
  show ?thesis
  proof (cases "?l = 0")
    case True
    then have "length (log k s) - unat n = 0" using p by (metis unat_0)
    with True p fuel show ?thesis by (simp add: case_prod_beta)
  next
    case False
    then have "unat ?l < fuel'" using assms p fuel by (simp add: unat_gt_0 [symmetric])
    from all_pages_older [OF assms(1,2) this] False p fuel show ?thesis
      by (simp add: case_prod_beta)
  qed
qed

end

definition append_event :: "principal option \<Rightarrow> event \<Rightarrow> canister \<Rightarrow> canister" where
  "append_event key e = persist_event (ev_time_nanos e) (ev_event e) key"

lemma append_event_of_type [simp]: "append_event key (event_of_type now ev) = persist_event now ev key"
  by (rule ext) (simp add: append_event_def event_of_type_def)

interpretation src_log: event_log history_ok log_of append_event get_history_page
proof unfold_locales
  fix s key key' e and n h :: u64
  assume ok: "history_ok s"
  show "length (log_of key s) < 2 ^ 64 - 1 \<Longrightarrow>
      log_of key' (append_event key e s) = (if key' = key then log_of key s @ [e] else log_of key' s)"
    by (simp add: append_event_def log_of_persist [OF ok] event_of_type_def)
  show "length (log_of key s) < 2 ^ 64 - 1 \<Longrightarrow> history_ok (append_event key e s)"
    by (simp add: append_event_def history_ok_persist [OF ok])
  show "fst (get_history_page key None n s) = drop (length (log_of key s) - unat n) (log_of key s) \<and>
      unat (snd (get_history_page key None n s)) = length (log_of key s) - unat n"
    by (simp add: get_history_page_slice [OF ok] Let_def unat_ops)
  show "fst (get_history_page key (Some h) n s) = drop (unat h - unat n) (take (unat h) (log_of key s)) \<and>
      unat (snd (get_history_page key (Some h) n s)) = unat h - unat n"
    by (simp add: get_history_page_slice [OF ok] Let_def unat_ops)
qed

end
