(* ===== verification/Src_Pricing.thy ===== *)
theory Src_Pricing
  imports Src_Types
begin

text \<open>
  The arithmetic of the canister on machine words: the price of a subnet in ICP
  (\<^verbatim>\<open>canister.rs\<close>), the deadline arithmetic of top-ups and of the repricing migration
  (\<^verbatim>\<open>migration.rs\<close>), the estimate, the per-minute burn, midnights and remaining days. A
  result of type \<open>option\<close> is \<open>None\<close> where the Rust expression panics with a division by
  zero; plain \<open>*\<close> and \<open>+\<close> wrap around as they do in a release build.
\<close>

section \<open>Definitions\<close>

definition round_to_previous_midnight :: "u64 \<Rightarrow> u64" where
  "round_to_previous_midnight time_secs = time_secs - time_secs mod 86400"

definition calculate_days_remaining :: "u64 \<Rightarrow> u64 \<Rightarrow> u64" where
  "calculate_days_remaining paid_until_nanos now_nanos =
     (if paid_until_nanos \<le> now_nanos then 0
      else (paid_until_nanos - now_nanos) div (SECONDS_PER_DAY * BILLION))"

definition calculate_subnet_price ::
  "u128 \<Rightarrow> u64 \<Rightarrow> u64 \<Rightarrow> u32 \<Rightarrow> execute_proposal_error + tokens" where
  "calculate_subnet_price daily_cost_cycles initial_rental_period_days
       scaled_exchange_rate_xdr_per_icp decimals =
     (let needed_cycles = checked_mul daily_cost_cycles (ucast initial_rental_period_days);
          e8s = Option.bind (Option.bind (Option.bind needed_cycles
                  (\<lambda>x. checked_mul x (10 ^ unat decimals)))
                  (\<lambda>x. checked_div x (ucast scaled_exchange_rate_xdr_per_icp)))
                  (\<lambda>x. checked_div x 10000)
      in case e8s of
           None \<Rightarrow> Inl (PriceCalculationError
             \<lparr>pcd_daily_cost_cycles = daily_cost_cycles,
              pcd_initial_rental_period_days = initial_rental_period_days,
              pcd_scaled_exchange_rate_xdr_per_icp = scaled_exchange_rate_xdr_per_icp,
              pcd_decimals = decimals\<rparr>)
         | Some e \<Rightarrow> Inr (Tokens (ucast e)))"

text \<open>The deadline that \<open>cycles_remaining\<close> buy at a daily cost.\<close>

definition reprice :: "u128 \<Rightarrow> u128 \<Rightarrow> u64 \<Rightarrow> u64" where
  "reprice cycles_remaining daily_cost_cycles now_nanos =
     (let cost_cycles_per_second = daily_cost_cycles div ucast SECONDS_PER_DAY in
      if cost_cycles_per_second = 0 then -1
      else
        let seconds_covered = cycles_remaining div cost_cycles_per_second in
        case try_into (saturating_mul seconds_covered (ucast BILLION)) of
          None \<Rightarrow> -1
        | Some nanos \<Rightarrow> saturating_add now_nanos nanos)"

text \<open>
  What a top-up of \<open>actual_cycles\<close> adds to an agreement paid until \<open>paid_until\<close>: the new
  deadline and the reported number of days.
\<close>

definition top_up_credit :: "u128 \<Rightarrow> u128 \<Rightarrow> u64 \<Rightarrow> (u64 \<times> u64) option" where
  "top_up_credit daily_cost_cycles actual_cycles paid_until_nanos =
     (let cost_cycles_per_second = daily_cost_cycles div ucast SECONDS_PER_DAY in
      if cost_cycles_per_second = 0 then None
      else
        let seconds_charged = actual_cycles div cost_cycles_per_second;
            nanos_charged = saturating_mul seconds_charged (ucast BILLION);
            new_paid_until = saturating_add (ucast paid_until_nanos :: u128) nanos_charged;
            new_paid_until_nanos = (case try_into new_paid_until of Some val \<Rightarrow> val | None \<Rightarrow> -1);
            days_added = ucast (seconds_charged div ucast SECONDS_PER_DAY)
        in Some (new_paid_until_nanos, days_added))"

text \<open>The estimate for an amount that arrives at the canister; both divisors may be zero.\<close>

definition estimate_cycles :: "u64 \<Rightarrow> u64 \<Rightarrow> u32 \<Rightarrow> u128 option" where
  "estimate_cycles e8s_converted rate decimals =
     (let divisor = (10 ^ unat decimals :: u128) div 10000 in
      if divisor = 0 then None
      else Some (ucast e8s_converted * ucast rate div divisor))"

definition estimate_days :: "u128 \<Rightarrow> u128 \<Rightarrow> u64 option" where
  "estimate_days estimated_cycles daily =
     (if daily = 0 then None else Some (ucast ((estimated_cycles + daily div 2) div daily)))"

text \<open>The amount \<^verbatim>\<open>burn_cycles\<close> asks to burn while the agreement is paid for.\<close>

definition amount_to_burn :: "u128 \<Rightarrow> u64 \<Rightarrow> u64 \<Rightarrow> u128 option" where
  "amount_to_burn total_cycles_remaining paid_until_nanos now_nanos =
     (let time_remaining_nanos = paid_until_nanos - now_nanos;
          time_remaining_seconds = time_remaining_nanos div BILLION
      in if time_remaining_seconds = 0 then None
         else Some (min (total_cycles_remaining div ucast time_remaining_seconds
                           * ucast CYCLES_BURN_INTERVAL_SECONDS)
                        total_cycles_remaining))"

section \<open>Midnights and days\<close>

lemma unat_86400 [simp]: "unat (86400 :: u64) = 86400" by simp

lemma unat_midnight [unat_ops]: "unat (round_to_previous_midnight t) = 86400 * (unat t div 86400)"
proof -
  have "t mod 86400 \<le> t" by (simp add: word_le_nat_alt unat_mod)
  then show ?thesis
    by (simp add: round_to_previous_midnight_def unat_sub_exact unat_mod sub_mod_eq)
qed

text \<open>
  C39: the query time of the exchange rate is the last UTC midnight: a multiple of a day,
  not later than the given time and less than a day before it.
\<close>

theorem midnight_spec:
  "unat (round_to_previous_midnight t) mod 86400 = 0 \<and>
   unat (round_to_previous_midnight t) \<le> unat t \<and>
   unat t < unat (round_to_previous_midnight t) + 86400 \<and>
   round_to_previous_midnight (round_to_previous_midnight t) = round_to_previous_midnight t"
  using less_div_mult_add [of 86400 "unat t"]
  by (simp add: unat_midnight word_unat_eq_iff)

lemma unat_BILLION [simp]: "unat BILLION = 1000000000"
  by (simp add: BILLION_def)

lemma unat_SECONDS_PER_DAY [simp]: "unat SECONDS_PER_DAY = 86400"
  by (simp add: SECONDS_PER_DAY_def)

lemma day_nanos: "unat (SECONDS_PER_DAY * BILLION) = 86400 * 10 ^ 9"
  by (simp add: src_constants)

lemma days_remaining_unat [unat_ops]:
  "unat (calculate_days_remaining paid now) = (unat paid - unat now) div (86400 * 10 ^ 9)"
  by (simp add: calculate_days_remaining_def unat_div day_nanos unat_sub_exact word_le_nat_alt del: power.simps)

section \<open>Prices\<close>

lemma unat_pow10: "10 ^ unat d < (2::nat) ^ 128 \<Longrightarrow> unat (10 ^ unat d :: u128) = 10 ^ unat d"
proof -
  have "10 ^ n < (2::nat) ^ 128 \<Longrightarrow> unat (10 ^ n :: u128) = 10 ^ n" for n
  proof (induction n)
    case (Suc n)
    then have "10 ^ n < (2::nat) ^ 128" by simp
    with Suc show ?case by (simp add: unat_mult_exact)
  qed simp
  then show "10 ^ unat d < (2::nat) ^ 128 \<Longrightarrow> unat (10 ^ unat d :: u128) = 10 ^ unat d" .
qed

text \<open>The price as a rational number of e8s, rounded down once per division.\<close>

definition exact_price :: "u128 \<Rightarrow> u64 \<Rightarrow> u64 \<Rightarrow> u32 \<Rightarrow> nat" where
  "exact_price daily days rate decimals =
     unat daily * unat days * 10 ^ unat decimals div unat rate div 10000"

definition price_computable :: "u128 \<Rightarrow> u64 \<Rightarrow> u64 \<Rightarrow> u32 \<Rightarrow> bool" where
  "price_computable daily days rate decimals \<longleftrightarrow>
     rate \<noteq> 0 \<and> unat daily * unat days < 2 ^ 128 \<and>
     unat daily * unat days * 10 ^ unat decimals < 2 ^ 128"

lemma unat_of_nat_u64_eq: "n < 2 ^ 64 \<Longrightarrow> unat (of_nat n :: u64) = n"
  by (simp add: unat_of_nat)

lemma unat_ucast_u64_u128 [unat_ops]: "unat (ucast (x :: u64) :: u128) = unat x"
  by (rule unat_ucast_widen) simp

lemma calculate_subnet_price_eq:
  assumes "10 ^ unat decimals < (2::nat) ^ 128"
  shows "calculate_subnet_price daily days rate decimals =
    (if price_computable daily days rate decimals
     then Inr (Tokens (of_nat (exact_price daily days rate decimals)))
     else Inl (PriceCalculationError
       \<lparr>pcd_daily_cost_cycles = daily, pcd_initial_rental_period_days = days,
        pcd_scaled_exchange_rate_xdr_per_icp = rate, pcd_decimals = decimals\<rparr>))"
proof -
  note pow = unat_pow10 [OF assms]
  have rate0: "(ucast rate :: u128) = 0 \<longleftrightarrow> rate = 0"
    by (simp add: word_unat_eq_iff unat_ucast_u64_u128)
  have trunc: "(ucast x :: u64) = of_nat (unat x)" for x :: u128
    by simp
  show ?thesis
  proof (cases "unat daily * unat days < 2 ^ 128 \<and> unat daily * unat days * 10 ^ unat decimals < 2 ^ 128")
    case True
    let ?n = "daily * ucast days"
    have n: "unat ?n = unat daily * unat days"
      using True by (simp add: unat_mult_exact unat_ucast_u64_u128)
    then have p: "unat (?n * 10 ^ unat decimals) = unat daily * unat days * 10 ^ unat decimals"
      using True by (simp add: unat_mult_exact pow)
    have "unat (?n * 10 ^ unat decimals div ucast rate div 10000) = exact_price daily days rate decimals"
      by (simp add: unat_div p unat_ucast_u64_u128 exact_price_def)
    with True n rate0 show ?thesis
      by (simp add: calculate_subnet_price_def checked_mul_def checked_div_def unat_ucast_u64_u128
          pow price_computable_def trunc)
  next
    case False
    then show ?thesis
      by (auto simp: calculate_subnet_price_def checked_mul_def unat_ucast_u64_u128 unat_mult_exact
          pow price_computable_def Let_def)
  qed
qed

lemma price_computableD:
  "price_computable daily days rate decimals \<Longrightarrow> 0 < unat rate"
  by (simp add: price_computable_def unat_gt_0)

text \<open>
  C16: for every exchange rate whose scale \<open>10 ^ decimals\<close> fits 128 bits: if the price fits the
  64 bits of an amount, the result is the exact quotient in e8s, so that at the scaled rate
  the amount is worth at most the cycles needed and one e8s more is worth more than that;
  the result is an error exactly when the rate is zero or the 128-bit product overflows.
\<close>

theorem calculate_subnet_price_correct:
  assumes "10 ^ unat decimals < (2::nat) ^ 128" and "exact_price daily days rate decimals < 2 ^ 64"
  shows "(\<forall>t. calculate_subnet_price daily days rate decimals = Inr t \<longrightarrow>
      unat (e8s t) = exact_price daily days rate decimals \<and>
      unat (e8s t) * 10000 * unat rate \<le> unat daily * unat days * 10 ^ unat decimals \<and>
      unat daily * unat days * 10 ^ unat decimals < (unat (e8s t) + 1) * 10000 * unat rate) \<and>
    ((\<exists>e. calculate_subnet_price daily days rate decimals = Inl e) \<longleftrightarrow>
      \<not> price_computable daily days rate decimals)"
proof -
  let ?N = "unat daily * unat days * 10 ^ unat decimals" and ?p = "exact_price daily days rate decimals"
  have p: "?p = ?N div (unat rate * 10000)"
    by (simp add: exact_price_def div_mult2_eq)
  have "?p * (unat rate * 10000) \<le> ?N"
    unfolding p by (rule div_times_less_eq_dividend)
  moreover have "?N < (?p + 1) * (unat rate * 10000)" if "0 < unat rate"
    unfolding p using less_div_mult_add [of "unat rate * 10000" ?N] that by (simp add: mult.commute)
  ultimately show ?thesis
    using assms(2) by (auto simp: calculate_subnet_price_eq [OF assms(1)] unat_of_nat_u64_eq
        dest: price_computableD simp: mult.commute mult.left_commute)
qed

theorem calculate_subnet_price_correct_witness:
  "10 ^ unat (9 :: u32) < (2::nat) ^ 128 \<and>
   exact_price (820 * TRILLION) 180 3497900000 9 < 2 ^ 64 \<and>
   calculate_subnet_price (820 * TRILLION) 180 3497900000 9 = Inr (Tokens 4219674661940)"
proof -
  have h: "10 ^ unat (9 :: u32) < (2::nat) ^ 128" by simp
  have p: "exact_price (820 * TRILLION) 180 3497900000 9 = 4219674661940"
    by (simp add: exact_price_def TRILLION_def)
  show ?thesis
    using calculate_subnet_price_correct [OF h, of "820 * TRILLION" 180 3497900000] p
    by (simp add: calculate_subnet_price_eq [OF h] price_computable_def TRILLION_def)
qed

text \<open>
  C28: a computable price is reported modulo \<open>2 ^ 64\<close>: it silently loses its high bits, and is
  then too low, exactly when it needs more than 64 bits. At nine decimals, the scale the exchange
  rate canister uses, that happens to the initial period of App13CH exactly for the scaled rates
  from 1 to 800, and to that of App7CH exactly for those from 1 to 429.
\<close>

theorem calculate_subnet_price_truncates:
  assumes "10 ^ unat decimals < (2::nat) ^ 128" and "price_computable daily days rate decimals"
  shows "(\<exists>t. calculate_subnet_price daily days rate decimals = Inr t \<and>
      unat (e8s t) = exact_price daily days rate decimals mod 2 ^ 64 \<and>
      (unat (e8s t) < exact_price daily days rate decimals \<longleftrightarrow> 2 ^ 64 \<le> exact_price daily days rate decimals)) \<and>
    (daily = 820 * TRILLION \<and> days = 180 \<and> decimals = 9 \<longrightarrow>
      (2 ^ 64 \<le> exact_price daily days rate decimals \<longleftrightarrow> unat rate \<le> 800)) \<and>
    (daily = 440 * TRILLION \<and> days = 180 \<and> decimals = 9 \<longrightarrow>
      (2 ^ 64 \<le> exact_price daily days rate decimals \<longleftrightarrow> unat rate \<le> 429))"
proof -
  let ?p = "exact_price daily days rate decimals"
  have rate: "0 < unat rate" using assms(2) by (rule price_computableD)
  have big: "2 ^ 64 \<le> ?p \<longleftrightarrow> 2 ^ 64 * (unat rate * 10000) \<le> unat daily * unat days * 10 ^ unat decimals"
    using rate by (simp add: exact_price_def div_mult2_eq [symmetric] less_eq_div_iff_mult_less_eq)
  have "?p mod 2 ^ 64 < ?p \<longleftrightarrow> 2 ^ 64 \<le> ?p"
  proof (cases "?p < 2 ^ 64")
    case False
    have "?p mod 2 ^ 64 < 2 ^ 64" by simp
    also have "\<dots> \<le> ?p" using False by (simp only: not_less)
    finally show ?thesis using False by (simp only: not_less)
  qed simp
  moreover have "unat (of_nat ?p :: u64) = ?p mod 2 ^ 64" by (simp add: unat_of_nat)
  moreover have "2 ^ 64 \<le> ?p \<longleftrightarrow> unat rate \<le> 800" if "daily = 820 * TRILLION \<and> days = 180 \<and> decimals = 9"
    unfolding big using that by (simp add: TRILLION_def) arith
  moreover have "2 ^ 64 \<le> ?p \<longleftrightarrow> unat rate \<le> 429" if "daily = 440 * TRILLION \<and> days = 180 \<and> decimals = 9"
    unfolding big using that by (simp add: TRILLION_def) arith
  ultimately show ?thesis
    using assms(2) by (simp add: calculate_subnet_price_eq [OF assms(1)])
qed

theorem calculate_subnet_price_truncates_witness:
  "exact_price (820 * TRILLION) 180 1 9 = 14760000000000000000000 \<and>
   (\<exists>t. calculate_subnet_price (820 * TRILLION) 180 1 9 = Inr t \<and> unat (e8s t) = 2604741032358707200)"
proof -
  have h: "10 ^ unat (9 :: u32) < (2::nat) ^ 128" by simp
  have c: "price_computable (820 * TRILLION) 180 1 9" by (simp add: price_computable_def TRILLION_def)
  have "exact_price (820 * TRILLION) 180 1 9 = 14760000000000000000000" by (simp add: exact_price_def TRILLION_def)
  with calculate_subnet_price_truncates [OF h c] show ?thesis by auto
qed

section \<open>Deadlines\<close>

lemma unat_ucast_SECONDS_PER_DAY [unat_ops]: "unat (ucast SECONDS_PER_DAY :: u128) = 86400"
  by (simp add: SECONDS_PER_DAY_def)

lemma unat_ucast_BILLION [unat_ops]: "unat (ucast BILLION :: u128) = 10 ^ 9"
  by (simp add: BILLION_def)

lemma unat_MAX_u64 [unat_ops]: "unat (- 1 :: u64) = 2 ^ 64 - 1"
  by (simp add: unat_max_word)

lemma cost_per_second_zero:
  "(daily :: u128) div ucast SECONDS_PER_DAY = 0 \<longleftrightarrow> unat daily < 86400"
  by (simp add: word_unat_eq_iff unat_div unat_ucast_SECONDS_PER_DAY div_eq_0_iff)

text \<open>Seconds that an amount of cycles pays for at a daily cost.\<close>

definition seconds_paid :: "u128 \<Rightarrow> u128 \<Rightarrow> nat" where
  "seconds_paid cycles daily = unat cycles div (unat daily div 86400)"

lemma seconds_paid_eq: "unat (cycles div (daily div ucast SECONDS_PER_DAY)) = seconds_paid cycles daily"
  by (simp add: seconds_paid_def unat_div unat_ucast_SECONDS_PER_DAY)

lemma seconds_paid_generous:
  assumes "86400 \<le> unat daily"
  shows "unat cycles * 86400 div unat daily \<le> seconds_paid cycles daily"
proof -
  have "unat daily div 86400 * 86400 \<le> unat daily" by (rule div_times_less_eq_dividend)
  moreover have "0 < unat daily div 86400" using assms by (simp add: div_greater_zero_iff)
  ultimately have "unat cycles * 86400 div unat daily \<le> unat cycles * 86400 div (unat daily div 86400 * 86400)"
    by (intro div_le_mono2) simp_all
  then show ?thesis by (simp add: seconds_paid_def)
qed

lemma reprice_unat:
  "unat (reprice cycles daily now) =
    (if unat daily < 86400 then 2 ^ 64 - 1
     else min (unat now + seconds_paid cycles daily * 10 ^ 9) (2 ^ 64 - 1))"
proof (cases "unat daily < 86400")
  case False
  let ?s = "cycles div (daily div ucast SECONDS_PER_DAY)"
  let ?m = "saturating_mul ?s (ucast BILLION) :: u128"
  have m: "unat ?m = min (seconds_paid cycles daily * 10 ^ 9) (2 ^ 128 - 1)"
    by (simp add: unat_saturating_mul seconds_paid_eq unat_ucast_BILLION)
  show ?thesis
  proof (cases "try_into ?m :: u64 option")
    case None
    then have "2 ^ 64 \<le> seconds_paid cycles daily * 10 ^ 9"
      using m by (auto simp: try_into_None_iff)
    with None False show ?thesis
      by (simp add: reprice_def Let_def cost_per_second_zero unat_MAX_u64)
  next
    case (Some nanos)
    then have "unat nanos = unat ?m" and "unat nanos < 2 ^ 64"
      using unat_less_len [of nanos] by (auto dest: try_into_Some)
    with m have "unat nanos = seconds_paid cycles daily * 10 ^ 9" by (simp add: min_def split: if_splits)
    with Some False show ?thesis
      by (simp add: reprice_def Let_def cost_per_second_zero unat_ops)
  qed
qed (simp add: reprice_def Let_def cost_per_second_zero unat_MAX_u64)

lemma seconds_paid_mono:
  "unat c \<le> unat c' \<Longrightarrow> unat d' \<le> unat d \<Longrightarrow> 86400 \<le> unat d' \<Longrightarrow> seconds_paid c d \<le> seconds_paid c' d'"
proof -
  assume "unat c \<le> unat c'" "unat d' \<le> unat d" "86400 \<le> unat d'"
  then have "unat c div (unat d div 86400) \<le> unat c' div (unat d div 86400)"
    and "unat c' div (unat d div 86400) \<le> unat c' div (unat d' div 86400)"
    by (auto intro!: div_le_mono div_le_mono2 simp: div_greater_zero_iff)
  then show ?thesis by (simp add: seconds_paid_def)
qed

text \<open>
  C33: the repriced deadline is \<open>now\<close> plus the seconds paid for, capped at the largest
  64-bit time; the seconds charged never cost more than the cycles at hand, and a daily
  cost buys at least its full days.
\<close>

theorem reprice_correct:
  assumes "86400 \<le> unat daily"
  shows "unat (reprice cycles daily now) = min (unat now + seconds_paid cycles daily * 10 ^ 9) (2 ^ 64 - 1) \<and>
    seconds_paid cycles daily * (unat daily div 86400) \<le> unat cycles \<and>
    unat cycles * 86400 div unat daily \<le> seconds_paid cycles daily"
proof -
  have "seconds_paid cycles daily * (unat daily div 86400) \<le> unat cycles"
    unfolding seconds_paid_def by (rule div_times_less_eq_dividend)
  with assms seconds_paid_generous [OF assms, of cycles] show ?thesis
    by (simp add: reprice_unat)
qed

theorem reprice_correct_witness:
  "86400 \<le> unat (440 * TRILLION) \<and> unat (reprice (10 * (440 * TRILLION)) (440 * TRILLION) 0) = 864000 * 10 ^ 9"
proof -
  have h: "86400 \<le> unat (440 * TRILLION)" by (simp add: TRILLION_def)
  have "seconds_paid (10 * (440 * TRILLION)) (440 * TRILLION) = 864000"
    by (simp add: seconds_paid_def TRILLION_def)
  then show ?thesis using h reprice_correct [OF h, of "10 * (440 * TRILLION)" 0] by simp
qed

text \<open>
  C34: repricing is monotone: more cycles or a cheaper condition never shorten the deadline.
\<close>

theorem reprice_mono:
  assumes "cycles \<le> cycles'" and "daily' \<le> daily"
  shows "reprice cycles daily now \<le> reprice cycles' daily' now"
proof (cases "unat daily' < 86400")
  case True
  then show ?thesis using unat_less_len [of "reprice cycles daily now"]
    by (simp add: word_le_nat_alt reprice_unat)
next
  case False
  then have "seconds_paid cycles daily \<le> seconds_paid cycles' daily'"
    using assms by (intro seconds_paid_mono) (simp_all add: word_le_nat_alt)
  with False assms show ?thesis
    by (simp add: word_le_nat_alt reprice_unat)
qed

theorem reprice_mono_witness:
  "(1000 :: u128) \<le> 2000 \<and> (100000 :: u128) \<le> 200000 \<and> reprice 1000 200000 0 \<le> reprice 2000 100000 0"
proof -
  have a: "(1000 :: u128) \<le> 2000" and b: "(100000 :: u128) \<le> 200000" by simp_all
  show ?thesis using a b reprice_mono [OF a b] by blast
qed

text \<open>The top-up arithmetic and the migration arithmetic agree.\<close>

lemma top_up_credit_reprice:
  "top_up_credit daily cycles paid_until =
    (if unat daily < 86400 then None
     else Some (reprice cycles daily paid_until, of_nat (seconds_paid cycles daily div 86400)))"
proof (cases "unat daily < 86400")
  case False
  let ?s = "cycles div (daily div ucast SECONDS_PER_DAY)"
  let ?m = "saturating_mul ?s (ucast BILLION) :: u128"
  let ?p = "saturating_add (ucast paid_until) ?m :: u128"
  have p: "unat ?p = min (unat paid_until + min (seconds_paid cycles daily * 10 ^ 9) (2 ^ 128 - 1)) (2 ^ 128 - 1)"
    by (simp add: unat_saturating_add unat_saturating_mul seconds_paid_eq unat_ucast_BILLION unat_ucast_u64_u128)
  have lim: "(2::nat) ^ 64 < 2 ^ 128 - 1" by simp
  have deadline: "(case try_into ?p of Some val \<Rightarrow> val | None \<Rightarrow> -1) = reprice cycles daily paid_until"
  proof (cases "try_into ?p :: u64 option")
    case None
    then have "2 ^ 64 \<le> unat paid_until + seconds_paid cycles daily * 10 ^ 9"
      using p lim by (simp add: try_into_None_iff min_def split: if_splits)
    with None False show ?thesis
      by (simp add: word_unat_eq_iff reprice_unat unat_MAX_u64)
  next
    case (Some val)
    then have "unat val = unat ?p" and "unat val < 2 ^ 64"
      using unat_less_len [of val] by (auto dest: try_into_Some)
    with p have "unat val = unat paid_until + seconds_paid cycles daily * 10 ^ 9"
      using lim by (simp add: min_def split: if_splits)
    with Some False \<open>unat val < 2 ^ 64\<close> show ?thesis
      by (simp add: word_unat_eq_iff reprice_unat)
  qed
  have days: "(ucast (?s div ucast SECONDS_PER_DAY) :: u64) = of_nat (seconds_paid cycles daily div 86400)"
  proof -
    have "(ucast w :: u64) = of_nat (unat w)" for w :: u128 by simp
    moreover have "unat (?s div ucast SECONDS_PER_DAY) = seconds_paid cycles daily div 86400"
      by (simp only: unat_div [of ?s] seconds_paid_eq unat_ucast_SECONDS_PER_DAY)
    ultimately show ?thesis by (simp only:)
  qed
  show ?thesis using False
    by (simp add: top_up_credit_def Let_def cost_per_second_zero deadline days)
qed (simp add: top_up_credit_def Let_def cost_per_second_zero)

text \<open>
  C32: a top-up of some cycles moves the deadline by the seconds they pay for, capped at
  the largest 64-bit time, never back, and reports the full days among them; it moves it
  exactly as the migration's repricing from the old deadline would. The division panics
  exactly for a daily cost below one cycle per second.
\<close>

theorem top_up_credit_correct:
  "(top_up_credit daily cycles paid_until = None \<longleftrightarrow> unat daily < 86400) \<and>
   (\<forall>new days. top_up_credit daily cycles paid_until = Some (new, days) \<longrightarrow>
      unat new = min (unat paid_until + seconds_paid cycles daily * 10 ^ 9) (2 ^ 64 - 1) \<and>
      paid_until \<le> new \<and> new = reprice cycles daily paid_until \<and>
      days = of_nat (seconds_paid cycles daily div 86400))"
proof -
  have "unat paid_until \<le> 2 ^ 64 - 1" using unat_le_max [of paid_until] by simp
  then show ?thesis
    by (auto simp: top_up_credit_reprice reprice_unat word_le_nat_alt)
qed

theorem top_up_credit_correct_witness:
  "top_up_credit (440 * TRILLION) (10 * (440 * TRILLION)) 5 = Some (864000 * 10 ^ 9 + 5, 10)"
proof -
  have d: "\<not> unat (440 * TRILLION) < 86400" by (simp add: TRILLION_def)
  have s: "seconds_paid (10 * (440 * TRILLION)) (440 * TRILLION) = 864000"
    by (simp add: seconds_paid_def TRILLION_def)
  obtain new days where c: "top_up_credit (440 * TRILLION) (10 * (440 * TRILLION)) 5 = Some (new, days)"
    using top_up_credit_correct [of "440 * TRILLION" "10 * (440 * TRILLION)" 5] d by force
  then have "unat new = min (unat (5 :: u64) + seconds_paid (10 * (440 * TRILLION)) (440 * TRILLION) * 10 ^ 9) (2 ^ 64 - 1)"
    and "days = of_nat (seconds_paid (10 * (440 * TRILLION)) (440 * TRILLION) div 86400)"
    using top_up_credit_correct [of "440 * TRILLION" "10 * (440 * TRILLION)" 5] by blast+
  then have "new = 864000 * 10 ^ 9 + 5" "days = 10"
    unfolding s by (simp_all add: word_unat_eq_iff)
  with c show ?thesis by blast
qed

section \<open>Estimates\<close>

lemma pow10_split: "4 \<le> n \<Longrightarrow> (10::nat) ^ n = 10 ^ (n - 4) * 10000"
proof -
  assume "4 \<le> n"
  then have "(10::nat) ^ n = 10 ^ (n - 4 + 4)" by simp
  then show ?thesis unfolding power_add by simp
qed

lemma exact_price_scaled:
  assumes "4 \<le> unat decimals"
  shows "exact_price daily days rate decimals =
    unat daily * unat days * 10 ^ (unat decimals - 4) div unat rate"
proof -
  let ?D = "10 ^ (unat decimals - 4) :: nat" and ?N = "unat daily * unat days"
  have "exact_price daily days rate decimals = ?N * ?D * 10000 div (unat rate * 10000)"
    by (simp add: exact_price_def div_mult2_eq mult.assoc pow10_split [OF assms])
  then show ?thesis by simp
qed

lemma unat_divisor:
  assumes "4 \<le> unat d" and "10 ^ unat d < (2::nat) ^ 128"
  shows "unat ((10 ^ unat d :: u128) div 10000) = 10 ^ (unat d - 4)"
  by (simp add: unat_div unat_pow10 [OF assms(2)] pow10_split [OF assms(1)])

lemma estimate_cycles_unat:
  assumes "4 \<le> unat d" and "10 ^ unat d < (2::nat) ^ 128"
  shows "\<exists>c. estimate_cycles e rate d = Some c \<and> unat c = unat e * unat rate div 10 ^ (unat d - 4)"
proof -
  note D = unat_divisor [OF assms]
  have "unat e * unat rate < 2 ^ 64 * 2 ^ 64"
    by (rule mult_strict_mono') (use unat_less_len [of e] unat_less_len [of rate] in simp_all)
  then have "unat (ucast e * ucast rate :: u128) = unat e * unat rate"
    by (simp add: unat_mult_exact unat_ucast_u64_u128)
  moreover have "(10 ^ unat d :: u128) div 10000 \<noteq> 0"
    using D by (metis power_not_zero unat_0 zero_neq_numeral)
  moreover have "unat (x div (10 ^ unat d div 10000)) = unat x div 10 ^ (unat d - 4)" for x :: u128
    by (subst unat_div) (simp only: D)
  ultimately show ?thesis
    by (simp add: estimate_cycles_def Let_def)
qed

lemma estimate_cycles_panics: "unat d < 4 \<Longrightarrow> estimate_cycles e rate d = None"
proof -
  assume "unat d < 4"
  then consider "unat d = 0" | "unat d = 1" | "unat d = 2" | "unat d = 3" by linarith
  then show ?thesis by cases (simp_all add: estimate_cycles_def)
qed

lemma price_round_trip_nat:
  fixes N D rate f daily days :: nat
  assumes pos: "0 < rate" "0 < D" "0 < daily" and N: "N = daily * days"
    and small: "(2 * f + 1) * rate \<le> daily div 2 * D"
  shows "((N * D div rate - 2 * f) * rate div D + daily div 2) div daily = days"
proof -
  let ?p = "N * D div rate" and ?h = "daily div 2"
  let ?c = "(?p - 2 * f) * rate div D"
  have "N * D < rate * ?p + rate" by (rule less_div_mult_add [OF pos(1)])
  moreover have "?p * rate \<le> (?p - 2 * f) * rate + 2 * f * rate"
    by (metis add_mult_distrib diff_add_inverse2 le_add_diff le_add2 le_diff_conv mult_le_mono1 nat_le_linear)
  ultimately have "N * D < (?p - 2 * f) * rate + ?h * D"
    using small by (simp add: algebra_simps)
  moreover have "(?p - 2 * f) * rate < ?c * D + D"
    using less_div_mult_add [OF pos(2)] by (simp add: mult.commute)
  ultimately have "N * D < (?c + ?h + 1) * D" by (simp add: algebra_simps)
  then have "N < ?c + ?h + 1" using mult_less_cancel2 [of N D "?c + ?h + 1"] by blast
  then have low: "N \<le> ?c + ?h" by simp
  have "(?p - 2 * f) * rate \<le> ?p * rate" by simp
  also have "\<dots> \<le> N * D" by (rule div_times_less_eq_dividend)
  finally have "?c \<le> N * D div D" by (rule div_le_mono)
  then have "?c \<le> N" using pos(2) by simp
  moreover have "?h < daily" using pos(3) by simp
  ultimately have "?c + ?h < daily * days + daily" using N by linarith
  with low N show ?thesis by (intro div_nat_eqI) simp_all
qed

section \<open>Burning\<close>

lemma amount_to_burn_None_iff:
  "now \<le> paid \<Longrightarrow> amount_to_burn rem paid now = None \<longleftrightarrow> unat paid < unat now + 10 ^ 9"
  by (simp add: amount_to_burn_def Let_def word_unat_eq_iff unat_div unat_sub_exact div_eq_0_iff BILLION_def
      word_le_nat_alt) linarith

lemma amount_to_burn_le: "amount_to_burn rem paid now = Some a \<Longrightarrow> a \<le> rem"
  by (auto simp: amount_to_burn_def Let_def split: if_splits)

lemma amount_to_burn_unat:
  assumes "amount_to_burn rem paid now = Some a" and "now \<le> paid"
    and "unat rem div ((unat paid - unat now) div 10 ^ 9) * 60 < 2 ^ 128"
  shows "unat a = min (unat rem div ((unat paid - unat now) div 10 ^ 9) * 60) (unat rem)"
proof -
  let ?t = "(unat paid - unat now) div 10 ^ 9"
  let ?w = "(paid - now) div BILLION"
  have t: "unat ?w = ?t" using assms(2) by (simp add: unat_div unat_sub_exact BILLION_def)
  have q: "unat (rem div ucast ?w) = unat rem div ?t"
    by (simp only: unat_div [of rem] unat_ucast_u64_u128 t)
  have "unat (rem div ucast ?w * ucast CYCLES_BURN_INTERVAL_SECONDS) = unat rem div ?t * 60"
    using assms(3) by (simp add: unat_mult_exact q CYCLES_BURN_INTERVAL_SECONDS_def)
  moreover have "unat (min x y) = min (unat x) (unat y)" for x y :: u128
    by (simp add: min_def word_le_nat_alt)
  moreover have "a = min (rem div ucast ?w * ucast CYCLES_BURN_INTERVAL_SECONDS) rem"
    using assms(1) by (simp add: amount_to_burn_def Let_def split: if_splits)
  ultimately show ?thesis by metis
qed

text \<open>
  C35: a tick never burns more than is left, whatever the numbers are. If sixty per-second
  shares fit 128 bits, it burns exactly sixty shares of the cycles left or all of them, whichever
  is less: with more than a minute of paid time left that is sixty shares, and the cycles that stay
  pay the rest of the time at the same share per second or more; with a minute or less, fewer cycles
  stay than there are seconds.
\<close>

theorem burn_pace:
  assumes "amount_to_burn rem paid now = Some a" and "now \<le> paid"
  shows "unat a \<le> unat rem \<and>
    (let secs = (unat paid - unat now) div 10 ^ 9; share = unat rem div secs in
     share * 60 < 2 ^ 128 \<longrightarrow>
       unat a = min (share * 60) (unat rem) \<and>
       (60 < secs \<longrightarrow> unat a = share * 60 \<and> share \<le> (unat rem - unat a) div (secs - 60)) \<and>
       (secs \<le> 60 \<longrightarrow> unat rem - unat a < secs))"
proof -
  let ?t = "(unat paid - unat now) div 10 ^ 9"
  let ?q = "unat rem div ?t"
  have t: "0 < ?t" using assms amount_to_burn_None_iff [of now paid rem] by (cases "?t = 0") simp_all
  have qt: "?q * ?t \<le> unat rem" by (rule div_times_less_eq_dividend)
  have "a \<le> rem" by (rule amount_to_burn_le [OF assms(1)])
  moreover have "unat a = ?q * 60 \<and> ?q \<le> (unat rem - unat a) div (?t - 60)"
    if a: "unat a = min (?q * 60) (unat rem)" and "60 < ?t"
  proof -
    have "?q * 60 \<le> ?q * ?t" using that by (intro mult_le_mono2) simp
    then have "unat a = ?q * 60" using a qt by linarith
    moreover have "?q * (?t - 60) \<le> unat rem - ?q * 60"
      using qt by (simp add: diff_mult_distrib2 diff_le_mono)
    ultimately show ?thesis using that by (simp add: less_eq_div_iff_mult_less_eq)
  qed
  moreover have "unat rem - unat a < ?t" if a: "unat a = min (?q * 60) (unat rem)" and "?t \<le> 60"
  proof -
    have "unat rem < ?q * ?t + ?t" using less_div_mult_add [OF t, of "unat rem"] by (simp add: mult.commute)
    moreover have "?q * ?t \<le> ?q * 60" using that by (intro mult_le_mono2)
    ultimately show ?thesis using a t by linarith
  qed
  ultimately show ?thesis
    using amount_to_burn_unat [OF assms] by (auto simp: Let_def word_le_nat_alt)
qed

theorem burn_pace_witness:
  "amount_to_burn 1000000 (100 * BILLION) 0 = Some 600000 \<and>
   unat (600000 :: u128) = unat (1000000 :: u128) div 100 * 60"
proof -
  have a: "amount_to_burn 1000000 (100 * BILLION) 0 = Some 600000"
    by (simp add: amount_to_burn_def BILLION_def CYCLES_BURN_INTERVAL_SECONDS_def)
  show ?thesis
    using a burn_pace [OF a] by (simp add: BILLION_def Let_def)
qed

end
