(* ===== verification/Src_Lifecycle.thy ===== *)
theory Src_Lifecycle
  imports Src_History Src_Pricing
begin

text \<open>
  Installation and upgrade: the initial rental conditions, \<^verbatim>\<open>init\<close> and \<^verbatim>\<open>post_upgrade\<close> of
  \<^verbatim>\<open>canister.rs\<close>, and the one-shot migration of \<^verbatim>\<open>migration.rs\<close>. The timers that
  \<^verbatim>\<open>start_timers\<close> registers are the messages \<open>LockingTimer\<close> and \<open>BurnTimer\<close> of the service.
\<close>

definition initial_conditions :: "(rental_condition_id \<times> rental_conditions) list" where
  "initial_conditions =
     [(App13CH,
        \<lparr>rc_description = SWISS_NODES_DESCRIPTION, rc_subnet_id = None,
         rc_daily_cost_cycles = 820 * TRILLION,
         rc_initial_rental_period_days = INITIAL_RENTAL_PERIOD_DAYS\<rparr>),
      (App7CH,
        \<lparr>rc_description = SWISS_NODES_DESCRIPTION, rc_subnet_id = None,
         rc_daily_cost_cycles = 440 * TRILLION,
         rc_initial_rental_period_days = INITIAL_RENTAL_PERIOD_DAYS\<rparr>)]"

fun insert_conditions ::
  "u64 \<Rightarrow> (rental_condition_id \<times> rental_conditions) list \<Rightarrow> canister \<Rightarrow> canister" where
  "insert_conditions now [] s = s"
| "insert_conditions now ((k, v) # kvs) s =
     insert_conditions now kvs
       (persist_event now (RentalConditionsChanged k (Some v)) None (insert_rental_condition k v s))"

definition set_initial_conditions :: "u64 \<Rightarrow> canister \<Rightarrow> canister" where
  "set_initial_conditions now s = insert_conditions now initial_conditions s"

definition canister_init :: "u64 \<Rightarrow> canister" where
  "canister_init now = set_initial_conditions now empty_canister"

section \<open>The migration to App7CH\<close>

definition TARGET_SUBNET :: string where
  "TARGET_SUBNET = ''3zsyy-cnoqf-tvlun-ymf55-tkpca-ox7uw-kfxoh-7khwq-2gz43-wafem-lqe''"

definition app13ch_to_app7ch :: "platform \<Rightarrow> u64 \<Rightarrow> canister \<Rightarrow> canister" where
  "app13ch_to_app7ch P now_nanos s =
     (case principal_from_text P TARGET_SUBNET of
        None \<Rightarrow> s
      | Some subnet_id \<Rightarrow>
     (case get_rental_agreement subnet_id s of
        None \<Rightarrow> s
      | Some agreement \<Rightarrow>
        if ra_rental_condition_id agreement \<noteq> App13CH then s
        else
     (case get_rental_conditions App7CH s of
        None \<Rightarrow> s
      | Some new_conditions \<Rightarrow>
        let cycles_remaining =
              saturating_sub (ra_total_cycles_created agreement) (ra_total_cycles_burned agreement);
            old_paid_until_nanos = ra_paid_until_nanos agreement;
            new_paid_until_nanos =
              reprice cycles_remaining (rc_daily_cost_cycles new_conditions) now_nanos
        in case update_rental_agreement subnet_id
                  (\<lambda>agreement. agreement\<lparr>ra_rental_condition_id := App7CH,
                     ra_paid_until_nanos := new_paid_until_nanos\<rparr>) s of
             (Inl e, s') \<Rightarrow> s'
           | (Inr _, s') \<Rightarrow>
               persist_event now_nanos
                 (RentalConditionSwitched (ra_user agreement) App13CH App7CH cycles_remaining
                    old_paid_until_nanos new_paid_until_nanos)
                 (Some subnet_id) s')))"

text \<open>An upgrade keeps stable memory and loses the heap.\<close>

definition heap_lost :: "canister \<Rightarrow> canister" where
  "heap_lost s = s\<lparr>conditions := Map.empty, locks := {}\<rparr>"

definition post_upgrade :: "platform \<Rightarrow> u64 \<Rightarrow> canister \<Rightarrow> canister" where
  "post_upgrade P now s = app13ch_to_app7ch P now (set_initial_conditions now (heap_lost s))"

section \<open>Facts\<close>

lemma insert_rental_condition_sel [simp]:
  "locks (insert_rental_condition k v s) = locks s"
  "rental_requests (insert_rental_condition k v s) = rental_requests s"
  "rental_agreements (insert_rental_condition k v s) = rental_agreements s"
  "event_counters (insert_rental_condition k v s) = event_counters s"
  "history (insert_rental_condition k v s) = history s"
  "rates (insert_rental_condition k v s) = rates s"
  "burn_log (insert_rental_condition k v s) = burn_log s"
  "conditions (insert_rental_condition k v s) = (conditions s)(k \<mapsto> v)"
  by (simp_all add: insert_rental_condition_def)

lemma set_initial_conditions_sel [simp]:
  "locks (set_initial_conditions now s) = locks s"
  "rental_requests (set_initial_conditions now s) = rental_requests s"
  "rental_agreements (set_initial_conditions now s) = rental_agreements s"
  "rates (set_initial_conditions now s) = rates s"
  "burn_log (set_initial_conditions now s) = burn_log s"
  by (simp_all add: set_initial_conditions_def initial_conditions_def)

lemma rental_condition_id_all: "(\<forall>k. P k) \<longleftrightarrow> P App13CH \<and> P App7CH"
  by (metis rental_condition_id.exhaust)

lemma conditions_set_initial [simp]:
  "conditions (set_initial_conditions now s) = map_of initial_conditions"
  by (simp add: set_initial_conditions_def initial_conditions_def fun_eq_iff rental_condition_id_all)

lemma heap_lost_sel [simp]:
  "conditions (heap_lost s) = Map.empty" "locks (heap_lost s) = {}"
  "rental_requests (heap_lost s) = rental_requests s"
  "rental_agreements (heap_lost s) = rental_agreements s"
  "event_counters (heap_lost s) = event_counters s" "history (heap_lost s) = history s"
  "rates (heap_lost s) = rates s" "burn_log (heap_lost s) = burn_log s"
  by (simp_all add: heap_lost_def)

text \<open>The migration in one equation: when it applies, and what it then does.\<close>

definition migration_applies :: "platform \<Rightarrow> canister \<Rightarrow> principal \<Rightarrow> rental_agreement \<Rightarrow> rental_conditions \<Rightarrow> bool" where
  "migration_applies P s subnet a c \<longleftrightarrow> principal_from_text P TARGET_SUBNET = Some subnet \<and>
     om_get (rental_agreements s) subnet = Some a \<and> ra_rental_condition_id a = App13CH \<and>
     conditions s App7CH = Some c"

definition migrated :: "rental_conditions \<Rightarrow> u64 \<Rightarrow> rental_agreement \<Rightarrow> rental_agreement" where
  "migrated c now a = a\<lparr>ra_rental_condition_id := App7CH,
     ra_paid_until_nanos := reprice (saturating_sub (ra_total_cycles_created a) (ra_total_cycles_burned a))
       (rc_daily_cost_cycles c) now\<rparr>"

lemma app13ch_to_app7ch_applies:
  assumes "migration_applies P s subnet a c"
  shows "app13ch_to_app7ch P now s = persist_event now
    (RentalConditionSwitched (ra_user a) App13CH App7CH
       (saturating_sub (ra_total_cycles_created a) (ra_total_cycles_burned a))
       (ra_paid_until_nanos a) (ra_paid_until_nanos (migrated c now a)))
    (Some subnet)
    (s\<lparr>rental_agreements := om_insert subnet (migrated c now a) (rental_agreements s)\<rparr>)"
  using assms by (simp add: migration_applies_def app13ch_to_app7ch_def get_rental_agreement_def
      get_rental_conditions_def update_rental_agreement_def migrated_def Let_def)

lemma app13ch_to_app7ch_skips:
  assumes "\<nexists>subnet a c. migration_applies P s subnet a c"
  shows "app13ch_to_app7ch P now s = s"
proof -
  consider "principal_from_text P TARGET_SUBNET = None"
    | subnet where "principal_from_text P TARGET_SUBNET = Some subnet" "om_get (rental_agreements s) subnet = None"
    | subnet a where "principal_from_text P TARGET_SUBNET = Some subnet"
        "om_get (rental_agreements s) subnet = Some a" "ra_rental_condition_id a \<noteq> App13CH"
    | subnet a where "principal_from_text P TARGET_SUBNET = Some subnet"
        "om_get (rental_agreements s) subnet = Some a" "ra_rental_condition_id a = App13CH" "conditions s App7CH = None"
    using assms unfolding migration_applies_def by (metis not_None_eq)
  then show ?thesis
    by cases (simp_all add: app13ch_to_app7ch_def get_rental_agreement_def get_rental_conditions_def)
qed

lemma migration_cases:
  obtains subnet a c where "migration_applies P s subnet a c"
  | "\<nexists>subnet a c. migration_applies P s subnet a c"
  by blast

text \<open>What an upgrade may do to a stored agreement.\<close>

lemma post_upgrade_agreement:
  assumes "om_get (rental_agreements s) p = Some a"
  shows "\<exists>k paid. om_get (rental_agreements (post_upgrade P n s)) p =
      Some (a\<lparr>ra_rental_condition_id := k, ra_paid_until_nanos := paid\<rparr>) \<and>
    (k = ra_rental_condition_id a \<and> paid = ra_paid_until_nanos a \<or>
     principal_from_text P TARGET_SUBNET = Some p \<and> ra_rental_condition_id a = App13CH \<and> k = App7CH)"
proof (cases rule: migration_cases [of P "set_initial_conditions n (heap_lost s)"])
  case (1 subnet b c)
  have same: "a\<lparr>ra_rental_condition_id := ra_rental_condition_id a, ra_paid_until_nanos := ra_paid_until_nanos a\<rparr> = a"
    by simp
  show ?thesis
  proof (cases "p = subnet")
    case True
    have "om_get (rental_agreements (post_upgrade P n s)) p = Some (migrated c n a)"
      and "principal_from_text P TARGET_SUBNET = Some p" "ra_rental_condition_id a = App13CH"
      using 1 True assms by (auto simp: post_upgrade_def app13ch_to_app7ch_applies [OF 1] migration_applies_def)
    then show ?thesis unfolding migrated_def by blast
  next
    case False
    then have "om_get (rental_agreements (post_upgrade P n s)) p = Some a"
      using assms by (simp add: post_upgrade_def app13ch_to_app7ch_applies [OF 1])
    then show ?thesis using same by metis
  qed
next
  case 2
  then have "om_get (rental_agreements (post_upgrade P n s)) p = Some a"
    using assms by (simp add: post_upgrade_def app13ch_to_app7ch_skips)
  then show ?thesis
    by (intro exI [of _ "ra_rental_condition_id a"] exI [of _ "ra_paid_until_nanos a"]) simp
qed

text \<open>
  C19: the migration is idempotent: a second run, at any later time, changes nothing.
\<close>

theorem migration_idempotent:
  "app13ch_to_app7ch P now' (app13ch_to_app7ch P now s) = app13ch_to_app7ch P now s"
proof (cases rule: migration_cases [of P s])
  case (1 subnet a c)
  let ?s' = "app13ch_to_app7ch P now s"
  have "om_get (rental_agreements ?s') subnet = Some (migrated c now a)"
    by (simp add: app13ch_to_app7ch_applies [OF 1])
  moreover have "principal_from_text P TARGET_SUBNET = Some subnet"
    using 1 by (simp add: migration_applies_def)
  moreover have "ra_rental_condition_id (migrated c now a) = App7CH"
    by (simp add: migrated_def)
  ultimately have "\<nexists>subnet a c. migration_applies P ?s' subnet a c"
    by (auto simp: migration_applies_def)
  then show ?thesis by (rule app13ch_to_app7ch_skips)
qed (simp add: app13ch_to_app7ch_skips)

text \<open>
  C18: the migration changes two fields of one agreement, the condition and the deadline, and
  records the switch; everything else of that agreement, every other agreement, all requests,
  conditions, rates, burns, guards and all other logs stay as they are. The new deadline is now
  plus the seconds the unburned cycles pay for, capped at the largest \<open>u64\<close>, which is at least what
  they buy at the exact daily cost (of at least one cycle per second). Without an agreement to migrate nothing changes.
\<close>

theorem migration_effect:
  fixes P now s
  defines "s' \<equiv> app13ch_to_app7ch P now s"
  shows "((\<nexists>subnet a c. migration_applies P s subnet a c) \<longrightarrow> s' = s) \<and>
    (\<forall>subnet a c. migration_applies P s subnet a c \<and> 86400 \<le> unat (rc_daily_cost_cycles c) \<longrightarrow>
      (let left = unat (ra_total_cycles_created a) - unat (ra_total_cycles_burned a);
           daily = unat (rc_daily_cost_cycles c) in
       \<exists>paid. om_get (rental_agreements s') =
           (om_get (rental_agreements s))(subnet \<mapsto> a\<lparr>ra_rental_condition_id := App7CH, ra_paid_until_nanos := paid\<rparr>) \<and>
         unat paid = min (unat now + left div (daily div 86400) * 10 ^ 9) (2 ^ 64 - 1) \<and>
         min (unat now + left * 86400 div daily * 10 ^ 9) (2 ^ 64 - 1) \<le> unat paid \<and>
         (has_room (Some subnet) 1 s \<longrightarrow> log_of (Some subnet) s' = log_of (Some subnet) s @
           [event_of_type now (RentalConditionSwitched (ra_user a) App13CH App7CH
             (saturating_sub (ra_total_cycles_created a) (ra_total_cycles_burned a)) (ra_paid_until_nanos a) paid)]) \<and>
         (\<forall>k. k \<noteq> Some subnet \<longrightarrow> log_of k s' = log_of k s) \<and>
         rental_requests s' = rental_requests s \<and> conditions s' = conditions s \<and> rates s' = rates s \<and>
         burn_log s' = burn_log s \<and> locks s' = locks s))"
proof (intro conjI impI allI)
  show "s' = s" if "\<nexists>subnet a c. migration_applies P s subnet a c"
    unfolding s'_def using that by (rule app13ch_to_app7ch_skips)
next
  fix subnet a c
  assume asm: "migration_applies P s subnet a c \<and> 86400 \<le> unat (rc_daily_cost_cycles c)"
  let ?rem = "saturating_sub (ra_total_cycles_created a) (ra_total_cycles_burned a)" and ?d = "rc_daily_cost_cycles c"
  let ?left = "unat (ra_total_cycles_created a) - unat (ra_total_cycles_burned a)"
  let ?paid = "reprice ?rem ?d now"
  have left: "unat ?rem = ?left" by (simp add: unat_ops)
  have paid: "unat ?paid = min (unat now + ?left div (unat ?d div 86400) * 10 ^ 9) (2 ^ 64 - 1)"
    using asm by (simp add: reprice_unat seconds_paid_def left)
  have "?left * 86400 div unat ?d \<le> ?left div (unat ?d div 86400)"
    using seconds_paid_generous [of ?d ?rem] asm by (simp add: seconds_paid_def left)
  then have "?left * 86400 div unat ?d * 10 ^ 9 \<le> ?left div (unat ?d div 86400) * 10 ^ 9"
    by (rule mult_le_mono1)
  then have "min (unat now + ?left * 86400 div unat ?d * 10 ^ 9) (2 ^ 64 - 1) \<le> unat ?paid"
    unfolding paid by linarith
  with paid show "let left = ?left; daily = unat ?d in
       \<exists>paid. om_get (rental_agreements s') =
           (om_get (rental_agreements s))(subnet \<mapsto> a\<lparr>ra_rental_condition_id := App7CH, ra_paid_until_nanos := paid\<rparr>) \<and>
         unat paid = min (unat now + left div (daily div 86400) * 10 ^ 9) (2 ^ 64 - 1) \<and>
         min (unat now + left * 86400 div daily * 10 ^ 9) (2 ^ 64 - 1) \<le> unat paid \<and>
         (has_room (Some subnet) 1 s \<longrightarrow> log_of (Some subnet) s' = log_of (Some subnet) s @
           [event_of_type now (RentalConditionSwitched (ra_user a) App13CH App7CH ?rem (ra_paid_until_nanos a) paid)]) \<and>
         (\<forall>k. k \<noteq> Some subnet \<longrightarrow> log_of k s' = log_of k s) \<and>
         rental_requests s' = rental_requests s \<and> conditions s' = conditions s \<and> rates s' = rates s \<and>
         burn_log s' = burn_log s \<and> locks s' = locks s"
    unfolding Let_def s'_def app13ch_to_app7ch_applies [OF conjunct1 [OF asm]]
    by (intro exI [of _ ?paid]) (simp add: migrated_def log_simps)
qed

definition demo_subnet :: principal where
  "demo_subnet = the (principal_from_text demo_platform TARGET_SUBNET)"

definition demo_agreement :: rental_agreement where
  "demo_agreement =
     \<lparr>ra_user = Principal [9], ra_rental_request_proposal_id = 1, ra_subnet_creation_proposal_id = Some 2,
      ra_subnet_id = demo_subnet, ra_rental_condition_id = App13CH, ra_creation_time_nanos = 0,
      ra_paid_until_nanos = 100 * BILLION, ra_total_icp_paid = Tokens 1000,
      ra_total_cycles_created = 440 * TRILLION, ra_total_cycles_burned = 0\<rparr>"

definition demo_rented :: canister where
  "demo_rented = (set_initial_conditions 0 empty_canister)
     \<lparr>rental_agreements := om_insert demo_subnet demo_agreement om_empty\<rparr>"

lemma demo_migration_applies:
  "migration_applies demo_platform demo_rented demo_subnet demo_agreement
     (the (map_of initial_conditions App7CH))"
  by (simp add: migration_applies_def demo_rented_def demo_agreement_def demo_subnet_def
      demo_platform_def initial_conditions_def)

theorem migration_effect_witness:
  "migration_applies demo_platform demo_rented demo_subnet demo_agreement
     (the (map_of initial_conditions App7CH)) \<and>
   (\<exists>paid. om_get (rental_agreements (app13ch_to_app7ch demo_platform 0 demo_rented)) demo_subnet =
       Some (demo_agreement\<lparr>ra_rental_condition_id := App7CH, ra_paid_until_nanos := paid\<rparr>) \<and>
     86400 * 10 ^ 9 \<le> unat paid)"
proof -
  let ?c = "the (map_of initial_conditions App7CH)"
  have c: "rc_daily_cost_cycles ?c = 440 * TRILLION" by (simp add: initial_conditions_def)
  have h: "migration_applies demo_platform demo_rented demo_subnet demo_agreement ?c \<and>
      86400 \<le> unat (rc_daily_cost_cycles ?c)"
    using demo_migration_applies unfolding c by (simp add: TRILLION_def)
  from migration_effect [of demo_platform demo_rented 0, THEN conjunct2, THEN spec, THEN spec, THEN spec, THEN mp, OF h]
  obtain paid where
      "om_get (rental_agreements (app13ch_to_app7ch demo_platform 0 demo_rented)) =
       (om_get (rental_agreements demo_rented))(demo_subnet \<mapsto>
         demo_agreement\<lparr>ra_rental_condition_id := App7CH, ra_paid_until_nanos := paid\<rparr>)"
      and p: "min (unat (0 :: u64) + (unat (ra_total_cycles_created demo_agreement) - unat (ra_total_cycles_burned demo_agreement))
        * 86400 div unat (rc_daily_cost_cycles ?c) * 10 ^ 9) (2 ^ 64 - 1) \<le> unat paid"
    unfolding Let_def by (elim exE conjE)
  moreover have "86400 * 10 ^ 9 \<le> unat paid"
    using p unfolding c by (simp add: demo_agreement_def TRILLION_def)
  ultimately show ?thesis using h by (auto intro!: exI [of _ paid])
qed

end
