(* ===== verification/Src_Invariant.thy ===== *)
theory Src_Invariant
  imports Src_Lifecycle
begin

text \<open>
  What holds between messages. \<open>wf\<close> is the state invariant: the conditions are the initial
  ones, maps are keyed by the user or subnet their values name, locked ICP are whole tenths
  of the cost and never more than ten, no agreement has burned more cycles than were
  created for it, cached rates belong to midnights, and the history is a log per key.
  \<open>evolves\<close> is what every message guarantees about earlier and later states: agreements
  stay, keep their identity and only grow; recorded events stay. \<open>good\<close> puts these
  together with the protection of other messages' locks; each state operation gets a lemma
  in \<open>good_intros\<close>, and the handlers are verified with those.
\<close>

section \<open>The invariant\<close>

definition locked_ok :: "rental_request \<Rightarrow> bool" where
  "locked_ok r \<longleftrightarrow> (\<exists>k\<le>10. unat (e8s (rr_locked_amount_icp r)) = k * (unat (e8s (rr_initial_cost_icp r)) div 10))"

definition request_ok :: "principal \<Rightarrow> rental_request \<Rightarrow> bool" where
  "request_ok u r \<longleftrightarrow> rr_user r = u \<and> locked_ok r"

definition agreement_ok :: "principal \<Rightarrow> rental_agreement \<Rightarrow> bool" where
  "agreement_ok p a \<longleftrightarrow> ra_subnet_id a = p \<and> ra_total_cycles_burned a \<le> ra_total_cycles_created a"

definition wf :: "canister \<Rightarrow> bool" where
  "wf s \<longleftrightarrow> conditions s = map_of initial_conditions \<and>
     (\<forall>u r. om_get (rental_requests s) u = Some r \<longrightarrow> request_ok u r) \<and>
     (\<forall>p a. om_get (rental_agreements s) p = Some a \<longrightarrow> agreement_ok p a) \<and>
     (\<forall>t v. om_get (rates s) t = Some v \<longrightarrow> unat t mod 86400 = 0) \<and>
     history_inv s"

lemma locked_ok_le: "locked_ok r \<Longrightarrow> unat (e8s (rr_locked_amount_icp r)) \<le> unat (e8s (rr_initial_cost_icp r))"
proof -
  assume "locked_ok r"
  then obtain k where "k \<le> 10" and k: "unat (e8s (rr_locked_amount_icp r)) = k * (unat (e8s (rr_initial_cost_icp r)) div 10)"
    by (auto simp: locked_ok_def)
  then have "unat (e8s (rr_locked_amount_icp r)) \<le> 10 * (unat (e8s (rr_initial_cost_icp r)) div 10)" by simp
  then show ?thesis by linarith
qed

text \<open>In a well-formed state every condition exists, names no subnet, and costs something.\<close>

lemma wf_condition:
  assumes "wf s"
  obtains c where "get_rental_conditions k s = Some c" "rc_subnet_id c = None"
    "86400 \<le> unat (rc_daily_cost_cycles c)" "rc_daily_cost_cycles c \<noteq> 0"
proof -
  have "\<exists>c. get_rental_conditions k s = Some c \<and> rc_subnet_id c = None \<and>
    86400 \<le> unat (rc_daily_cost_cycles c) \<and> rc_daily_cost_cycles c \<noteq> 0"
    using assms by (cases k) (simp_all add: wf_def get_rental_conditions_def initial_conditions_def TRILLION_def)
  then show ?thesis using that by blast
qed

section \<open>What never goes back\<close>

definition agreement_evolves :: "rental_agreement \<Rightarrow> rental_agreement \<Rightarrow> bool" where
  "agreement_evolves a a' \<longleftrightarrow>
     (ra_user a', ra_rental_request_proposal_id a', ra_subnet_creation_proposal_id a', ra_subnet_id a',
      ra_rental_condition_id a', ra_creation_time_nanos a') =
     (ra_user a, ra_rental_request_proposal_id a, ra_subnet_creation_proposal_id a, ra_subnet_id a,
      ra_rental_condition_id a, ra_creation_time_nanos a) \<and>
     ra_paid_until_nanos a \<le> ra_paid_until_nanos a' \<and> ra_total_icp_paid a \<le> ra_total_icp_paid a' \<and>
     ra_total_cycles_created a \<le> ra_total_cycles_created a' \<and>
     ra_total_cycles_burned a \<le> ra_total_cycles_burned a'"

definition evolves :: "canister \<Rightarrow> canister \<Rightarrow> bool" where
  "evolves s s' \<longleftrightarrow>
     (\<forall>p a. om_get (rental_agreements s) p = Some a \<longrightarrow>
        (\<exists>a'. om_get (rental_agreements s') p = Some a' \<and> agreement_evolves a a')) \<and>
     om_size (history s) \<le> om_size (history s') \<and>
     (om_size (history s') < 2 ^ 64 - 1 \<longrightarrow>
        (\<forall>k e. om_get (history s) k = Some e \<longrightarrow> om_get (history s') k = Some e))"

lemma agreement_evolves_refl [simp]: "agreement_evolves a a"
  by (simp add: agreement_evolves_def)

lemma agreement_evolves_trans:
  "agreement_evolves a b \<Longrightarrow> agreement_evolves b c \<Longrightarrow> agreement_evolves a c"
  by (auto simp: agreement_evolves_def)

lemma evolves_refl [simp]: "evolves s s"
  by (auto simp: evolves_def)

lemma evolves_trans:
  assumes "evolves s s'" "evolves s' s''"
  shows "evolves s s''"
proof -
  have "\<exists>a''. om_get (rental_agreements s'') p = Some a'' \<and> agreement_evolves a a''"
    if "om_get (rental_agreements s) p = Some a" for p a
    using that assms agreement_evolves_trans unfolding evolves_def by meson
  moreover have "om_size (history s) \<le> om_size (history s'')"
    using assms by (auto simp: evolves_def)
  moreover have "om_get (history s'') k = Some e"
    if "om_size (history s'') < 2 ^ 64 - 1" "om_get (history s) k = Some e" for k e
    using that assms unfolding evolves_def by (meson le_less_trans)
  ultimately show ?thesis by (simp add: evolves_def)
qed

section \<open>Good intermediate states\<close>

definition good :: "lock set \<Rightarrow> canister \<Rightarrow> canister \<Rightarrow> bool" where
  "good X s0 s \<longleftrightarrow> wf s \<and> evolves s0 s \<and> (\<forall>l\<in>X. protects l s0 s)"

named_theorems good_intros "operations that keep a state good"

lemma good_start: "wf s \<Longrightarrow> good X s s"
  by (simp add: good_def)

lemma good_wf: "good X s0 s \<Longrightarrow> wf s"
  by (simp add: good_def)

text \<open>Changes outside the verified maps.\<close>

lemma good_frame:
  assumes "good X s0 s"
    and "conditions s' = conditions s" "rental_requests s' = rental_requests s"
      "rental_agreements s' = rental_agreements s" "rates s' = rates s"
      "event_counters s' = event_counters s" "history s' = history s"
  shows "good X s0 s'"
  using assms history_inv_cong [of s' s] by (auto simp: good_def wf_def evolves_def protects_def)

lemma good_lock_id [good_intros]: "good X s0 s \<Longrightarrow> good X s0 (lock_id l s)"
  by (erule good_frame) simp_all

lemma good_unlock_id [good_intros]: "good X s0 s \<Longrightarrow> good X s0 (unlock_id l s)"
  by (erule good_frame) simp_all

lemma good_release_all [good_intros]: "good X s0 s \<Longrightarrow> good X s0 (release_all h s)"
  by (erule good_frame) simp_all

lemma good_burn_log [good_intros]: "good X s0 s \<Longrightarrow> good X s0 (s\<lparr>burn_log := bl\<rparr>)"
  by (erule good_frame) simp_all

lemma wf_persist_event: "wf s \<Longrightarrow> wf (persist_event now ev key s)"
  by (auto simp: wf_def intro: history_inv_persist)

lemma evolves_persist_event:
  assumes "history_inv s"
  shows "evolves s (persist_event now ev key s)"
proof -
  let ?s' = "persist_event now ev key s"
  have size: "om_size (history s) \<le> om_size (history ?s')"
    by (simp add: history_persist om_size_insert_ge)
  moreover have "om_get (history ?s') k = Some e"
    if "om_size (history ?s') < 2 ^ 64 - 1" "om_get (history s) k = Some e" for k e
  proof -
    have "history_ok s" using assms that(1) size by (simp add: history_inv_def)
    then have "om_get (history s) (key, event_count key s) = None"
      unfolding history_ok_def by (metis order.irrefl)
    with that(2) have "k \<noteq> (key, event_count key s)" by auto
    with that(2) show ?thesis by (simp add: history_persist)
  qed
  ultimately show ?thesis by (simp add: evolves_def)
qed

lemma good_persist_event [good_intros]: "good X s0 s \<Longrightarrow> good X s0 (persist_event now ev key s)"
  unfolding good_def
  by (metis evolves_persist_event evolves_trans protects_persist_event wf_def wf_persist_event)

lemma good_cache_rate [good_intros]:
  assumes "good X s0 s" and "unat t mod 86400 = 0"
  shows "good X s0 (cache_rate t r d s)"
proof -
  have "history_inv (cache_rate t r d s) = history_inv s"
    by (rule history_inv_cong) simp_all
  with assms show ?thesis
    by (auto simp: good_def wf_def evolves_def cache_rate_def protects_def)
qed

text \<open>Writing a request or an agreement needs the lock, or that nobody else has it.\<close>

lemma protects_requests:
  assumes "\<forall>l\<in>X. protects l s0 s" and "(u, ''request'') \<notin> X"
    and "\<And>u'. u' \<noteq> u \<Longrightarrow> om_get m u' = om_get (rental_requests s) u'"
  shows "\<forall>l\<in>X. protects l s0 (s\<lparr>rental_requests := m\<rparr>)"
proof
  fix l assume "l \<in> X"
  with assms(1) have p: "protects l s0 s" by blast
  have "om_get m (fst l) = om_get (rental_requests s) (fst l)" if "snd l = ''request''"
    using assms(2,3) \<open>l \<in> X\<close> that by (metis prod.collapse)
  with p show "protects l s0 (s\<lparr>rental_requests := m\<rparr>)" by (simp add: protects_def)
qed

lemma good_put_request [good_intros]:
  assumes "good X s0 s" and "(u, ''request'') \<notin> X" and "request_ok u r"
  shows "good X s0 (s\<lparr>rental_requests := om_insert u r (rental_requests s)\<rparr>)"
proof -
  have "history_inv (s\<lparr>rental_requests := m\<rparr>) = history_inv s" for m
    by (rule history_inv_cong) simp_all
  moreover have "\<forall>l\<in>X. protects l s0 (s\<lparr>rental_requests := om_insert u r (rental_requests s)\<rparr>)"
    using assms by (intro protects_requests) (auto simp: good_def)
  ultimately show ?thesis
    using assms by (auto simp: good_def wf_def evolves_def)
qed

lemma good_del_request [good_intros]:
  assumes "good X s0 s" and "(u, ''request'') \<notin> X"
  shows "good X s0 (s\<lparr>rental_requests := om_remove u (rental_requests s)\<rparr>)"
proof -
  have "history_inv (s\<lparr>rental_requests := m\<rparr>) = history_inv s" for m
    by (rule history_inv_cong) simp_all
  moreover have "\<forall>l\<in>X. protects l s0 (s\<lparr>rental_requests := om_remove u (rental_requests s)\<rparr>)"
    using assms by (intro protects_requests) (auto simp: good_def)
  ultimately show ?thesis
    using assms by (auto simp: good_def wf_def evolves_def)
qed

lemma good_new_agreement:
  assumes g: "good X s0 s" and "(p, ''nns'') \<notin> X" and "agreement_ok p a"
    and fresh: "om_get (rental_agreements s) p = None"
  shows "good X s0 (s\<lparr>rental_agreements := om_insert p a (rental_agreements s)\<rparr>)"
proof -
  let ?s' = "s\<lparr>rental_agreements := om_insert p a (rental_agreements s)\<rparr>"
  have "history_inv ?s' = history_inv s" by (rule history_inv_cong) simp_all
  moreover have "evolves s ?s'" using fresh by (auto simp: evolves_def)
  moreover have "protects l s0 ?s'" if "l \<in> X" for l
  proof -
    have p: "protects l s0 s" using g that by (simp add: good_def)
    have "fst l \<noteq> p" if "snd l = ''nns''"
      using assms(2) \<open>l \<in> X\<close> that by (cases l) auto
    moreover have "fst l \<noteq> p" if "snd l = ''agreement''" "om_get (rental_agreements s0) (fst l) \<noteq> None"
      using p that fresh by (auto simp: protects_def)
    ultimately show ?thesis using p by (auto simp: protects_def)
  qed
  ultimately show ?thesis
    using assms by (auto simp: good_def wf_def intro: evolves_trans)
qed

lemma good_update_agreement:
  assumes g: "good X s0 s" and "(p, ''agreement'') \<notin> X" and "agreement_ok p a'"
    and old: "om_get (rental_agreements s) p = Some a" and "agreement_evolves a a'"
  shows "good X s0 (s\<lparr>rental_agreements := om_insert p a' (rental_agreements s)\<rparr>)"
proof -
  let ?s' = "s\<lparr>rental_agreements := om_insert p a' (rental_agreements s)\<rparr>"
  have "history_inv ?s' = history_inv s" by (rule history_inv_cong) simp_all
  moreover have "evolves s ?s'" using old assms(5) by (auto simp: evolves_def)
  moreover have "protects l s0 ?s'" if "l \<in> X" for l
  proof -
    have p: "protects l s0 s" using g that by (simp add: good_def)
    have "fst l \<noteq> p" if "snd l = ''agreement''"
      using assms(2) \<open>l \<in> X\<close> that by (cases l) auto
    moreover have "fst l \<noteq> p" if "snd l = ''nns''" "om_get (rental_agreements s0) (fst l) = None"
      using p that old by (auto simp: protects_def)
    ultimately show ?thesis using p by (auto simp: protects_def)
  qed
  ultimately show ?thesis
    using assms by (auto simp: good_def wf_def intro: evolves_trans)
qed

section \<open>Installation and upgrade establish and keep the invariant\<close>

lemma history_inv_insert_conditions: "history_inv s \<Longrightarrow> history_inv (insert_conditions now kvs s)"
proof (induction now kvs s rule: insert_conditions.induct)
  case (2 now k v kvs s)
  have "history_inv (insert_rental_condition k v s) = history_inv s"
    by (rule history_inv_cong) simp_all
  with 2 show ?case by (simp add: history_inv_persist)
qed simp

lemma history_inv_empty: "history_inv empty_canister"
  by (simp add: history_inv_def history_ok_def event_count_def empty_canister_def)

lemma wf_set_initial_conditions:
  assumes "\<forall>u r. om_get (rental_requests s) u = Some r \<longrightarrow> request_ok u r"
    and "\<forall>p a. om_get (rental_agreements s) p = Some a \<longrightarrow> agreement_ok p a"
    and "\<forall>t v. om_get (rates s) t = Some v \<longrightarrow> unat t mod 86400 = 0" and "history_inv s"
  shows "wf (set_initial_conditions now s)"
  using assms by (simp add: wf_def) (simp add: set_initial_conditions_def history_inv_insert_conditions)

lemma wf_init: "wf (canister_init now)"
  unfolding canister_init_def
  by (rule wf_set_initial_conditions) (simp_all add: empty_canister_def history_inv_empty [unfolded empty_canister_def])

lemma wf_migration:
  assumes "wf s"
  shows "wf (app13ch_to_app7ch P now s)"
proof (cases rule: migration_cases [of P s])
  case (1 subnet a c)
  then have "agreement_ok subnet (migrated c now a)"
    using assms by (auto simp: migration_applies_def wf_def agreement_ok_def migrated_def)
  moreover have "history_inv (s\<lparr>rental_agreements := m\<rparr>) = history_inv s" for m
    by (rule history_inv_cong) simp_all
  ultimately have "wf (s\<lparr>rental_agreements := om_insert subnet (migrated c now a) (rental_agreements s)\<rparr>)"
    using assms by (auto simp: wf_def)
  then show ?thesis by (simp add: app13ch_to_app7ch_applies [OF 1] wf_persist_event)
qed (simp add: app13ch_to_app7ch_skips assms)

lemma wf_post_upgrade:
  assumes "wf s"
  shows "wf (post_upgrade P now s)"
proof -
  have "history_inv (heap_lost s) = history_inv s" by (rule history_inv_cong) simp_all
  with assms show ?thesis
    unfolding post_upgrade_def
    by (intro wf_migration wf_set_initial_conditions) (simp_all add: wf_def)
qed

text \<open>
  C20: an upgrade keeps the invariant, releases all guards, and loses nothing that is stored:
  requests, rates and burns are unchanged, and so is every agreement and every subnet's log
  except for the one subnet the migration may reprice.
\<close>

theorem upgrade_preserves:
  assumes "wf s"
  shows "wf (post_upgrade P now s) \<and> locks (post_upgrade P now s) = {} \<and>
    rental_requests (post_upgrade P now s) = rental_requests s \<and>
    rates (post_upgrade P now s) = rates s \<and> burn_log (post_upgrade P now s) = burn_log s \<and>
    (\<forall>p. Some p \<noteq> principal_from_text P TARGET_SUBNET \<longrightarrow>
       om_get (rental_agreements (post_upgrade P now s)) p = om_get (rental_agreements s) p) \<and>
    (\<forall>p. Some p \<noteq> principal_from_text P TARGET_SUBNET \<longrightarrow>
       log_of (Some p) (post_upgrade P now s) = log_of (Some p) s)"
proof -
  let ?s = "set_initial_conditions now (heap_lost s)"
  have "log_of key (insert_rental_condition k v s) = log_of key s" "log_of key (heap_lost s) = log_of key s" for key k v s
    by (rule history_frame; simp)+
  then have log: "log_of (Some p) ?s = log_of (Some p) s" for p
    by (simp add: set_initial_conditions_def initial_conditions_def log_of_persist_other)
  show ?thesis
  proof (cases rule: migration_cases [of P ?s])
    case (1 subnet a c)
    then have "principal_from_text P TARGET_SUBNET = Some subnet" by (simp add: migration_applies_def)
    with 1 show ?thesis using wf_post_upgrade [OF assms, of P now] log
      by (simp add: post_upgrade_def app13ch_to_app7ch_applies log_of_persist_other)
  next
    case 2
    then show ?thesis using wf_post_upgrade [OF assms, of P now] log
      by (simp add: post_upgrade_def app13ch_to_app7ch_skips)
  qed
qed

section \<open>Concrete states for examples\<close>

text \<open>A canister that has today's rate, one with a rental request, and one with an agreement.\<close>

definition demo_state :: canister where
  "demo_state = empty_canister\<lparr>conditions := map_of initial_conditions,
     rates := om_insert 0 (3497900000, 9) om_empty\<rparr>"

definition demo_request :: rental_request where
  "demo_request =
     \<lparr>rr_user = Principal [9], rr_initial_cost_icp = Tokens 4219674661940,
      rr_locked_amount_icp = Tokens 421967466194, rr_locked_amount_cycles = 500,
      rr_initial_proposal_id = 1, rr_creation_time_nanos = 0, rr_rental_condition_id = App13CH,
      rr_last_locking_time_nanos = 0\<rparr>"

definition demo_requested :: canister where
  "demo_requested = demo_state\<lparr>rental_requests := om_insert (Principal [9]) demo_request om_empty\<rparr>"

definition demo_leased :: canister where
  "demo_leased = demo_state\<lparr>rental_agreements := om_insert demo_subnet demo_agreement om_empty\<rparr>"

lemma demo_state_ok [simp]:
  "wf demo_state" "locks demo_state = {}" "conditions demo_state = map_of initial_conditions"
  "rental_requests demo_state = om_empty" "rental_agreements demo_state = om_empty"
  "om_get (rates demo_state) t = (if t = 0 then Some (3497900000, 9) else None)" "history demo_state = om_empty" "burn_log demo_state = []"
  "event_count key demo_state = 0"
  by (simp_all add: demo_state_def wf_def history_inv_def history_ok_def event_count_def empty_canister_def)

lemma demo_requested_ok [simp]:
  "wf demo_requested" "locks demo_requested = {}" "conditions demo_requested = map_of initial_conditions"
  "rental_requests demo_requested = om_insert (Principal [9]) demo_request om_empty"
  "rental_agreements demo_requested = om_empty" "burn_log demo_requested = []"
proof -
  show "wf demo_requested"
    by (auto simp: demo_requested_def demo_state_def wf_def history_inv_def history_ok_def event_count_def
      empty_canister_def request_ok_def locked_ok_def demo_request_def intro!: exI [of _ 1])
qed (simp_all add: demo_requested_def)

lemma demo_leased_ok [simp]:
  "wf demo_leased" "locks demo_leased = {}" "conditions demo_leased = map_of initial_conditions"
  "rental_agreements demo_leased = om_insert demo_subnet demo_agreement om_empty"
  "rental_requests demo_leased = om_empty" "om_get (rates demo_leased) t = (if t = 0 then Some (3497900000, 9) else None)" "burn_log demo_leased = []"
proof -
  show "wf demo_leased"
    by (auto simp: demo_leased_def demo_state_def wf_def history_inv_def history_ok_def event_count_def
      empty_canister_def agreement_ok_def demo_agreement_def)
qed (simp_all add: demo_leased_def)

lemma demo_room [simp]:
  "n < 2 ^ 64 \<Longrightarrow> has_room key n demo_state" "n < 2 ^ 64 \<Longrightarrow> has_room key n demo_requested"
  "n < 2 ^ 64 \<Longrightarrow> has_room key n demo_leased"
proof -
  show "n < 2 ^ 64 \<Longrightarrow> has_room key n demo_state"
    by (simp add: has_room_def demo_state_def history_ok_def event_count_def empty_canister_def)
  then show "n < 2 ^ 64 \<Longrightarrow> has_room key n demo_requested" "n < 2 ^ 64 \<Longrightarrow> has_room key n demo_leased"
    by (simp_all add: demo_requested_def demo_leased_def)
qed

definition demo_condition :: rental_conditions where
  "demo_condition = the (map_of initial_conditions App13CH)"

lemma demo_condition_sel [simp]:
  "map_of initial_conditions App13CH = Some demo_condition" "rc_subnet_id demo_condition = None"
  "rc_daily_cost_cycles demo_condition = 820 * TRILLION" "rc_initial_rental_period_days demo_condition = 180"
  by (simp_all add: demo_condition_def initial_conditions_def INITIAL_RENTAL_PERIOD_DAYS_def)

lemma demo_subnet_user [simp]: "demo_subnet \<noteq> Principal [9]"
  by (simp add: demo_subnet_def demo_platform_def TARGET_SUBNET_def)

lemma demo_midnight [simp]: "round_to_previous_midnight 5 = 0"
  by (simp add: round_to_previous_midnight_def)

lemma demo_price:
  "calculate_subnet_price (820 * TRILLION) 180 3497900000 9 = Inr (Tokens 4219674661940)"
  by (simp add: calculate_subnet_price_eq price_computable_def exact_price_def TRILLION_def)

theorem upgrade_preserves_witness:
  "wf (post_upgrade demo_platform 0 demo_requested) \<and>
   rental_requests (post_upgrade demo_platform 0 demo_requested) = rental_requests demo_requested"
  using upgrade_preserves [of demo_requested demo_platform 0] by simp

end
