(* ===== verification/Src_External.thy ===== *)
theory Src_External
  imports Src_Invariant
begin

text \<open>
  The calls of \<^verbatim>\<open>external_calls.rs\<close>: exchange rates with their cache, the conversion of ICP
  to cycles (ledger transfer, then \<^verbatim>\<open>notify_top_up\<close>), balances, refunds, and the calls that
  authorise a subnet and update its admins. Failing \<^verbatim>\<open>expect\<close>s are panics with their
  message. The second half states which calls and panics the whole canister may make
  (\<open>call_ok\<close>, \<open>tolerated_panics\<close>) and gives each operation a rule over the assertion
  \<open>later\<close>, which says where a message is between two awaits.
\<close>

section \<open>Definitions\<close>

definition get_exchange_rate_canister_id :: "platform \<Rightarrow> principal prog" where
  "get_exchange_rate_canister_id P =
     (case principal_from_text P ''uf6dk-hyaaa-aaaaq-qaaaq-cai'' of
        None \<Rightarrow> panic ''Invalid XRC canister ID''
      | Some p \<Rightarrow> ret p)"

definition get_registry_canister_id :: "platform \<Rightarrow> principal prog" where
  "get_registry_canister_id P =
     (case principal_from_text P ''rwlgt-iiaaa-aaaaa-aaaaa-cai'' of
        None \<Rightarrow> panic ''Invalid Registry canister ID''
      | Some p \<Rightarrow> ret p)"

definition set_authorized_subnetwork_list :: "platform \<Rightarrow> principal \<Rightarrow> principal \<Rightarrow> unit prog" where
  "set_authorized_subnetwork_list P user subnet_id =
     bnd (await_call (CallSetAuthorizedSubnetworkList (cmc_id P)
            \<lparr>sal_who = Some user, sal_subnets = [subnet_id]\<rparr>)) (\<lambda>r.
     case r of ReplyFailed e \<Rightarrow> panic ''Failed to call CMC'' | _ \<Rightarrow> ret ())"

definition notify_top_up :: "platform \<Rightarrow> u64 \<Rightarrow> (notify_error + u128) prog" where
  "notify_top_up P block_index =
     bnd (await_call (CallNotifyTopUp (cmc_id P)
            \<lparr>nta_block_index = block_index, nta_canister_id = self_id P\<rparr>)) (\<lambda>r.
     case r of
       ReplyFailed e \<Rightarrow> panic ''Failed to call CMC''
     | ReplyNotify x \<Rightarrow> ret x
     | _ \<Rightarrow> panic ''Failed to decode result'')"

definition ledger_transfer :: "platform \<Rightarrow> transfer_args \<Rightarrow> (transfer_error + u64) prog" where
  "ledger_transfer P args =
     bnd (await_call (CallLedgerTransfer (ledger_id P) args)) (\<lambda>r.
     case r of ReplyTransfer x \<Rightarrow> ret x | _ \<Rightarrow> panic ''Failed to call ledger canister'')"

definition transfer_to_cmc :: "platform \<Rightarrow> tokens \<Rightarrow> subaccount \<Rightarrow> (transfer_error + u64) prog" where
  "transfer_to_cmc P amount source =
     ledger_transfer P
       \<lparr>ta_to = account_of P (cmc_id P) (subaccount_of P (self_id P)),
        ta_fee = default_fee P,
        ta_from_subaccount = Some source,
        ta_amount = amount,
        ta_memo = MEMO_TOP_UP_CANISTER,
        ta_created_at_time = None\<rparr>"

definition refund_user :: "platform \<Rightarrow> principal \<Rightarrow> tokens \<Rightarrow> (transfer_error + u64) prog" where
  "refund_user P user amount =
     ledger_transfer P
       \<lparr>ta_to = account_of P user (default_subaccount P),
        ta_fee = default_fee P,
        ta_from_subaccount = Some (subaccount_of P user),
        ta_amount = amount,
        ta_memo = 0,
        ta_created_at_time = None\<rparr>"

definition exchange_rate_request :: "u64 \<Rightarrow> get_exchange_rate_request" where
  "exchange_rate_request time =
     \<lparr>ger_timestamp = Some time,
      ger_quote_asset = \<lparr>as_class = FiatCurrency, as_symbol = ''CXDR''\<rparr>,
      ger_base_asset = \<lparr>as_class = Cryptocurrency, as_symbol = ''ICP''\<rparr>\<rparr>"

definition get_exchange_rate_icp_per_xdr_at_time ::
  "platform \<Rightarrow> u64 \<Rightarrow> (exchange_rate_error + (u64 \<times> u32)) prog" where
  "get_exchange_rate_icp_per_xdr_at_time P time =
     bnd (gets (get_cached_rate time)) (\<lambda>cached.
     case cached of
       Some tup \<Rightarrow> ret (Inr tup)
     | None \<Rightarrow>
         bnd (get_exchange_rate_canister_id P) (\<lambda>xrc.
         bnd (await_call (CallGetExchangeRate xrc (exchange_rate_request time) 1000000000)) (\<lambda>r.
         case r of
           ReplyFailed e \<Rightarrow> panic ''Failed to call ExchangeRateCanister''
         | ReplyRate response \<Rightarrow>
             (case response of
                Inr er \<Rightarrow>
                  bnd (modify (cache_rate time (er_rate er) (erm_decimals (er_metadata er)))) (\<lambda>_.
                  ret (Inr (er_rate er, erm_decimals (er_metadata er))))
              | Inl e \<Rightarrow> ret (Inl e))
         | _ \<Rightarrow> panic ''Failed to decode result'')))"

definition convert_icp_to_cycles ::
  "platform \<Rightarrow> tokens \<Rightarrow> subaccount \<Rightarrow> (execute_proposal_error + (u64 \<times> u128)) prog" where
  "convert_icp_to_cycles P amount source =
     bnd (transfer_to_cmc P (tokens_sub P amount (default_fee P)) source) (\<lambda>transfer_result.
     case transfer_result of
       Inl e \<Rightarrow> ret (Inl (TransferSrcToCmcError (show_transfer_error P e)))
     | Inr block_index \<Rightarrow>
         bnd (notify_top_up P block_index) (\<lambda>notify_result.
         case notify_result of
           Inl e \<Rightarrow> ret (Inl (NotifyTopUpError (debug_notify_error P e)))
         | Inr actual_cycles \<Rightarrow> ret (Inr (block_index, actual_cycles))))"

definition check_subaccount_balance :: "platform \<Rightarrow> subaccount \<Rightarrow> tokens prog" where
  "check_subaccount_balance P subaccount =
     bnd (await_call (CallAccountBalance (ledger_id P) (account_of P (self_id P) subaccount))) (\<lambda>r.
     case r of
       ReplyFailed e \<Rightarrow> panic ''Failed to call LedgerCanister''
     | ReplyBalance t \<Rightarrow> ret t
     | _ \<Rightarrow> panic ''Failed to decode result'')"

text \<open>The conversion of the public admin payload into the registry's (\<^verbatim>\<open>external_types.rs\<close>).\<close>

definition registry_admins_payload :: "update_subnet_admins_payload \<Rightarrow> update_subnet_admins_payload" where
  "registry_admins_payload payload =
     \<lparr>usa_subnet_id = usa_subnet_id payload,
      usa_operation_type = Some (case usa_operation_type payload of
          Some (OpAdd principal_list) \<Rightarrow> OpAdd principal_list
        | Some (OpRemove principal_list) \<Rightarrow> OpRemove principal_list
        | Some OpClear \<Rightarrow> OpClear
        | None \<Rightarrow> OpClear)\<rparr>"

definition registry_update_subnet_admins ::
  "platform \<Rightarrow> update_subnet_admins_payload \<Rightarrow> (string + unit) prog" where
  "registry_update_subnet_admins P payload =
     bnd (get_registry_canister_id P) (\<lambda>registry.
     bnd (await_call (CallUpdateSubnetAdmins registry payload)) (\<lambda>r.
     case r of ReplyFailed err \<Rightarrow> ret (Inl err) | _ \<Rightarrow> ret (Inr ())))"

section \<open>The specification of the canister\<close>

text \<open>
  Which calls may leave the canister, given the state at the call: ICP move from a user's
  subaccount only to the canister's top-up account at the CMC or back to the same user;
  cycles are minted for the canister itself; exchange rates are asked for midnights, at
  one billion cycles; a subnet is authorised only for a user with a rental request and only
  while nobody rents it; admins are updated on rented subnets and never with an empty list.
\<close>

fun call_ok :: "platform \<Rightarrow> call \<Rightarrow> canister \<Rightarrow> bool" where
  "call_ok P (CallLedgerTransfer target args) s \<longleftrightarrow> target = ledger_id P \<and> ta_fee args = default_fee P \<and>
     (\<exists>u. ta_from_subaccount args = Some (subaccount_of P u) \<and>
        (ta_to args = account_of P (cmc_id P) (subaccount_of P (self_id P)) \<and> ta_memo args = MEMO_TOP_UP_CANISTER \<or>
         ta_to args = account_of P u (default_subaccount P) \<and> ta_memo args = 0))"
| "call_ok P (CallAccountBalance target account) s \<longleftrightarrow> target = ledger_id P \<and>
     (\<exists>u. account = account_of P (self_id P) (subaccount_of P u))"
| "call_ok P (CallNotifyTopUp target arg) s \<longleftrightarrow> target = cmc_id P \<and> nta_canister_id arg = self_id P"
| "call_ok P (CallSetAuthorizedSubnetworkList target args) s \<longleftrightarrow> target = cmc_id P \<and>
     (\<exists>u p. args = \<lparr>sal_who = Some u, sal_subnets = [p]\<rparr> \<and>
        om_get (rental_requests s) u \<noteq> None \<and> om_get (rental_agreements s) p = None)"
| "call_ok P (CallGetExchangeRate target request cycles) s \<longleftrightarrow>
     principal_from_text P ''uf6dk-hyaaa-aaaaq-qaaaq-cai'' = Some target \<and> cycles = 1000000000 \<and>
     (\<exists>t. request = exchange_rate_request t \<and> unat t mod 86400 = 0)"
| "call_ok P (CallUpdateSubnetAdmins target payload) s \<longleftrightarrow>
     principal_from_text P ''rwlgt-iiaaa-aaaaa-aaaaa-cai'' = Some target \<and>
     om_get (rental_agreements s) (usa_subnet_id payload) \<noteq> None \<and>
     (\<exists>op. usa_operation_type payload = Some op \<and> op \<noteq> OpAdd [] \<and> op \<noteq> OpRemove [])"

text \<open>
  The panics that can happen. Those of the first five lines are failed calls and bad
  constants, the sixth is a concurrent proposal, and the last three are reachable defects
  of the code. The panics that are not in the list are shown never to happen.
\<close>

definition tolerated_panics :: "string list" where
  "tolerated_panics =
     [''Failed to call CMC'', ''Failed to decode result'',
      ''Failed to call ledger canister'',
      ''Failed to call LedgerCanister'',
      ''Failed to call ExchangeRateCanister'',
      ''Invalid XRC canister ID'', ''Invalid Registry canister ID'',
      ''Fatal: Concurrent call'',
      ''burn_cycles: attempt to divide by zero'',
      ''subnet_top_up_estimate: attempt to divide by zero'',
      ''locking: unwrap of update_rental_request'']"

definition src_spec :: "platform \<Rightarrow> spec" where
  "src_spec P = \<lparr>sp_inv = wf, sp_guar = evolves, sp_trap = (\<lambda>m. m \<in> set tolerated_panics), sp_call = call_ok P\<rparr>"

lemma src_spec_sel [simp]:
  "sp_inv (src_spec P) = wf" "sp_guar (src_spec P) = evolves" "sp_call (src_spec P) = call_ok P"
  by (simp_all add: src_spec_def)

lemma tolerated [simp]:
  "sp_trap (src_spec P) ''Failed to call CMC''"
  "sp_trap (src_spec P) ''Failed to decode result''"
  "sp_trap (src_spec P) ''Failed to call ledger canister''"
  "sp_trap (src_spec P) ''Failed to call LedgerCanister''"
  "sp_trap (src_spec P) ''Failed to call ExchangeRateCanister''"
  "sp_trap (src_spec P) ''Invalid XRC canister ID''"
  "sp_trap (src_spec P) ''Invalid Registry canister ID''"
  "sp_trap (src_spec P) ''Fatal: Concurrent call''"
  "sp_trap (src_spec P) ''burn_cycles: attempt to divide by zero''"
  "sp_trap (src_spec P) ''subnet_top_up_estimate: attempt to divide by zero''"
  "sp_trap (src_spec P) ''locking: unwrap of update_rental_request''"
  by (simp_all add: src_spec_def tolerated_panics_def)

section \<open>Where a message is\<close>

text \<open>
  \<open>later H a X s0 s\<close>: the message holds \<open>H\<close>, others hold \<open>X\<close>, the current part started in
  \<open>s0\<close>, all is well in \<open>s\<close>, and since the anchor \<open>a\<close> nothing changed that \<open>H\<close> protects.
\<close>

definition later :: "lock set \<Rightarrow> canister \<Rightarrow> lock set \<Rightarrow> canister \<Rightarrow> canister \<Rightarrow> bool" where
  "later H a X s0 s \<longleftrightarrow> locks s = X \<union> H \<and> X \<inter> H = {} \<and> good X s0 s \<and> evolves a s \<and> (\<forall>l\<in>H. protects l a s)"

lemma segment_ok_src: "segment_ok (src_spec P) H X s0 s \<longleftrightarrow> locks s = X \<union> H \<and> X \<inter> H = {} \<and> good X s0 s"
  by (auto simp: segment_ok_def good_def)

lemma later_segment: "later H a X s0 s \<Longrightarrow> segment_ok (src_spec P) H X s0 s"
  by (simp add: later_def segment_ok_src)

lemma later_anchor: "locks s = X \<union> H \<Longrightarrow> X \<inter> H = {} \<Longrightarrow> good X s0 s \<Longrightarrow> later H s X s0 s"
  by (simp add: later_def)

lemma later_start: "wf s \<Longrightarrow> later {} s (locks s) s s"
  by (simp add: later_def good_start)

lemma later_wf: "later H a X s0 s \<Longrightarrow> wf s"
  by (simp add: later_def good_def)

lemma later_good: "later H a X s0 s \<Longrightarrow> good X s0 s"
  by (simp add: later_def)

lemma later_locks: "later H a X s0 s \<Longrightarrow> locks s = X \<union> H"
  by (simp add: later_def)

lemma evolves_cong:
  "rental_agreements t = rental_agreements s \<Longrightarrow> history t = history s \<Longrightarrow> evolves a t = evolves a s"
  by (simp add: evolves_def)

lemma later_lock: "later H a X s0 s \<Longrightarrow> l \<notin> locks s \<Longrightarrow> later (insert l H) (lock_id l s) X s0 (lock_id l s)"
  by (auto simp: later_def intro: good_lock_id)

lemma later_unlock: "later (insert l H) a X s0 s \<Longrightarrow> l \<notin> H \<Longrightarrow> later H a X s0 (unlock_id l s)"
  using evolves_cong [of "unlock_id l s" s a] by (auto simp: later_def intro: good_unlock_id)

lemma later_persist: "later H a X s0 s \<Longrightarrow> later H a X s0 (persist_event now ev key s)"
proof -
  assume l: "later H a X s0 s"
  then have "history_inv s" by (simp add: later_def good_def wf_def)
  then have "evolves a (persist_event now ev key s)"
    using l evolves_persist_event evolves_trans unfolding later_def by blast
  with l show ?thesis by (simp add: later_def good_persist_event)
qed

lemma later_cache: "later H a X s0 s \<Longrightarrow> unat t mod 86400 = 0 \<Longrightarrow> later H a X s0 (cache_rate t r d s)"
  using evolves_cong [of "cache_rate t r d s" s a] by (simp add: later_def good_cache_rate)

lemma later_resume:
  assumes "later H a X s0 s" and "resume_ok (src_spec P) H X' s s'"
  shows "later H a X' s' s'"
  using assms unfolding later_def resume_ok_def src_spec_sel
  by (meson evolves_trans good_start protects_trans)

lemma later_finish: "later {} a X s0 s \<Longrightarrow> finish (src_spec P) x X s0 n s"
  by (simp add: finish_def later_segment)

section \<open>Rules for the external operations\<close>

lemma wp_awaitI:
  assumes "later H a X s0 s" and "call_ok P c s"
    and "\<And>r X' n' s'. later H a X' s' s' \<Longrightarrow> Q r X' s' n' s'"
  shows "wp (src_spec P) Q H X s0 (await_call c) n s"
  using assms later_resume [OF assms(1)] by (simp add: wp_await_call later_segment)

lemma wp_notifyI:
  assumes "later H a X s0 s"
    and "\<And>x X' n' s'. later H a X' s' s' \<Longrightarrow> Q x X' s' n' s'"
  shows "wp (src_spec P) Q H X s0 (notify_top_up P b) n s"
  unfolding notify_top_up_def wp_bnd using assms(1)
proof (rule wp_awaitI)
  fix r X' n' s' assume l: "later H a X' s' s'"
  show "wp (src_spec P) Q H X' s' (case r of ReplyFailed e \<Rightarrow> panic ''Failed to call CMC''
      | ReplyNotify x \<Rightarrow> ret x | _ \<Rightarrow> panic ''Failed to decode result'') n' s'"
    using assms(2) [OF l] by (simp add: wp_ret wp_panic split: reply.split)
qed simp

lemma wp_ledger_transferI:
  assumes "later H a X s0 s" and "call_ok P (CallLedgerTransfer (ledger_id P) args) s"
    and "\<And>x X' n' s'. later H a X' s' s' \<Longrightarrow> Q x X' s' n' s'"
  shows "wp (src_spec P) Q H X s0 (ledger_transfer P args) n s"
  unfolding ledger_transfer_def wp_bnd using assms(1,2)
proof (rule wp_awaitI)
  fix r X' n' s' assume l: "later H a X' s' s'"
  show "wp (src_spec P) Q H X' s'
      (case r of ReplyTransfer x \<Rightarrow> ret x | _ \<Rightarrow> panic ''Failed to call ledger canister'') n' s'"
    using assms(3) [OF l] by (simp add: wp_ret wp_panic split: reply.split)
qed

lemma wp_convertI:
  assumes "later H a X s0 s"
    and "\<And>x X' n' s'. later H a X' s' s' \<Longrightarrow> Q x X' s' n' s'"
  shows "wp (src_spec P) Q H X s0 (convert_icp_to_cycles P amount (subaccount_of P u)) n s"
  unfolding convert_icp_to_cycles_def wp_bnd transfer_to_cmc_def using assms(1)
proof (rule wp_ledger_transferI)
  fix x X' n' s' assume l: "later H a X' s' s'"
  show "wp (src_spec P) Q H X' s'
      (case x of Inl e \<Rightarrow> ret (Inl (TransferSrcToCmcError (show_transfer_error P e)))
       | Inr block_index \<Rightarrow>
         bnd (notify_top_up P block_index) (\<lambda>notify_result.
         case notify_result of
           Inl e \<Rightarrow> ret (Inl (NotifyTopUpError (debug_notify_error P e)))
         | Inr actual_cycles \<Rightarrow> ret (Inr (block_index, actual_cycles)))) n' s'"
  proof (cases x)
    case (Inl e)
    then show ?thesis using assms(2) [OF l] by (simp add: wp_ret)
  next
    case (Inr b)
    have "wp (src_spec P) (\<lambda>y X s0 n s. wp (src_spec P) Q H X s0 (case y of
           Inl e \<Rightarrow> ret (Inl (NotifyTopUpError (debug_notify_error P e)))
         | Inr actual_cycles \<Rightarrow> ret (Inr (b, actual_cycles))) n s) H X' s' (notify_top_up P b) n' s'"
      using l by (rule wp_notifyI) (auto simp: wp_ret split: sum.split intro: assms(2))
    then show ?thesis using Inr by (simp add: wp_bnd)
  qed
qed auto

lemma wp_refund_userI:
  assumes "later H a X s0 s"
    and "\<And>x X' n' s'. later H a X' s' s' \<Longrightarrow> Q x X' s' n' s'"
  shows "wp (src_spec P) Q H X s0 (refund_user P u amount) n s"
  unfolding refund_user_def using assms by (intro wp_ledger_transferI) auto

lemma wp_balanceI:
  assumes "later H a X s0 s"
    and "\<And>x X' n' s'. later H a X' s' s' \<Longrightarrow> Q x X' s' n' s'"
  shows "wp (src_spec P) Q H X s0 (check_subaccount_balance P (subaccount_of P u)) n s"
  unfolding check_subaccount_balance_def wp_bnd using assms(1)
proof (rule wp_awaitI)
  fix r X' n' s' assume l: "later H a X' s' s'"
  show "wp (src_spec P) Q H X' s' (case r of ReplyFailed e \<Rightarrow> panic ''Failed to call LedgerCanister''
      | ReplyBalance t \<Rightarrow> ret t | _ \<Rightarrow> panic ''Failed to decode result'') n' s'"
    using assms(2) [OF l] by (simp add: wp_ret wp_panic split: reply.split)
qed auto

lemma wp_exchange_rateI:
  assumes "later H a X s0 s" and t: "unat t mod 86400 = 0"
    and "\<And>x X' s0' n' s'. later H a X' s0' s' \<Longrightarrow> Q x X' s0' n' s'"
  shows "wp (src_spec P) Q H X s0 (get_exchange_rate_icp_per_xdr_at_time P t) n s"
proof (cases "get_cached_rate t s")
  case (Some v)
  then show ?thesis using assms(3) [OF assms(1)]
    by (simp add: get_exchange_rate_icp_per_xdr_at_time_def wp_bnd wp_gets wp_ret)
next
  case None
  show ?thesis
  proof (cases "principal_from_text P ''uf6dk-hyaaa-aaaaq-qaaaq-cai''")
    case None
    with \<open>get_cached_rate t s = None\<close> show ?thesis
      by (simp add: get_exchange_rate_icp_per_xdr_at_time_def get_exchange_rate_canister_id_def
          wp_bnd wp_gets wp_panic)
  next
    case (Some xrc)
    have "wp (src_spec P) (\<lambda>r X s0 n s. wp (src_spec P) Q H X s0 (case r of
           ReplyFailed e \<Rightarrow> panic ''Failed to call ExchangeRateCanister''
         | ReplyRate response \<Rightarrow>
             (case response of
                Inr er \<Rightarrow>
                  bnd (modify (cache_rate t (er_rate er) (erm_decimals (er_metadata er)))) (\<lambda>_.
                  ret (Inr (er_rate er, erm_decimals (er_metadata er))))
              | Inl e \<Rightarrow> ret (Inl e))
         | _ \<Rightarrow> panic ''Failed to decode result'') n s) H X s0
        (await_call (CallGetExchangeRate xrc (exchange_rate_request t) 1000000000)) n s"
      using assms(1)
    proof (rule wp_awaitI)
      fix r X' n' s' assume l: "later H a X' s' s'"
      show "wp (src_spec P) Q H X' s' (case r of
           ReplyFailed e \<Rightarrow> panic ''Failed to call ExchangeRateCanister''
         | ReplyRate response \<Rightarrow>
             (case response of
                Inr er \<Rightarrow>
                  bnd (modify (cache_rate t (er_rate er) (erm_decimals (er_metadata er)))) (\<lambda>_.
                  ret (Inr (er_rate er, erm_decimals (er_metadata er))))
              | Inl e \<Rightarrow> ret (Inl e))
         | _ \<Rightarrow> panic ''Failed to decode result'') n' s'"
        using assms(3) [OF l] assms(3) [OF later_cache [OF l t]]
        by (simp add: wp_ret wp_panic wp_bnd wp_modify split: reply.split sum.split)
    qed (use Some t in auto)
    then show ?thesis using None Some
      by (simp add: get_exchange_rate_icp_per_xdr_at_time_def get_exchange_rate_canister_id_def
          wp_bnd wp_gets wp_ret)
  qed
qed

section \<open>Guards and whole messages\<close>

text \<open>The post-condition of a part of a handler that runs under the guards \<open>H\<close>.\<close>

definition held :: "lock set \<Rightarrow> 'a post" where
  "held H = (\<lambda>x X s0 n s. \<exists>a. later H a X s0 s)"

lemma heldI: "later H a X s0 s \<Longrightarrow> held H x X s0 n s"
  by (auto simp: held_def)

lemma heldE: "held H x X s0 n s \<Longrightarrow> (\<And>a. later H a X s0 s \<Longrightarrow> thesis) \<Longrightarrow> thesis"
  by (auto simp: held_def)

lemma held_good: "locks s = X \<union> H \<Longrightarrow> X \<inter> H = {} \<Longrightarrow> good X s0 s \<Longrightarrow> held H x X s0 n s"
  by (rule heldI) (rule later_anchor)

lemma wp_guard_held:
  assumes l: "later H a X s0 s"
    and busy: "wp (src_spec P) (held H) H X s0 busy n s"
    and body: "l \<notin> locks s \<Longrightarrow> later (insert l H) (lock_id l s) X s0 (lock_id l s) \<Longrightarrow>
      wp (src_spec P) (held (insert l H)) (insert l H) X s0 body n (lock_id l s)"
  shows "wp (src_spec P) (held H) H X s0 (with_guard l busy body) n s"
proof -
  have H: "l \<in> H \<Longrightarrow> l \<in> locks s" using l by (simp add: later_def)
  show ?thesis
  proof (cases "l \<in> locks s")
    case True
    with busy show ?thesis by (simp only: wp_with_guard [of l H s, OF H] if_True)
  next
    case False
    then have "l \<notin> H" using H by blast
    have "wp (src_spec P) (\<lambda>x X s0 n s. held H x X s0 n (unlock_id l s)) (insert l H) X s0 body n (lock_id l s)"
      using body [OF False later_lock [OF l False]]
      by (rule wp_mono) (auto simp: held_def dest: later_unlock [OF _ \<open>l \<notin> H\<close>])
    with False show ?thesis by (simp only: wp_with_guard [of l H s, OF H] if_False)
  qed
qed

lemma message_safeI:
  assumes "\<And>n s. wf s \<Longrightarrow> later {} s (locks s) s s \<Longrightarrow> wp (src_spec P) (held {}) {} (locks s) s m n s"
  shows "message_safe (src_spec P) m"
  unfolding message_safe_def
proof (intro allI impI)
  fix n s assume "sp_inv (src_spec P) s"
  then have "wf s" by simp
  then have "wp (src_spec P) (held {}) {} (locks s) s m n s"
    by (intro assms later_start)
  then show "wp (src_spec P) (finish (src_spec P)) {} (locks s) s m n s"
    by (rule wp_mono) (auto simp: held_def intro: later_finish)
qed

lemma wp_emitI:
  assumes "later H a X s0 s"
    and "\<And>s'. later H a X s0 s' \<Longrightarrow> s' = persist_event n ev key s \<Longrightarrow> Q () X s0 n s'"
  shows "wp (src_spec P) Q H X s0 (emit ev key) n s"
  using assms(2) [OF later_persist [OF assms(1)] refl] by (simp add: emit_def wp_update_now)

lemma wp_burnI:
  assumes "later H a X s0 s"
    and "\<And>b bl. later H a X s0 (s\<lparr>burn_log := bl\<rparr>) \<Longrightarrow> Q b X s0 n (s\<lparr>burn_log := bl\<rparr>)"
  shows "wp (src_spec P) Q H X s0 (cycles_burn P amount) n s"
proof -
  have "later H a X s0 (s\<lparr>burn_log := bl\<rparr>)" for bl
    using assms(1) evolves_cong [of "s\<lparr>burn_log := bl\<rparr>" s a]
    by (simp add: later_def good_burn_log protects_def)
  then show ?thesis
    using assms(2) by (simp add: cycles_burn_def wp_update_with Let_def)
qed

end
