(* ===== verification/Src_Proposals.thy ===== *)
theory Src_Proposals
  imports Src_External
begin

text \<open>
  The proposals and the refund of \<^verbatim>\<open>canister.rs\<close>: \<^verbatim>\<open>execute_rental_request_proposal\<close>,
  \<^verbatim>\<open>execute_create_rental_agreement\<close> and \<^verbatim>\<open>refund\<close>, with all guards, checks, awaits and
  events in the code's order, and their safety against every interleaving.
\<close>

section \<open>Rental request proposals\<close>

definition verify_caller_is_governance :: "platform \<Rightarrow> principal \<Rightarrow> execute_proposal_error + unit" where
  "verify_caller_is_governance P caller =
     (if caller \<noteq> governance_id P then Inl UnauthorizedCaller else Inr ())"

definition with_error ::
  "platform \<Rightarrow> principal \<Rightarrow> u64 \<Rightarrow> execute_proposal_error \<Rightarrow> (execute_proposal_error + unit) prog" where
  "with_error P user proposal_id e =
     bnd (emit (RentalRequestFailed user proposal_id (debug_execute_error P e)) (Some user)) (\<lambda>_.
     ret (Inl e))"

text \<open>The checks before the first await; \<open>Inr\<close> carries the rental conditions.\<close>

definition rental_request_checks ::
  "principal \<Rightarrow> rental_condition_id \<Rightarrow> (execute_proposal_error + rental_conditions) prog" where
  "rental_request_checks user rental_condition_id =
     bnd (gets (get_rental_request user)) (\<lambda>request.
     if request \<noteq> None then ret (Inl UserAlreadyRequestingSubnetRental) else
     bnd (gets iter_rental_agreements) (\<lambda>agreements.
     if list_ex (\<lambda>p. ra_user (snd p) = user) agreements then ret (Inl UserAlreadyHasAgreement) else
     bnd (gets (get_rental_conditions rental_condition_id)) (\<lambda>found.
     case found of
       None \<Rightarrow> panic ''Fatal: Rental conditions not found''
     | Some c \<Rightarrow>
         bnd (case rc_subnet_id c of
                None \<Rightarrow> ret False
              | Some subnet_id \<Rightarrow> gets (\<lambda>s. get_rental_agreement subnet_id s \<noteq> None)) (\<lambda>rented.
         if rented then ret (Inl SubnetAlreadyRented) else
         bnd (gets iter_rental_requests) (\<lambda>requests.
         if list_ex (\<lambda>p. rr_rental_condition_id (snd p) = rental_condition_id) requests
         then ret (Inl SubnetAlreadyRequested)
         else ret (Inr c))))))"

text \<open>The rest: price, balance, locking of a tenth, and the new rental request.\<close>

definition rental_request_payment ::
  "platform \<Rightarrow> subnet_rental_proposal_payload \<Rightarrow> rental_conditions \<Rightarrow> (execute_proposal_error + unit) prog" where
  "rental_request_payment P payload c =
     (let user = srp_user payload;
          proposal_id = srp_proposal_id payload;
          exchange_rate_query_time = round_to_previous_midnight (srp_proposal_creation_time_seconds payload)
      in
     bnd (get_exchange_rate_icp_per_xdr_at_time P exchange_rate_query_time) (\<lambda>res.
     case res of
       Inl e \<Rightarrow> with_error P user proposal_id (CallXRCFailed (debug_rate_error P e))
     | Inr (scaled_exchange_rate_xdr_per_icp, decimals) \<Rightarrow>
     (case calculate_subnet_price (rc_daily_cost_cycles c) (rc_initial_rental_period_days c)
             scaled_exchange_rate_xdr_per_icp decimals of
       Inl e \<Rightarrow> with_error P user proposal_id e
     | Inr needed_icp \<Rightarrow>
     bnd (check_subaccount_balance P (subaccount_of P user)) (\<lambda>available_icp.
     if needed_icp > available_icp
     then with_error P user proposal_id (InsufficientFunds available_icp needed_icp)
     else
     let lock_amount_icp = Tokens (e8s needed_icp div 10) in
     bnd (convert_icp_to_cycles P lock_amount_icp (subaccount_of P user)) (\<lambda>res.
     case res of
       Inl e \<Rightarrow> with_error P user proposal_id e
     | Inr (block_index, locked_cycles) \<Rightarrow>
     bnd (emit (TransferSuccess lock_amount_icp block_index) (Some user)) (\<lambda>_.
     bnd api_time (\<lambda>now_nanos.
     let rental_request =
           \<lparr>rr_user = user, rr_initial_cost_icp = needed_icp, rr_locked_amount_icp = lock_amount_icp,
            rr_locked_amount_cycles = locked_cycles, rr_initial_proposal_id = proposal_id,
            rr_creation_time_nanos = now_nanos,
            rr_rental_condition_id = srp_rental_condition_id payload,
            rr_last_locking_time_nanos = now_nanos\<rparr>
     in
     bnd (update_now (persist_rental_request P rental_request)) (\<lambda>r.
     case r of
       Inl e \<Rightarrow> panic ''unwrap of persist_rental_request''
     | Inr _ \<Rightarrow> ret (Inr ())))))))))"

definition execute_rental_request_proposal_inner ::
  "platform \<Rightarrow> principal \<Rightarrow> subnet_rental_proposal_payload \<Rightarrow> (execute_proposal_error + unit) prog" where
  "execute_rental_request_proposal_inner P caller payload =
     (case verify_caller_is_governance P caller of
        Inl e \<Rightarrow> ret (Inl e)
      | Inr _ \<Rightarrow>
          with_guard (srp_user payload, ''request'') (panic ''Fatal: Concurrent call'')
            (bnd (rental_request_checks (srp_user payload) (srp_rental_condition_id payload)) (\<lambda>checked.
             case checked of
               Inl e \<Rightarrow> with_error P (srp_user payload) (srp_proposal_id payload) e
             | Inr c \<Rightarrow> rental_request_payment P payload c)))"

text \<open>
  The update methods reply by hand: \<^verbatim>\<open>msg_reject\<close> with the rendered error is \<open>Inl\<close>,
  \<^verbatim>\<open>msg_reply\<close> of the unit is \<open>Inr\<close>.
\<close>

definition execute_rental_request_proposal ::
  "platform \<Rightarrow> principal \<Rightarrow> subnet_rental_proposal_payload \<Rightarrow> (string + unit) prog" where
  "execute_rental_request_proposal P caller payload =
     bnd (execute_rental_request_proposal_inner P caller payload) (\<lambda>res.
     case res of
       Inl e \<Rightarrow> ret (Inl (''Subnet rental request proposal failed: '' @ debug_execute_error P e))
     | Inr _ \<Rightarrow> ret (Inr ()))"

section \<open>Creating the agreement\<close>

definition create_rental_agreement_body ::
  "platform \<Rightarrow> create_rental_agreement_payload \<Rightarrow> (execute_proposal_error + unit) prog" where
  "create_rental_agreement_body P payload =
     (let user = crp_user payload; subnet_id = crp_subnet_id payload in
     bnd (gets (get_rental_request user)) (\<lambda>request.
     case request of
       None \<Rightarrow> ret (Inl RentalRequestNotFound)
     | Some rental_request \<Rightarrow>
     bnd (gets (get_rental_agreement subnet_id)) (\<lambda>agreement.
     if agreement \<noteq> None then ret (Inl SubnetAlreadyRented) else
     bnd (gets (get_rental_conditions (rr_rental_condition_id rental_request))) (\<lambda>condition.
     case condition of
       None \<Rightarrow> panic ''Fatal: Rental condition not found''
     | Some rental_condition \<Rightarrow>
     let initial_rental_period_nanos =
           rc_initial_rental_period_days rental_condition * SECONDS_PER_DAY * BILLION;
         remaining_icp = tokens_sub P (rr_initial_cost_icp rental_request) (rr_locked_amount_icp rental_request)
     in
     bnd (convert_icp_to_cycles P remaining_icp (subaccount_of P user)) (\<lambda>res.
     case res of
       Inl e \<Rightarrow> ret (Inl e)
     | Inr (block_index, converted_cycles) \<Rightarrow>
     bnd (emit (TransferSuccess remaining_icp block_index) (Some user)) (\<lambda>_.
     let total_cycles_created = saturating_add converted_cycles (rr_locked_amount_cycles rental_request) in
     bnd api_time (\<lambda>now_nanos.
     let rental_agreement =
           \<lparr>ra_user = user,
            ra_rental_request_proposal_id = rr_initial_proposal_id rental_request,
            ra_subnet_creation_proposal_id = Some (crp_proposal_id payload),
            ra_subnet_id = subnet_id,
            ra_rental_condition_id = rr_rental_condition_id rental_request,
            ra_creation_time_nanos = now_nanos,
            ra_paid_until_nanos = now_nanos + initial_rental_period_nanos,
            ra_total_icp_paid = rr_initial_cost_icp rental_request,
            ra_total_cycles_created = total_cycles_created,
            ra_total_cycles_burned = 0\<rparr>
     in
     bnd (set_authorized_subnetwork_list P user subnet_id) (\<lambda>_.
     bnd (update_with (remove_rental_request user)) (\<lambda>removed.
     case removed of
       None \<Rightarrow> panic ''unwrap of remove_rental_request''
     | Some _ \<Rightarrow>
     bnd (update_now (persist_rental_agreement P rental_agreement)) (\<lambda>r.
     case r of
       Inl e \<Rightarrow> panic ''unwrap of persist_rental_agreement''
     | Inr _ \<Rightarrow> ret (Inr ())))))))))))"

definition execute_create_rental_agreement_inner ::
  "platform \<Rightarrow> principal \<Rightarrow> create_rental_agreement_payload \<Rightarrow> (execute_proposal_error + unit) prog" where
  "execute_create_rental_agreement_inner P caller payload =
     (case verify_caller_is_governance P caller of
        Inl e \<Rightarrow> ret (Inl e)
      | Inr _ \<Rightarrow>
          with_guard (crp_user payload, ''request'') (panic ''Fatal: Concurrent call'')
            (with_guard (crp_subnet_id payload, ''nns'') (panic ''Fatal: Concurrent call'')
               (create_rental_agreement_body P payload)))"

definition execute_create_rental_agreement ::
  "platform \<Rightarrow> principal \<Rightarrow> create_rental_agreement_payload \<Rightarrow> (string + unit) prog" where
  "execute_create_rental_agreement P caller payload =
     bnd (execute_create_rental_agreement_inner P caller payload) (\<lambda>res.
     case res of
       Inl e \<Rightarrow> ret (Inl (''Creating rental agreement failed: '' @ debug_execute_error P e))
     | Inr _ \<Rightarrow> ret (Inr ()))"

section \<open>Refunds\<close>

definition refund_body :: "platform \<Rightarrow> principal \<Rightarrow> (string + u64) prog" where
  "refund_body P caller =
     bnd (check_subaccount_balance P (subaccount_of P caller)) (\<lambda>balance.
     if balance < default_fee P
     then ret (Inl (''Failed refund: '' @ show_principal P caller @ '' has insufficient funds '' @ show_tokens P balance))
     else
     let to_be_refunded = tokens_sub P balance (default_fee P) in
     bnd (refund_user P caller to_be_refunded) (\<lambda>res.
     case res of
       Inl e \<Rightarrow> ret (Inl (''Failed to refund '' @ show_tokens P to_be_refunded @ '' ICP to '' @
                   show_principal P caller @ '': '' @ debug_transfer_error P e))
     | Inr block_id \<Rightarrow>
     bnd (emit (TransferSuccess to_be_refunded block_id) (Some caller)) (\<lambda>_.
     bnd (gets (get_rental_request caller)) (\<lambda>request.
     bnd (case request of
            None \<Rightarrow> ret ()
          | Some rental_request \<Rightarrow>
              bnd (cycles_burn P (rr_locked_amount_cycles rental_request)) (\<lambda>_.
              bnd (update_with (remove_rental_request caller)) (\<lambda>removed.
              case removed of
                None \<Rightarrow> panic ''unwrap of remove_rental_request''
              | Some _ \<Rightarrow> emit (RentalRequestCancelled rental_request) (Some caller)))) (\<lambda>_.
     ret (Inr block_id))))))"

definition refund :: "platform \<Rightarrow> principal \<Rightarrow> (string + u64) prog" where
  "refund P caller =
     with_guard (anonymous_id P, ''refund'') (ret (Inl ''Busy processing another request. Try again.''))
       (with_guard (caller, ''request'') (ret (Inl ''Busy processing another request. Try again.''))
         (refund_body P caller))"

section \<open>Safety\<close>

lemma with_error_held:
  assumes "later H a X s0 s"
  shows "wp (src_spec P) (held H) H X s0 (with_error P u i e) n s"
  unfolding with_error_def wp_bnd using assms
  by (rule wp_emitI) (auto simp: wp_ret intro: heldI)

lemma checks_held:
  assumes l: "later H a X s0 s"
    and Q: "\<And>x. (\<forall>c. x = Inr c \<longrightarrow> om_get (rental_requests s) user = None) \<Longrightarrow> Q x X s0 n s"
  shows "wp (src_spec P) Q H X s0 (rental_request_checks user k) n s"
proof -
  obtain c where c: "get_rental_conditions k s = Some c" "rc_subnet_id c = None"
    using wf_condition [OF later_wf [OF l]] by metis
  show ?thesis
    by (auto simp: rental_request_checks_def wp_bnd wp_gets wp_ret c get_rental_request_def intro!: Q)
qed

text \<open>A tenth of the price is a good first locking.\<close>

lemma request_ok_new:
  "request_ok u \<lparr>rr_user = u, rr_initial_cost_icp = t, rr_locked_amount_icp = Tokens (e8s t div 10),
     rr_locked_amount_cycles = c, rr_initial_proposal_id = i, rr_creation_time_nanos = n,
     rr_rental_condition_id = k, rr_last_locking_time_nanos = n\<rparr>"
  by (auto simp: request_ok_def locked_ok_def unat_div intro!: exI [of _ 1])

lemma payment_held:
  assumes l: "later H a X s0 s" and H: "(srp_user payload, ''request'') \<in> H"
    and none: "om_get (rental_requests a) (srp_user payload) = None"
  shows "wp (src_spec P) (held H) H X s0 (rental_request_payment P payload c) n s"
proof -
  let ?u = "srp_user payload"
  have create: "wp (src_spec P) (held H) H X s0
      (bnd (update_now (persist_rental_request P r)) (\<lambda>r.
        case r of Inl e \<Rightarrow> panic ''unwrap of persist_rental_request'' | Inr _ \<Rightarrow> ret (Inr ()))) n s"
    if l: "later H a X s0 s" and r: "request_ok ?u r" "rr_user r = ?u" for X s0 s n r
  proof -
    have "om_get (rental_requests s) ?u = None"
      using l H none by (auto simp: later_def protects_def)
    moreover have "good X s0 (s\<lparr>rental_requests := om_insert ?u r (rental_requests s)\<rparr>)"
      using l H r(1) by (intro good_put_request) (auto simp: later_def)
    then have "held H x X s0 n (persist_event n ev key (s\<lparr>rental_requests := om_insert ?u r (rental_requests s)\<rparr>))" for x ev key
      using l by (intro held_good) (auto simp: later_def good_persist_event)
    ultimately show ?thesis
      by (simp add: wp_bnd wp_update_now wp_ret persist_rental_request_def om_contains_def r(2) Let_def)
  qed
  note err = with_error_held
  show ?thesis
    unfolding rental_request_payment_def Let_def wp_bnd using l
  proof (rule wp_exchange_rateI, goal_cases)
    case 1 show ?case by (simp add: unat_midnight)
  next
    case (2 x X' s0' n' s')
    then show ?case
      apply (auto simp: wp_bnd split: sum.split intro!: err)
      apply (erule wp_balanceI)
      apply (auto simp: wp_bnd intro!: err)
      apply (erule wp_convertI)
      apply (auto simp: wp_bnd split: sum.split intro!: err)
      apply (erule wp_emitI)
      apply (simp add: wp_api_time wp_bnd)
      apply (erule create [unfolded wp_bnd])
      by (simp_all add: request_ok_new)
  qed
qed

lemma execute_rental_request_proposal_inner_safe:
  "message_safe (src_spec P) (execute_rental_request_proposal_inner P caller payload)"
proof (rule message_safeI)
  fix n s assume l: "later {} s (locks s) s s"
  let ?l = "(srp_user payload, ''request'')"
  have body: "wp (src_spec P) (held {?l}) {?l} (locks s) s
      (bnd (rental_request_checks (srp_user payload) (srp_rental_condition_id payload)) (\<lambda>checked.
        case checked of
          Inl e \<Rightarrow> with_error P (srp_user payload) (srp_proposal_id payload) e
        | Inr c \<Rightarrow> rental_request_payment P payload c)) n (lock_id ?l s)"
    if l: "later {?l} (lock_id ?l s) (locks s) s (lock_id ?l s)"
    unfolding wp_bnd using l
    by (rule checks_held) (auto split: sum.split intro: with_error_held [OF l] payment_held [OF l])
  show "wp (src_spec P) (held {}) {} (locks s) s (execute_rental_request_proposal_inner P caller payload) n s"
    using l by (auto simp: execute_rental_request_proposal_inner_def wp_ret wp_panic split: sum.split
        intro: heldI body intro!: wp_guard_held [OF l])
qed

text \<open>What the two guards of \<open>create_rental_agreement_body\<close> keep true across its awaits.\<close>

lemma later_request:
  "later H a X s0 s \<Longrightarrow> (u, ''request'') \<in> H \<Longrightarrow> om_get (rental_requests s) u = om_get (rental_requests a) u"
  by (auto simp: later_def protects_def)

lemma later_unrented:
  "later H a X s0 s \<Longrightarrow> (p, ''nns'') \<in> H \<Longrightarrow> om_get (rental_agreements a) p = None \<Longrightarrow>
    om_get (rental_agreements s) p = None"
  by (auto simp: later_def protects_def)

lemma persist_agreement_held:
  assumes l: "later H a X s0 s" and H: "(u, ''request'') \<in> H" "(p, ''nns'') \<in> H"
    and a: "om_get (rental_agreements a) p = None"
    and ra: "ra_subnet_id ra = p" "ra_total_cycles_burned ra = 0"
  shows "wp (src_spec P) (held H) H X s0
    (bnd (update_now (persist_rental_agreement P ra)) (\<lambda>r.
       case r of Inl e \<Rightarrow> panic ''unwrap of persist_rental_agreement'' | Inr _ \<Rightarrow> ret (Inr ()))) n
    (s\<lparr>rental_requests := om_remove u (rental_requests s)\<rparr>)"
proof -
  let ?s = "s\<lparr>rental_requests := om_remove u (rental_requests s)\<rparr>"
  have none: "om_get (rental_agreements ?s) p = None"
    using later_unrented [OF l H(2) a] by simp
  have "good X s0 ?s"
    using l H(1) by (intro good_del_request) (auto simp: later_def)
  then have "good X s0 (?s\<lparr>rental_agreements := om_insert p ra (rental_agreements ?s)\<rparr>)"
    using l H(2) none ra by (intro good_new_agreement) (auto simp: later_def agreement_ok_def)
  then have "held H x X s0 n (persist_event n ev key (?s\<lparr>rental_agreements := om_insert p ra (rental_agreements ?s)\<rparr>))" for x ev key
    using l by (intro held_good) (auto simp: later_def good_persist_event)
  then show ?thesis
    using none by (simp add: wp_bnd wp_update_now wp_ret persist_rental_agreement_def om_contains_def ra Let_def)
qed

lemma create_body_held:
  assumes l: "later H s X s0 s"
    and H: "(crp_user payload, ''request'') \<in> H" "(crp_subnet_id payload, ''nns'') \<in> H"
  shows "wp (src_spec P) (held H) H X s0 (create_rental_agreement_body P payload) n s"
proof (cases "get_rental_request (crp_user payload) s")
  case None
  with l show ?thesis by (auto simp: create_rental_agreement_body_def Let_def wp_bnd wp_gets wp_ret intro: heldI)
next
  case (Some r)
  obtain c where c: "get_rental_conditions (rr_rental_condition_id r) s = Some c"
    using wf_condition [OF later_wf [OF l]] by metis
  show ?thesis
  proof (cases "get_rental_agreement (crp_subnet_id payload) s = None")
    case True
    then have none: "om_get (rental_agreements s) (crp_subnet_id payload) = None"
      by (simp add: get_rental_agreement_def)
    have req: "om_get (rental_requests s') (crp_user payload) = Some r" if "later H s X' s0' s'" for X' s0' s'
      using later_request [OF that H(1)] Some by (simp add: get_rental_request_def)
    show ?thesis
      unfolding create_rental_agreement_body_def Let_def wp_bnd wp_gets Some option.case True simp_thms if_False c
      using l
    proof (rule wp_convertI, goal_cases)
      case (1 x X' n' s')
      show ?case
      proof (cases x)
        case (Inl e)
        with 1 show ?thesis by (auto simp: wp_ret intro: heldI)
      next
        case (Inr q)
        obtain block cyc where q: "q = (block, cyc)" by fastforce
        show ?thesis
          unfolding Inr q sum.case prod.case wp_bnd
          using 1
        proof (rule wp_emitI, goal_cases)
          case (1 s'')
          show ?case
            unfolding wp_api_time set_authorized_subnetwork_list_def wp_bnd
          proof (rule wp_awaitI [OF 1(1)], goal_cases)
            case 1
            show ?case using req [OF \<open>later H s X' s' s''\<close>] later_unrented [OF \<open>later H s X' s' s''\<close> H(2) none] by simp
          next
            case (2 r' X'' n'' s3)
            have rm: "fst (remove_rental_request (crp_user payload) s3) = Some r"
              "snd (remove_rental_request (crp_user payload) s3)
                = s3\<lparr>rental_requests := om_remove (crp_user payload) (rental_requests s3)\<rparr>"
              using req [OF 2(1)] by (simp_all add: remove_rental_request_def)
            show ?case
              by (cases r'; simp only: reply.case wp_panic tolerated wp_ret wp_update_with rm option.case;
                  rule persist_agreement_held [OF 2(1) H none]; simp)
          qed
        qed
      qed
    qed
  next
    case False
    with l Some show ?thesis
      by (auto simp: create_rental_agreement_body_def Let_def wp_bnd wp_gets wp_ret intro: heldI)
  qed
qed

lemma execute_create_rental_agreement_inner_safe:
  "message_safe (src_spec P) (execute_create_rental_agreement_inner P caller payload)"
proof (rule message_safeI)
  fix n s assume l: "later {} s (locks s) s s"
  let ?b = "with_guard (crp_subnet_id payload, ''nns'') (panic ''Fatal: Concurrent call'')
               (create_rental_agreement_body P payload)"
  have "wp (src_spec P) (held H) H X s0 ?b n s"
    if "later H s X s0 s" "(crp_user payload, ''request'') \<in> H" for H X s0 s
    using that(1) by (rule wp_guard_held) (auto simp: wp_panic that(2) intro: create_body_held)
  then show "wp (src_spec P) (held {}) {} (locks s) s (execute_create_rental_agreement_inner P caller payload) n s"
    using l by (auto simp: execute_create_rental_agreement_inner_def wp_ret wp_panic split: sum.split
        intro: heldI intro!: wp_guard_held [OF l])
qed

text \<open>Replying to the proposal call changes nothing.\<close>

lemma message_safe_map:
  assumes "message_safe (src_spec P) m" and "\<And>x. \<exists>y. f x = ret y"
  shows "message_safe (src_spec P) (bnd m f)"
  unfolding message_safe_def
proof (intro allI impI)
  fix n s assume "sp_inv (src_spec P) s"
  with assms(1) have "wp (src_spec P) (finish (src_spec P)) {} (locks s) s m n s"
    by (simp add: message_safe_def)
  then show "wp (src_spec P) (finish (src_spec P)) {} (locks s) s (bnd m f) n s"
    by (rule wp_seq) (metis assms(2) finish_def wp_ret)
qed

lemma execute_rental_request_proposal_safe:
  "message_safe (src_spec P) (execute_rental_request_proposal P caller payload)"
  unfolding execute_rental_request_proposal_def
  by (rule message_safe_map [OF execute_rental_request_proposal_inner_safe]) (auto split: sum.split)

lemma execute_create_rental_agreement_safe:
  "message_safe (src_spec P) (execute_create_rental_agreement P caller payload)"
  unfolding execute_create_rental_agreement_def
  by (rule message_safe_map [OF execute_create_rental_agreement_inner_safe]) (auto split: sum.split)

lemma refund_body_held:
  assumes l: "later H a X s0 s" and H: "(caller, ''request'') \<in> H"
  shows "wp (src_spec P) (held H) H X s0 (refund_body P caller) n s"
proof -
  have cancel: "wp (src_spec P) (held H) H X s0
     (bnd (gets (get_rental_request caller)) (\<lambda>request.
      bnd (case request of
            None \<Rightarrow> ret ()
          | Some r \<Rightarrow>
              bnd (cycles_burn P (rr_locked_amount_cycles r)) (\<lambda>_.
              bnd (update_with (remove_rental_request caller)) (\<lambda>removed.
              case removed of
                None \<Rightarrow> panic ''unwrap of remove_rental_request''
              | Some _ \<Rightarrow> emit (RentalRequestCancelled r) (Some caller)))) (\<lambda>_.
      ret (Inr b)))) n s" if l: "later H a X s0 s" for X s0 n s and b :: u64
  proof (cases "om_get (rental_requests s) caller")
    case None
    with l show ?thesis by (auto simp: wp_bnd wp_gets wp_ret get_rental_request_def intro: heldI)
  next
    case (Some r)
    have "good X s0 (s\<lparr>burn_log := bl, rental_requests := om_remove caller (rental_requests s)\<rparr>)" for bl
      using l H good_del_request [OF good_burn_log, of X s0 s caller bl] by (auto simp: later_def)
    then have "held H x X s0 n
      (persist_event n ev key (s\<lparr>burn_log := bl, rental_requests := om_remove caller (rental_requests s)\<rparr>))" for x ev key bl
      using l by (intro held_good) (auto simp: later_def good_persist_event)
    with Some show ?thesis
      by (simp add: wp_bnd wp_gets wp_ret get_rental_request_def cycles_burn_def wp_update_with Let_def
          remove_rental_request_def emit_def wp_update_now)
  qed
  show ?thesis
    unfolding refund_body_def Let_def wp_bnd using l
  proof (rule wp_balanceI, goal_cases)
    case (1 x X' n' s')
    show ?case
    proof (cases "x < default_fee P")
      case True
      with 1 show ?thesis by (auto simp: wp_ret intro: heldI)
    next
      case False
      show ?thesis
        unfolding if_not_P [OF False] wp_bnd using 1
      proof (rule wp_refund_userI, goal_cases)
        case (1 y X' n' s')
        show ?case
        proof (cases y)
          case (Inl e)
          with 1 show ?thesis by (auto simp: wp_ret intro: heldI)
        next
          case (Inr b)
          show ?thesis
            unfolding Inr sum.case wp_bnd using 1 by (rule wp_emitI) (erule cancel [unfolded wp_bnd])
        qed
      qed
    qed
  qed
qed

lemma refund_safe: "message_safe (src_spec P) (refund P caller)"
proof (rule message_safeI)
  fix n s assume l: "later {} s (locks s) s s"
  let ?busy = "ret (Inl ''Busy processing another request. Try again.'') :: (string + u64) prog"
  have "wp (src_spec P) (held H) H X s0
      (with_guard (caller, ''request'') ?busy (refund_body P caller)) n s"
    if "later H s X s0 s" for H X s0 s
    using that by (rule wp_guard_held) (auto simp: wp_ret intro: heldI that refund_body_held)
  then show "wp (src_spec P) (held {}) {} (locks s) s (refund P caller) n s"
    unfolding refund_def using l by (auto simp: wp_ret intro: heldI intro!: wp_guard_held [OF l])
qed

section \<open>What the proposals do\<close>

text \<open>The entry checks in terms of the maps: the first of them that fails decides the error.\<close>

lemma any_agreement_of:
  "list_ex (\<lambda>p. ra_user (snd p) = u) (om_entries m) \<longleftrightarrow> (\<exists>p a. om_get m p = Some a \<and> ra_user a = u)"
  unfolding list_ex_iff by (rule om.any_entry)

lemma any_request_for:
  "list_ex (\<lambda>p. rr_rental_condition_id (snd p) = k) (om_entries m) \<longleftrightarrow>
    (\<exists>u r. om_get m u = Some r \<and> rr_rental_condition_id r = k)"
  unfolding list_ex_iff by (rule om.any_entry)

lemma rental_request_checks_eq:
  assumes "conditions s k = Some c" and "rc_subnet_id c = None"
  shows "rental_request_checks u k n s = Done
    (if om_get (rental_requests s) u \<noteq> None then Inl UserAlreadyRequestingSubnetRental
     else if \<exists>p a. om_get (rental_agreements s) p = Some a \<and> ra_user a = u then Inl UserAlreadyHasAgreement
     else if \<exists>u r. om_get (rental_requests s) u = Some r \<and> rr_rental_condition_id r = k then Inl SubnetAlreadyRequested
     else Inr c) s"
proof -
  define rents where "rents \<longleftrightarrow> (\<exists>p a. om_get (rental_agreements s) p = Some a \<and> ra_user a = u)"
  define asked where "asked \<longleftrightarrow> (\<exists>u r. om_get (rental_requests s) u = Some r \<and> rr_rental_condition_id r = k)"
  show ?thesis
    unfolding rents_def [symmetric] asked_def [symmetric] using assms
    by (simp add: rental_request_checks_def exec_simps get_rental_request_def iter_rental_agreements_def
        iter_rental_requests_def get_rental_conditions_def any_agreement_of any_request_for
        rents_def [symmetric] asked_def [symmetric])
qed

definition granted_request :: "subnet_rental_proposal_payload \<Rightarrow> tokens \<Rightarrow> u128 \<Rightarrow> u64 \<Rightarrow> rental_request" where
  "granted_request payload price cycles now =
     \<lparr>rr_user = srp_user payload, rr_initial_cost_icp = price, rr_locked_amount_icp = Tokens (e8s price div 10),
      rr_locked_amount_cycles = cycles, rr_initial_proposal_id = srp_proposal_id payload,
      rr_creation_time_nanos = now, rr_rental_condition_id = srp_rental_condition_id payload,
      rr_last_locking_time_nanos = now\<rparr>"

definition demo_proposal :: subnet_rental_proposal_payload where
  "demo_proposal = \<lparr>srp_user = Principal [9], srp_rental_condition_id = App13CH, srp_proposal_id = 1,
     srp_proposal_creation_time_seconds = 5\<rparr>"

text \<open>
  C9: an accepted rental proposal of a user with enough ICP, whose rate is cached for the midnight
  before the proposal or else is answered by the exchange rate canister, makes exactly these calls:
  the rate if it is not cached, the balance, the transfer of a tenth of the price to the canister's
  top-up account, and the minting. It stores the request with price, tenth and minted cycles, logs
  both steps for the user, caches the rate, and changes nothing else. The guards: nobody holds the
  user's request, the user has no request and no agreement, nobody has requested the conditions,
  which name no subnet (as the initial ones), the price is computable, the log has room.
\<close>

theorem rental_request_granted:
  fixes P payload s
  defines "u \<equiv> srp_user payload" and "k \<equiv> srp_rental_condition_id payload"
    and "midnight \<equiv> round_to_previous_midnight (srp_proposal_creation_time_seconds payload)"
  assumes free: "(u, ''request'') \<notin> locks s"
    and new: "om_get (rental_requests s) u = None"
      "\<nexists>p a. om_get (rental_agreements s) p = Some a \<and> ra_user a = u"
      "\<nexists>u r. om_get (rental_requests s) u = Some r \<and> rr_rental_condition_id r = k"
    and c: "conditions s k = Some c" "rc_subnet_id c = None"
    and rate: "get_cached_rate midnight s = Some (rate, decimals) \<and> asked = [] \<and> told = [] \<or>
      get_cached_rate midnight s = None \<and> principal_from_text P ''uf6dk-hyaaa-aaaaq-qaaaq-cai'' = Some xrc \<and>
        rate = er_rate er \<and> decimals = erm_decimals (er_metadata er) \<and>
        asked = [CallGetExchangeRate xrc (exchange_rate_request midnight) 1000000000] \<and> told = [(ReplyRate (Inr er), n0)]"
    and price: "calculate_subnet_price (rc_daily_cost_cycles c) (rc_initial_rental_period_days c) rate decimals = Inr price"
    and funds: "price \<le> balance"
    and room: "has_room (Some u) 2 s"
  shows "\<exists>s'. run (told @ [(ReplyBalance balance, n1), (ReplyTransfer (Inr block), n2), (ReplyNotify (Inr cycles), n3)])
        (execute_rental_request_proposal P (governance_id P) payload n s) = Done (Inr ()) s' \<and>
     calls (told @ [(ReplyBalance balance, n1), (ReplyTransfer (Inr block), n2), (ReplyNotify (Inr cycles), n3)])
        (execute_rental_request_proposal P (governance_id P) payload n s) = asked @
       [CallAccountBalance (ledger_id P) (account_of P (self_id P) (subaccount_of P u)),
        CallLedgerTransfer (ledger_id P)
          \<lparr>ta_to = account_of P (cmc_id P) (subaccount_of P (self_id P)), ta_fee = default_fee P,
           ta_from_subaccount = Some (subaccount_of P u),
           ta_amount = tokens_sub P (Tokens (e8s price div 10)) (default_fee P),
           ta_memo = MEMO_TOP_UP_CANISTER, ta_created_at_time = None\<rparr>,
        CallNotifyTopUp (cmc_id P) \<lparr>nta_block_index = block, nta_canister_id = self_id P\<rparr>] \<and>
     om_get (rental_requests s') = (om_get (rental_requests s))(u \<mapsto> granted_request payload price cycles n3) \<and>
     log_of (Some u) s' = log_of (Some u) s @
       [event_of_type n3 (TransferSuccess (Tokens (e8s price div 10)) block),
        event_of_type n3 (RentalRequestCreated (granted_request payload price cycles n3))] \<and>
     om_get (rates s') = (om_get (rates s))(midnight \<mapsto> (rate, decimals)) \<and>
     (\<forall>k. k \<noteq> Some u \<longrightarrow> log_of k s' = log_of k s) \<and>
     rental_agreements s' = rental_agreements s \<and> conditions s' = conditions s \<and>
     burn_log s' = burn_log s \<and> locks s' = locks s"
proof -
  note defs = execute_rental_request_proposal_def execute_rental_request_proposal_inner_def
      verify_caller_is_governance_def rental_request_payment_def get_exchange_rate_icp_per_xdr_at_time_def
      get_exchange_rate_canister_id_def exec_simps Let_def
      check_subaccount_balance_def convert_icp_to_cycles_def transfer_to_cmc_def ledger_transfer_def
      notify_top_up_def emit_def persist_rental_request_def om_contains_def get_cached_rate_def
      granted_request_def log_simps
  have "has_room (Some u) (Suc (Suc 0)) s" "has_room (Some u) (Suc 0) s"
    using room by (auto elim: has_room_mono)
  moreover have "rental_request_checks u k n (lock_id (u, ''request'') s) = Done (Inr c) (lock_id (u, ''request'') s)"
    using new by (simp add: rental_request_checks_eq [OF _ c(2)] c(1))
  ultimately show ?thesis
    using rate
  proof (elim disjE conjE, goal_cases)
    case 1
    then show ?case
      using free price funds [folded not_less] new(1) unfolding u_def k_def midnight_def
      by (simp add: defs fun_upd_idem)
  next
    case 2
    then show ?case
      using free price funds [folded not_less] new(1) unfolding u_def k_def midnight_def
      by (simp add: defs cache_rate_def)
  qed
qed

text \<open>A proposal of another day, whose rate is not cached, and the answer to its question.\<close>

definition demo_late_proposal :: subnet_rental_proposal_payload where
  "demo_late_proposal = demo_proposal\<lparr>srp_proposal_creation_time_seconds := 86405\<rparr>"

definition demo_rate :: exchange_rate where
  "demo_rate = \<lparr>er_base_asset = \<lparr>as_class = Cryptocurrency, as_symbol = ''ICP''\<rparr>,
     er_quote_asset = \<lparr>as_class = FiatCurrency, as_symbol = ''CXDR''\<rparr>, er_timestamp = 86400, er_rate = 3497900000,
     er_metadata = \<lparr>erm_decimals = 9, erm_base_asset_num_queried_sources = 7, erm_base_asset_num_received_rates = 5,
       erm_quote_asset_num_queried_sources = 10, erm_quote_asset_num_received_rates = 4, erm_standard_deviation = 0,
       erm_forex_timestamp = None\<rparr>\<rparr>"

theorem rental_request_granted_witness:
  "(\<exists>s'. run [(ReplyBalance (Tokens 5000000000000), 1), (ReplyTransfer (Inr 7), 2), (ReplyNotify (Inr 500), 3)]
      (execute_rental_request_proposal demo_platform (governance_id demo_platform) demo_proposal 0 demo_state) =
      Done (Inr ()) s' \<and>
    om_get (rental_requests s') (Principal [9]) = Some (granted_request demo_proposal (Tokens 4219674661940) 500 3)) \<and>
   (\<exists>s'. run [(ReplyRate (Inr demo_rate), 0), (ReplyBalance (Tokens 5000000000000), 1), (ReplyTransfer (Inr 7), 2),
       (ReplyNotify (Inr 500), 3)]
      (execute_rental_request_proposal demo_platform (governance_id demo_platform) demo_late_proposal 0 demo_state) =
      Done (Inr ()) s' \<and> om_get (rates s') 86400 = Some (3497900000, 9))"
proof
  have price: "calculate_subnet_price (rc_daily_cost_cycles demo_condition) (rc_initial_rental_period_days demo_condition)
      3497900000 9 = Inr (Tokens 4219674661940)" by (simp add: demo_price)
  from rental_request_granted [where P = demo_platform and payload = demo_proposal and s = demo_state
      and balance = "Tokens 5000000000000" and ?n1.0 = 1 and block = 7 and ?n2.0 = 2 and cycles = 500 and ?n3.0 = 3
      and n = 0 and asked = "[]" and told = "[]", OF _ _ _ _ _ _ _ price]
  show "\<exists>s'. run [(ReplyBalance (Tokens 5000000000000), 1), (ReplyTransfer (Inr 7), 2), (ReplyNotify (Inr 500), 3)]
      (execute_rental_request_proposal demo_platform (governance_id demo_platform) demo_proposal 0 demo_state) =
      Done (Inr ()) s' \<and>
    om_get (rental_requests s') (Principal [9]) = Some (granted_request demo_proposal (Tokens 4219674661940) 500 3)"
    by (force simp: demo_proposal_def get_cached_rate_def less_eq_tokens_def)
  obtain xrc where xrc: "principal_from_text demo_platform ''uf6dk-hyaaa-aaaaq-qaaaq-cai'' = Some xrc"
    by (simp add: demo_platform_def)
  have midnight: "round_to_previous_midnight 86405 = 86400" by (simp add: round_to_previous_midnight_def)
  from rental_request_granted [where P = demo_platform and payload = demo_late_proposal and s = demo_state
      and balance = "Tokens 5000000000000" and ?n1.0 = 1 and block = 7 and ?n2.0 = 2 and cycles = 500 and ?n3.0 = 3
      and n = 0 and xrc = xrc and er = demo_rate
      and asked = "[CallGetExchangeRate xrc (exchange_rate_request 86400) 1000000000]"
      and told = "[(ReplyRate (Inr demo_rate), 0)]" and ?n0.0 = 0, OF _ _ _ _ _ _ _ price]
  show "\<exists>s'. run [(ReplyRate (Inr demo_rate), 0), (ReplyBalance (Tokens 5000000000000), 1), (ReplyTransfer (Inr 7), 2),
       (ReplyNotify (Inr 500), 3)]
      (execute_rental_request_proposal demo_platform (governance_id demo_platform) demo_late_proposal 0 demo_state) =
      Done (Inr ()) s' \<and> om_get (rates s') 86400 = Some (3497900000, 9)"
    using xrc by (force simp: demo_late_proposal_def demo_proposal_def get_cached_rate_def less_eq_tokens_def
        midnight demo_rate_def)
qed

text \<open>
  C21: a rental proposal from any caller but the governance canister, whatever it proposes, is
  rejected with \<open>UnauthorizedCaller\<close> and changes and logs nothing. One that arrives while the
  user's request is in use panics. One of the governance canister whose user has a request or else
  an agreement, or else whose conditions are requested already, makes no call, is answered with that
  error, logs the failure for the user, and changes nothing else (the conditions name no subnet, as
  the initial ones, and the log has room).
\<close>

theorem rental_request_refused:
  fixes P payload s
  defines "u \<equiv> srp_user payload" and "k \<equiv> srp_rental_condition_id payload"
  shows "(caller \<noteq> governance_id P \<longrightarrow> execute_rental_request_proposal P caller payload n s =
      Done (Inl (''Subnet rental request proposal failed: '' @ debug_execute_error P UnauthorizedCaller)) s) \<and>
    ((u, ''request'') \<in> locks s \<longrightarrow>
      execute_rental_request_proposal P (governance_id P) payload n s = Trapped ''Fatal: Concurrent call'') \<and>
    (\<forall>c e. (u, ''request'') \<notin> locks s \<and> has_room (Some u) 1 s \<and> conditions s k = Some c \<and> rc_subnet_id c = None \<and>
      (om_get (rental_requests s) u \<noteq> None \<and> e = UserAlreadyRequestingSubnetRental \<or>
       om_get (rental_requests s) u = None \<and>
         (\<exists>p a. om_get (rental_agreements s) p = Some a \<and> ra_user a = u) \<and> e = UserAlreadyHasAgreement \<or>
       om_get (rental_requests s) u = None \<and>
         (\<nexists>p a. om_get (rental_agreements s) p = Some a \<and> ra_user a = u) \<and>
         (\<exists>u' r. om_get (rental_requests s) u' = Some r \<and> rr_rental_condition_id r = k) \<and> e = SubnetAlreadyRequested) \<longrightarrow>
      (\<exists>s'. execute_rental_request_proposal P (governance_id P) payload n s =
          Done (Inl (''Subnet rental request proposal failed: '' @ debug_execute_error P e)) s' \<and>
        log_of (Some u) s' = log_of (Some u) s @
          [event_of_type n (RentalRequestFailed u (srp_proposal_id payload) (debug_execute_error P e))] \<and>
        (\<forall>k. k \<noteq> Some u \<longrightarrow> log_of k s' = log_of k s) \<and>
        rental_requests s' = rental_requests s \<and> rental_agreements s' = rental_agreements s \<and>
        conditions s' = conditions s \<and> rates s' = rates s \<and> burn_log s' = burn_log s \<and> locks s' = locks s))"
proof (intro conjI impI allI, goal_cases)
  case 1
  then show ?case
    by (simp add: execute_rental_request_proposal_def execute_rental_request_proposal_inner_def
      verify_caller_is_governance_def exec_simps)
next
  case 2
  then show ?case
    by (simp add: execute_rental_request_proposal_def execute_rental_request_proposal_inner_def
      verify_caller_is_governance_def exec_simps u_def)
next
  case (3 c e)
  then have room: "has_room (Some u) (Suc 0) s" and free: "(u, ''request'') \<notin> locks s"
    and c: "conditions (lock_id (u, ''request'') s) k = Some c" "rc_subnet_id c = None" by simp_all
  have "rental_request_checks u k n (lock_id (u, ''request'') s) = Done (Inl e) (lock_id (u, ''request'') s)"
    using 3 by (subst rental_request_checks_eq [OF c]) auto
  then show ?case
    using free room unfolding u_def k_def
    by (simp add: execute_rental_request_proposal_def execute_rental_request_proposal_inner_def
      verify_caller_is_governance_def with_error_def emit_def exec_simps log_simps)
qed

theorem rental_request_refused_witness:
  "(\<exists>s'. execute_rental_request_proposal demo_platform (governance_id demo_platform) demo_proposal 0 demo_requested =
     Done (Inl (''Subnet rental request proposal failed: '' @
       debug_execute_error demo_platform UserAlreadyRequestingSubnetRental)) s' \<and>
     rental_requests s' = rental_requests demo_requested) \<and>
   execute_rental_request_proposal demo_platform (Principal [9]) demo_proposal 0 demo_state =
     Done (Inl (''Subnet rental request proposal failed: '' @ debug_execute_error demo_platform UnauthorizedCaller)) demo_state"
proof
  have h: "(srp_user demo_proposal, ''request'') \<notin> locks demo_requested \<and> has_room (Some (srp_user demo_proposal)) 1 demo_requested \<and>
      conditions demo_requested (srp_rental_condition_id demo_proposal) = Some demo_condition \<and>
      rc_subnet_id demo_condition = None \<and> om_get (rental_requests demo_requested) (srp_user demo_proposal) \<noteq> None"
    by (simp add: demo_proposal_def)
  show "\<exists>s'. execute_rental_request_proposal demo_platform (governance_id demo_platform) demo_proposal 0 demo_requested =
     Done (Inl (''Subnet rental request proposal failed: '' @
       debug_execute_error demo_platform UserAlreadyRequestingSubnetRental)) s' \<and>
     rental_requests s' = rental_requests demo_requested"
    using rental_request_refused [where P = demo_platform and payload = demo_proposal and n = 0 and s = demo_requested, THEN conjunct2, THEN conjunct2,
        THEN spec, THEN spec, of demo_condition UserAlreadyRequestingSubnetRental] h by blast
  show "execute_rental_request_proposal demo_platform (Principal [9]) demo_proposal 0 demo_state =
     Done (Inl (''Subnet rental request proposal failed: '' @ debug_execute_error demo_platform UnauthorizedCaller)) demo_state"
    using rental_request_refused [where caller = "Principal [9]" and P = demo_platform and payload = demo_proposal and n = 0 and s = demo_state]
    by (simp add: demo_platform_def)
qed

definition new_agreement ::
  "create_rental_agreement_payload \<Rightarrow> rental_request \<Rightarrow> rental_conditions \<Rightarrow> u128 \<Rightarrow> u64 \<Rightarrow> rental_agreement" where
  "new_agreement payload r c cycles now =
     \<lparr>ra_user = crp_user payload, ra_rental_request_proposal_id = rr_initial_proposal_id r,
      ra_subnet_creation_proposal_id = Some (crp_proposal_id payload), ra_subnet_id = crp_subnet_id payload,
      ra_rental_condition_id = rr_rental_condition_id r, ra_creation_time_nanos = now,
      ra_paid_until_nanos = now + rc_initial_rental_period_days c * SECONDS_PER_DAY * BILLION,
      ra_total_icp_paid = rr_initial_cost_icp r,
      ra_total_cycles_created = saturating_add cycles (rr_locked_amount_cycles r),
      ra_total_cycles_burned = 0\<rparr>"

definition demo_creation :: create_rental_agreement_payload where
  "demo_creation = \<lparr>crp_user = Principal [9], crp_proposal_id = 2, crp_subnet_id = Principal [7]\<rparr>"

text \<open>
  C10: creating an agreement converts the remaining ICP, authorises the user on the subnet,
  removes the request, and stores the agreement: paid from now on for the initial period, with
  the locked and the new cycles added up. The user's log gets the transfer, the subnet's log (the
  subnet's principal is not the user's) the new agreement; nothing else changes.
\<close>

theorem agreement_created:
  fixes P payload s
  defines "u \<equiv> crp_user payload" and "p \<equiv> crp_subnet_id payload"
  assumes free: "(u, ''request'') \<notin> locks s" "(p, ''nns'') \<notin> locks s"
    and req: "om_get (rental_requests s) u = Some r"
    and unrented: "om_get (rental_agreements s) p = None"
    and c: "conditions s (rr_rental_condition_id r) = Some c"
    and room: "has_room (Some u) 1 s" and "u \<noteq> p" and room': "has_room (Some p) 1 s"
  shows "\<exists>s'. run [(ReplyTransfer (Inr block), n1), (ReplyNotify (Inr cycles), n2), (ReplyUnit, n3)]
        (execute_create_rental_agreement P (governance_id P) payload n s) = Done (Inr ()) s' \<and>
     calls [(ReplyTransfer (Inr block), n1), (ReplyNotify (Inr cycles), n2), (ReplyUnit, n3)]
        (execute_create_rental_agreement P (governance_id P) payload n s) =
       [CallLedgerTransfer (ledger_id P)
          \<lparr>ta_to = account_of P (cmc_id P) (subaccount_of P (self_id P)), ta_fee = default_fee P,
           ta_from_subaccount = Some (subaccount_of P u),
           ta_amount = tokens_sub P (tokens_sub P (rr_initial_cost_icp r) (rr_locked_amount_icp r)) (default_fee P),
           ta_memo = MEMO_TOP_UP_CANISTER, ta_created_at_time = None\<rparr>,
        CallNotifyTopUp (cmc_id P) \<lparr>nta_block_index = block, nta_canister_id = self_id P\<rparr>,
        CallSetAuthorizedSubnetworkList (cmc_id P) \<lparr>sal_who = Some u, sal_subnets = [p]\<rparr>] \<and>
     om_get (rental_requests s') = (om_get (rental_requests s))(u := None) \<and>
     om_get (rental_agreements s') = (om_get (rental_agreements s))(p \<mapsto> new_agreement payload r c cycles n2) \<and>
     log_of (Some u) s' = log_of (Some u) s @
       [event_of_type n2 (TransferSuccess (tokens_sub P (rr_initial_cost_icp r) (rr_locked_amount_icp r)) block)] \<and>
     log_of (Some p) s' = log_of (Some p) s @
       [event_of_type n3 (RentalAgreementCreated u (rr_initial_proposal_id r) (Some (crp_proposal_id payload))
          (rr_rental_condition_id r))] \<and>
     (\<forall>k. k \<noteq> Some u \<longrightarrow> k \<noteq> Some p \<longrightarrow> log_of k s' = log_of k s) \<and>
     conditions s' = conditions s \<and> rates s' = rates s \<and> burn_log s' = burn_log s \<and> locks s' = locks s"
proof -
  have "has_room (Some u) (Suc 0) s" "has_room (Some p) (Suc 0) s"
    using room room' by auto
  then show ?thesis
    using free req unrented c \<open>u \<noteq> p\<close> unfolding u_def p_def
    by (simp add: execute_create_rental_agreement_def execute_create_rental_agreement_inner_def
      verify_caller_is_governance_def create_rental_agreement_body_def Let_def get_rental_request_def
      get_rental_agreement_def get_rental_conditions_def exec_simps
      convert_icp_to_cycles_def transfer_to_cmc_def ledger_transfer_def set_authorized_subnetwork_list_def
      notify_top_up_def emit_def persist_rental_agreement_def remove_rental_request_def om_contains_def
      new_agreement_def log_simps)
qed

theorem agreement_created_witness:
  "\<exists>s'. run [(ReplyTransfer (Inr 7), 1), (ReplyNotify (Inr 4500), 2), (ReplyUnit, 3)]
      (execute_create_rental_agreement demo_platform (governance_id demo_platform) demo_creation 0 demo_requested) =
      Done (Inr ()) s' \<and>
    om_get (rental_requests s') (Principal [9]) = None \<and>
    om_get (rental_agreements s') (Principal [7]) = Some (new_agreement demo_creation demo_request demo_condition 4500 2)"
  using agreement_created [where P = demo_platform and payload = demo_creation and s = demo_requested
      and n = 0 and r = demo_request and c = demo_condition and block = 7 and ?n1.0 = 1 and cycles = 4500
      and ?n2.0 = 2 and ?n3.0 = 3]
  by (force simp: demo_creation_def demo_request_def)

text \<open>
  C22: any caller but the governance canister, whatever the request and the subnet are, is rejected
  with \<open>UnauthorizedCaller\<close>; without a request of the user, or else for a subnet that is rented, the
  governance canister is answered with that error. In all these cases nothing is called and nothing
  changes. While the user's request or the subnet is in use the call panics.
\<close>

theorem create_refused:
  fixes P payload s
  defines "u \<equiv> crp_user payload" and "p \<equiv> crp_subnet_id payload"
  shows "(caller \<noteq> governance_id P \<longrightarrow> execute_create_rental_agreement P caller payload n s =
      Done (Inl (''Creating rental agreement failed: '' @ debug_execute_error P UnauthorizedCaller)) s) \<and>
    ((u, ''request'') \<in> locks s \<or> (p, ''nns'') \<in> locks s \<longrightarrow>
      execute_create_rental_agreement P (governance_id P) payload n s = Trapped ''Fatal: Concurrent call'') \<and>
    ((u, ''request'') \<notin> locks s \<and> (p, ''nns'') \<notin> locks s \<and>
      (om_get (rental_requests s) u = None \<and> e = RentalRequestNotFound \<or>
       om_get (rental_requests s) u \<noteq> None \<and> om_get (rental_agreements s) p \<noteq> None \<and> e = SubnetAlreadyRented) \<longrightarrow>
      execute_create_rental_agreement P (governance_id P) payload n s =
        Done (Inl (''Creating rental agreement failed: '' @ debug_execute_error P e)) s)"
  unfolding u_def p_def
  by (auto simp: execute_create_rental_agreement_def execute_create_rental_agreement_inner_def Let_def
      verify_caller_is_governance_def create_rental_agreement_body_def get_rental_request_def
      get_rental_agreement_def exec_simps)

theorem create_refused_witness:
  "execute_create_rental_agreement demo_platform (governance_id demo_platform) demo_creation 0 demo_state =
     Done (Inl (''Creating rental agreement failed: '' @ debug_execute_error demo_platform RentalRequestNotFound)) demo_state \<and>
   execute_create_rental_agreement demo_platform (Principal [9]) demo_creation 0 demo_requested =
     Done (Inl (''Creating rental agreement failed: '' @ debug_execute_error demo_platform UnauthorizedCaller)) demo_requested"
  using create_refused [where caller = "Principal [9]" and P = demo_platform and payload = demo_creation and n = 0
      and s = demo_state and e = RentalRequestNotFound]
    create_refused [where caller = "Principal [9]" and P = demo_platform and payload = demo_creation and n = 0
      and s = demo_requested]
  by (simp add: demo_creation_def) (simp add: demo_platform_def)

text \<open>
  C37: when ten tenths of the price are locked, less than ten e8s are left to convert, so
  creating the agreement asks the ledger for a transfer of zero ICP and still pays the fee.
\<close>

theorem fully_locked_create_transfers_nothing:
  assumes P: "tokens_saturate P" and fee: "10 \<le> unat (e8s (default_fee P))"
    and free: "(crp_user payload, ''request'') \<notin> locks s" "(crp_subnet_id payload, ''nns'') \<notin> locks s"
    and req: "om_get (rental_requests s) (crp_user payload) = Some r"
    and full: "10 * (unat (e8s (rr_initial_cost_icp r)) div 10) \<le> unat (e8s (rr_locked_amount_icp r))"
    and unrented: "om_get (rental_agreements s) (crp_subnet_id payload) = None"
    and c: "conditions s (rr_rental_condition_id r) = Some c"
  shows "\<exists>args. calls [] (execute_create_rental_agreement P (governance_id P) payload n s) =
      [CallLedgerTransfer (ledger_id P) args] \<and> ta_amount args = Tokens 0 \<and> ta_fee args = default_fee P \<and>
    unat (e8s (rr_initial_cost_icp r)) - unat (e8s (rr_locked_amount_icp r)) < 10"
proof -
  have less: "unat (e8s (rr_initial_cost_icp r)) - unat (e8s (rr_locked_amount_icp r)) < 10"
    using full less_div_mult_add [of 10 "unat (e8s (rr_initial_cost_icp r))"] by linarith
  then have "unat (e8s (tokens_sub P (tokens_sub P (rr_initial_cost_icp r) (rr_locked_amount_icp r)) (default_fee P))) = 0"
    using fee by (simp add: tokens_sub_e8s [OF P])
  then have "tokens_sub P (tokens_sub P (rr_initial_cost_icp r) (rr_locked_amount_icp r)) (default_fee P) = Tokens 0"
    by (simp add: tokens.expand unat_eq_0)
  with less free req unrented c show ?thesis
    by (simp add: execute_create_rental_agreement_def execute_create_rental_agreement_inner_def
      verify_caller_is_governance_def create_rental_agreement_body_def Let_def get_rental_request_def
      get_rental_agreement_def get_rental_conditions_def exec_simps
      convert_icp_to_cycles_def transfer_to_cmc_def ledger_transfer_def)
qed

theorem fully_locked_create_transfers_nothing_witness:
  "\<exists>args. calls [] (execute_create_rental_agreement demo_platform (governance_id demo_platform) demo_creation 0
       (demo_state\<lparr>rental_requests := om_insert (Principal [9])
          (demo_request\<lparr>rr_locked_amount_icp := Tokens 4219674661940\<rparr>) om_empty\<rparr>)) =
     [CallLedgerTransfer (ledger_id demo_platform) args] \<and> ta_amount args = Tokens 0"
  using fully_locked_create_transfers_nothing [of demo_platform demo_creation
      "demo_state\<lparr>rental_requests := om_insert (Principal [9])
          (demo_request\<lparr>rr_locked_amount_icp := Tokens 4219674661940\<rparr>) om_empty\<rparr>"
      "demo_request\<lparr>rr_locked_amount_icp := Tokens 4219674661940\<rparr>" demo_condition 0]
  by (force simp: demo_creation_def demo_request_def)

text \<open>
  C11: a refund returns the whole balance less the fee to the caller's own account,
  removes the caller's request, asks the system to burn exactly its locked cycles, logs both steps
  for the caller, and changes nothing else.
\<close>

theorem refund_pays_and_cancels:
  assumes free: "(anonymous_id P, ''refund'') \<notin> locks s" "(caller, ''request'') \<notin> locks s"
    and funds: "default_fee P \<le> balance"
    and req: "om_get (rental_requests s) caller = Some r"
    and room: "has_room (Some caller) 2 s"
  shows "\<exists>s'. run [(ReplyBalance balance, n1), (ReplyTransfer (Inr block), n2)] (refund P caller n s) = Done (Inr block) s' \<and>
    calls [(ReplyBalance balance, n1), (ReplyTransfer (Inr block), n2)] (refund P caller n s) =
      [CallAccountBalance (ledger_id P) (account_of P (self_id P) (subaccount_of P caller)),
       CallLedgerTransfer (ledger_id P)
         \<lparr>ta_to = account_of P caller (default_subaccount P), ta_fee = default_fee P,
          ta_from_subaccount = Some (subaccount_of P caller), ta_amount = tokens_sub P balance (default_fee P),
          ta_memo = 0, ta_created_at_time = None\<rparr>] \<and>
    om_get (rental_requests s') = (om_get (rental_requests s))(caller := None) \<and>
    burn_log s' = burn_log s @ [(rr_locked_amount_cycles r, system_burn P (burn_log s) (rr_locked_amount_cycles r))] \<and>
    log_of (Some caller) s' = log_of (Some caller) s @
      [event_of_type n2 (TransferSuccess (tokens_sub P balance (default_fee P)) block),
       event_of_type n2 (RentalRequestCancelled r)] \<and>
    (\<forall>k. k \<noteq> Some caller \<longrightarrow> log_of k s' = log_of k s) \<and>
    rental_agreements s' = rental_agreements s \<and> conditions s' = conditions s \<and> rates s' = rates s \<and>
    locks s' = locks s"
proof -
  have "has_room (Some caller) (Suc (Suc 0)) s" "has_room (Some caller) (Suc 0) s"
    using room by (auto elim: has_room_mono)
  with assms show ?thesis
    by (auto simp: refund_def refund_body_def exec_simps check_subaccount_balance_def refund_user_def
        ledger_transfer_def Let_def not_less emit_def get_rental_request_def cycles_burn_def
        remove_rental_request_def log_simps)
qed

theorem refund_pays_and_cancels_witness:
  "\<exists>s'. run [(ReplyBalance (Tokens 30000), 1), (ReplyTransfer (Inr 7), 2)]
      (refund demo_platform (Principal [9]) 0 demo_requested) = Done (Inr 7) s' \<and>
    om_get (rental_requests s') (Principal [9]) = None \<and> burn_log s' = [(500, 500)]"
  using refund_pays_and_cancels [of demo_platform demo_requested "Principal [9]" "Tokens 30000" demo_request 1 7 2 0]
  by (force simp: demo_request_def less_eq_tokens_def)

text \<open>
  C23: a busy refund and one of a balance below the fee change nothing: in particular
  the request of a user with too little ICP is kept.
\<close>

theorem refund_refused:
  "((anonymous_id P, ''refund'') \<in> locks s \<or> (caller, ''request'') \<in> locks s \<longrightarrow>
      refund P caller n s = Done (Inl ''Busy processing another request. Try again.'') s) \<and>
   ((anonymous_id P, ''refund'') \<notin> locks s \<and> (caller, ''request'') \<notin> locks s \<and> balance < default_fee P \<longrightarrow>
      run [(ReplyBalance balance, n1)] (refund P caller n s) =
        Done (Inl (''Failed refund: '' @ show_principal P caller @ '' has insufficient funds '' @ show_tokens P balance)) s)"
  by (auto simp: refund_def refund_body_def exec_simps check_subaccount_balance_def)

theorem refund_refused_witness:
  "run [(ReplyBalance (Tokens 9999), 1)] (refund demo_platform (Principal [9]) 0 demo_requested) =
     Done (Inl ''Failed refund:  has insufficient funds '') demo_requested"
  using refund_refused [of demo_platform demo_requested "Principal [9]" 0 "Tokens 9999" 1]
  by (simp add: less_tokens_def) (simp add: demo_platform_def)

end
