(* ===== verification/Src_Queries.thy ===== *)
theory Src_Queries
  imports Src_External
begin

text \<open>
  The query methods of \<^verbatim>\<open>canister.rs\<close> and the two read-mostly updates, \<^verbatim>\<open>get_todays_price\<close>
  and \<^verbatim>\<open>subnet_top_up_estimate\<close>, whose only effect is to fill the exchange-rate cache; with
  the safety of the two updates. A query is a function of the state and, for
  \<^verbatim>\<open>rental_agreement_status\<close>, the system time.
\<close>

section \<open>Queries\<close>

definition list_rental_conditions ::
  "rental_condition_id list \<Rightarrow> canister \<Rightarrow> (rental_condition_id \<times> rental_conditions) list" where
  "list_rental_conditions order s = iter_rental_conditions order s"

definition list_rental_requests :: "canister \<Rightarrow> rental_request list" where
  "list_rental_requests s = map snd (iter_rental_requests s)"

definition list_rental_agreements :: "canister \<Rightarrow> rental_agreement list" where
  "list_rental_agreements s = map snd (iter_rental_agreements s)"

definition query_history_page :: "principal \<Rightarrow> u64 option \<Rightarrow> canister \<Rightarrow> event_page" where
  "query_history_page p older_than s =
     (let page_size = 20 in
      case get_history_page (Some p) older_than page_size s of
        (events, continuation) \<Rightarrow> \<lparr>ep_events = events, ep_continuation = continuation\<rparr>)"

definition get_rental_conditions_history_page :: "u64 option \<Rightarrow> canister \<Rightarrow> event_page" where
  "get_rental_conditions_history_page older_than s =
     (let page_size = 20 in
      case get_history_page None older_than page_size s of
        (events, continuation) \<Rightarrow> \<lparr>ep_events = events, ep_continuation = continuation\<rparr>)"

definition get_payment_account :: "platform \<Rightarrow> principal \<Rightarrow> string" where
  "get_payment_account P user = account_hex P (account_of P (self_id P) (subaccount_of P user))"

definition rental_agreement_status ::
  "principal \<Rightarrow> u64 \<Rightarrow> canister \<Rightarrow> string + rental_agreement_status" where
  "rental_agreement_status subnet_id now_nanos s =
     (case get_rental_agreement subnet_id s of
        None \<Rightarrow> Inl ''Rental agreement not found''
      | Some rental_agreement \<Rightarrow>
          let paid_until_nanos = ra_paid_until_nanos rental_agreement;
              cycles_left = saturating_sub (ra_total_cycles_created rental_agreement)
                              (ra_total_cycles_burned rental_agreement);
              days_left = calculate_days_remaining paid_until_nanos now_nanos;
              description =
                (if now_nanos > ra_paid_until_nanos rental_agreement
                 then ''PAST DUE: This rental agreement needs to be topped up to continue.''
                 else if days_left \<le> 30
                 then ''WARNING: This rental agreement is only covered for '' @ show_nat (unat days_left) @
                      '' more days. Please top up the subnet.''
                 else ''OK: This rental agreement is covered for '' @ show_nat (unat days_left) @ '' more days.'')
          in Inr \<lparr>ras_description = description, ras_cycles_left = cycles_left, ras_days_left = days_left\<rparr>)"

section \<open>The price of today\<close>

definition get_todays_price :: "platform \<Rightarrow> rental_condition_id \<Rightarrow> (string + tokens) prog" where
  "get_todays_price P condition_id =
     bnd (gets (get_rental_conditions condition_id)) (\<lambda>found.
     case found of
       None \<Rightarrow> ret (Inl ''RentalConditionId not found'')
     | Some conds \<Rightarrow>
     bnd api_time (\<lambda>now_nanos.
     let now_secs = now_nanos div BILLION;
         prev_midnight = round_to_previous_midnight now_secs
     in
     bnd (gets (get_cached_rate prev_midnight)) (\<lambda>cached.
     bnd (case cached of
            Some tup \<Rightarrow> ret (Inr tup)
          | None \<Rightarrow>
              with_guard (anonymous_id P, ''XRC'')
                (ret (Inl ''Failed to acquire lock on calling exchange rate canister. Try again.''))
                (bnd (get_exchange_rate_icp_per_xdr_at_time P prev_midnight) (\<lambda>res.
                 case res of
                   Inl e \<Rightarrow> ret (Inl (''Failed to call the exchange rate canister: '' @ debug_rate_error P e))
                 | Inr tup \<Rightarrow> ret (Inr tup)))) (\<lambda>rate.
     case rate of
       Inl e \<Rightarrow> ret (Inl e)
     | Inr (scaled_exchange_rate_xdr_per_icp, decimals) \<Rightarrow>
     (case calculate_subnet_price (rc_daily_cost_cycles conds) (rc_initial_rental_period_days conds)
             scaled_exchange_rate_xdr_per_icp decimals of
        Inr tokens \<Rightarrow> ret (Inr tokens)
      | Inl e \<Rightarrow> ret (Inl (''Failed to calculate price: '' @ debug_execute_error P e)))))))"

section \<open>Estimates\<close>

definition estimate_description :: "platform \<Rightarrow> tokens \<Rightarrow> u128 \<Rightarrow> principal \<Rightarrow> u64 \<Rightarrow> string" where
  "estimate_description P icp estimated_cycles subnet_id estimated_days =
     ''Estimate: '' @ show_tokens P icp @ '' ICP would provide approximately '' @
     show_nat (unat estimated_cycles) @ '' cycles, extending the rental for subnet '' @
     show_principal P subnet_id @ '' for about '' @ show_nat (unat estimated_days) @
     '' days. Note that this is an estimate and the actual amount will vary.''"

definition subnet_top_up_estimate :: "platform \<Rightarrow> principal \<Rightarrow> tokens \<Rightarrow> (string + top_up_summary) prog" where
  "subnet_top_up_estimate P subnet_id icp =
     bnd (gets (get_rental_agreement subnet_id)) (\<lambda>agreement.
     case agreement of
       None \<Rightarrow> ret (Inl ''Rental agreement not found'')
     | Some rental_agreement \<Rightarrow>
     bnd api_time (\<lambda>now_nanos.
     let now_secs = now_nanos div BILLION;
         prev_midnight = round_to_previous_midnight now_secs
     in
     bnd (get_exchange_rate_icp_per_xdr_at_time P prev_midnight) (\<lambda>res.
     case res of
       Inl e \<Rightarrow> ret (Inl ''Failed to get exchange rate'')
     | Inr (scaled_exchange_rate_xdr_per_icp, decimals) \<Rightarrow>
     if icp < default_fee P
     then ret (Inl (''Must top up more than '' @ show_tokens P (default_fee P) @ '' ICP to cover the default fee''))
     else
     let to_be_topped_up = tokens_sub P icp (default_fee P) in
     (case estimate_cycles (e8s (tokens_sub P to_be_topped_up (default_fee P)))
             scaled_exchange_rate_xdr_per_icp decimals of
        None \<Rightarrow> panic ''subnet_top_up_estimate: attempt to divide by zero''
      | Some estimated_cycles \<Rightarrow>
     bnd (gets (get_rental_conditions (ra_rental_condition_id rental_agreement))) (\<lambda>condition.
     case condition of
       None \<Rightarrow> ret (Inl ''Rental condition not found'')
     | Some rental_condition \<Rightarrow>
     (case estimate_days estimated_cycles (rc_daily_cost_cycles rental_condition) of
        None \<Rightarrow> panic ''subnet_top_up_estimate: days: attempt to divide by zero''
      | Some estimated_days \<Rightarrow>
          ret (Inr \<lparr>tus_description = estimate_description P icp estimated_cycles subnet_id estimated_days,
                    tus_cycles_added = estimated_cycles, tus_days_added = estimated_days\<rparr>)))))))"

section \<open>Safety\<close>

lemma get_todays_price_safe: "message_safe (src_spec P) (get_todays_price P k)"
proof (rule message_safeI)
  fix n s assume "wf s" and l: "later {} s (locks s) s s"
  obtain c where c: "get_rental_conditions k s = Some c" using wf_condition [OF \<open>wf s\<close>] by metis
  let ?t = "round_to_previous_midnight (n div BILLION)"
  let ?rate = "case get_cached_rate ?t s of
            Some tup \<Rightarrow> ret (Inr tup)
          | None \<Rightarrow>
              with_guard (anonymous_id P, ''XRC'')
                (ret (Inl ''Failed to acquire lock on calling exchange rate canister. Try again.''))
                (bnd (get_exchange_rate_icp_per_xdr_at_time P ?t) (\<lambda>res.
                 case res of
                   Inl e \<Rightarrow> ret (Inl (''Failed to call the exchange rate canister: '' @ debug_rate_error P e))
                 | Inr tup \<Rightarrow> ret (Inr tup)))"
  have body: "wp (src_spec P) (held H) H X s0
     (bnd (get_exchange_rate_icp_per_xdr_at_time P ?t) (\<lambda>res.
        case res of Inl e \<Rightarrow> ret (Inl (f e)) | Inr tup \<Rightarrow> ret (Inr tup))) n s"
    if "later H s X s0 s" for H X s0 s and f :: "exchange_rate_error \<Rightarrow> string"
    unfolding wp_bnd using that
    by (rule wp_exchange_rateI) (auto simp: unat_midnight wp_ret split: sum.split intro: heldI)
  have rate: "wp (src_spec P) (held {}) {} (locks s) s ?rate n s"
    using l body by (cases "get_cached_rate ?t s") (auto simp: wp_ret intro: heldI intro!: wp_guard_held [OF l])
  show "wp (src_spec P) (held {}) {} (locks s) s (get_todays_price P k) n s"
    unfolding get_todays_price_def wp_bnd wp_gets c option.case wp_api_time Let_def
    by (rule wp_mono [OF rate]) (auto simp: wp_ret held_def split: sum.split)
qed

lemma subnet_top_up_estimate_safe: "message_safe (src_spec P) (subnet_top_up_estimate P subnet icp)"
proof (rule message_safeI)
  fix n s assume "wf s" and l: "later {} s (locks s) s s"
  show "wp (src_spec P) (held {}) {} (locks s) s (subnet_top_up_estimate P subnet icp) n s"
  proof (cases "get_rental_agreement subnet s")
    case None
    with l show ?thesis by (auto simp: subnet_top_up_estimate_def wp_bnd wp_gets wp_ret intro: heldI)
  next
    case (Some a)
    show ?thesis
      unfolding subnet_top_up_estimate_def wp_bnd wp_gets Some option.case wp_api_time Let_def
      using l
    proof (rule wp_exchange_rateI, goal_cases)
      case 1
      show ?case by (simp add: unat_midnight)
    next
      case (2 x X' s0' n' s')
      obtain c where "get_rental_conditions (ra_rental_condition_id a) s' = Some c" "rc_daily_cost_cycles c \<noteq> 0"
        using wf_condition [OF later_wf [OF 2]] by metis
      with 2 show ?case
        by (auto simp: wp_ret wp_bnd wp_gets wp_panic estimate_days_def split: sum.split option.split intro: heldI)
    qed
  qed
qed

section \<open>What the queries and estimates return\<close>

text \<open>
  C29: with the rate of the last midnight at hand, the price is the calculated one and
  nothing changes; otherwise one caller at a time asks the exchange rate canister, exactly
  once, and is answered as from the cache.
\<close>

theorem todays_price:
  assumes c: "conditions s k = Some c" and t: "t = round_to_previous_midnight (now div BILLION)"
  shows "(\<forall>rate d. om_get (rates s) t = Some (rate, d) \<longrightarrow>
      get_todays_price P k now s = Done
        (case calculate_subnet_price (rc_daily_cost_cycles c) (rc_initial_rental_period_days c) rate d of
           Inr tokens \<Rightarrow> Inr tokens
         | Inl e \<Rightarrow> Inl (''Failed to calculate price: '' @ debug_execute_error P e)) s) \<and>
    (om_get (rates s) t = None \<longrightarrow> (anonymous_id P, ''XRC'') \<in> locks s \<longrightarrow>
      get_todays_price P k now s =
        Done (Inl ''Failed to acquire lock on calling exchange rate canister. Try again.'') s) \<and>
    (\<forall>xrc er n1. om_get (rates s) t = None \<longrightarrow> (anonymous_id P, ''XRC'') \<notin> locks s \<longrightarrow>
      principal_from_text P ''uf6dk-hyaaa-aaaaq-qaaaq-cai'' = Some xrc \<longrightarrow>
      calls [(ReplyRate (Inr er), n1)] (get_todays_price P k now s) =
        [CallGetExchangeRate xrc (exchange_rate_request t) 1000000000] \<and>
      run [(ReplyRate (Inr er), n1)] (get_todays_price P k now s) =
        get_todays_price P k now (cache_rate t (er_rate er) (erm_decimals (er_metadata er)) s))"
proof -
  have unlock: "unlock_id l (cache_rate t r d (lock_id l s)) = cache_rate t r d s" if "l \<notin> locks s" for l r d
    using that by (simp add: unlock_id_def lock_id_def cache_rate_def)
  then show ?thesis
    using c t by (auto simp: get_todays_price_def get_rental_conditions_def get_cached_rate_def exec_simps Let_def
      get_exchange_rate_icp_per_xdr_at_time_def get_exchange_rate_canister_id_def cache_rate_def
      split: sum.split option.split)
qed

theorem todays_price_witness:
  "get_todays_price demo_platform App13CH 5000000000 demo_state = Done (Inr (Tokens 4219674661940)) demo_state"
  using todays_price [of demo_state App13CH demo_condition 0 5000000000 demo_platform]
  by (simp add: BILLION_def demo_price)

text \<open>
  C30: a successful exchange rate is cached: asking again for the same time makes no call
  and gives the same rate; a failed one is not.
\<close>

theorem rate_cached_once:
  assumes "om_get (rates s) t = None" and "principal_from_text P ''uf6dk-hyaaa-aaaaq-qaaaq-cai'' = Some xrc"
  shows "(\<forall>er n1. \<exists>s'. run [(ReplyRate (Inr er), n1)] (get_exchange_rate_icp_per_xdr_at_time P t n s) =
        Done (Inr (er_rate er, erm_decimals (er_metadata er))) s' \<and>
      (\<forall>n'. get_exchange_rate_icp_per_xdr_at_time P t n' s' = Done (Inr (er_rate er, erm_decimals (er_metadata er))) s')) \<and>
    (\<forall>e n1. run [(ReplyRate (Inl e), n1)] (get_exchange_rate_icp_per_xdr_at_time P t n s) = Done (Inl e) s) \<and>
    calls [] (get_exchange_rate_icp_per_xdr_at_time P t n s) =
      [CallGetExchangeRate xrc (exchange_rate_request t) 1000000000]"
  using assms
  by (auto simp: get_exchange_rate_icp_per_xdr_at_time_def get_exchange_rate_canister_id_def get_cached_rate_def
      cache_rate_def exec_simps)

theorem rate_cached_once_witness:
  "\<exists>xrc. calls [] (get_exchange_rate_icp_per_xdr_at_time demo_platform 86400 0 demo_state) =
      [CallGetExchangeRate xrc (exchange_rate_request 86400) 1000000000]"
  using rate_cached_once [of demo_state 86400 demo_platform] by (simp add: demo_platform_def)

lemma estimate_days_unat:
  assumes "unat c + unat daily < 2 ^ 128" and "daily \<noteq> 0"
  shows "estimate_days c daily = Some (of_nat ((unat c + unat daily div 2) div unat daily))"
proof -
  have "unat (daily div 2) = unat daily div 2" by (simp add: unat_div)
  moreover have "unat c + unat daily div 2 < 2 ^ 128" using assms(1) by simp
  ultimately have "unat (c + daily div 2) = unat c + unat daily div 2" by (simp add: unat_add_exact)
  then have "unat ((c + daily div 2) div daily) = (unat c + unat daily div 2) div unat daily"
    by (simp only: unat_div)
  moreover have "(ucast w :: u64) = of_nat (unat w)" for w :: u128 by simp
  ultimately show ?thesis using assms(2) by (simp only: estimate_days_def if_False)
qed

text \<open>The price of a period, less two fees, is estimated to buy that period.\<close>

lemma estimate_of_price_word:
  assumes dec: "4 \<le> unat decimals" "10 ^ unat decimals < (2::nat) ^ 128"
    and price: "calculate_subnet_price daily days rate decimals = Inr price"
    and small: "exact_price daily days rate decimals < 2 ^ 64" "unat daily * (unat days + 1) < 2 ^ 128"
    and daily: "daily \<noteq> 0"
    and paid: "unat paid = unat (e8s price) - 2 * fee"
    and fee: "(2 * fee + 1) * unat rate \<le> unat daily div 2 * 10 ^ (unat decimals - 4)"
  shows "\<exists>c. estimate_cycles paid rate decimals = Some c \<and> estimate_days c daily = Some days"
proof -
  let ?D = "10 ^ (unat decimals - 4) :: nat" and ?N = "unat daily * unat days"
  have comp: "price_computable daily days rate decimals" and p: "unat (e8s price) = ?N * ?D div unat rate"
    using price small(1) exact_price_scaled [OF dec(1), of daily days rate]
    by (auto simp: calculate_subnet_price_eq [OF dec(2)] unat_of_nat_u64_eq split: if_splits)
  obtain c where c: "estimate_cycles paid rate decimals = Some c" "unat c = unat paid * unat rate div ?D"
    using estimate_cycles_unat [OF dec] by blast
  have "unat paid * unat rate \<le> unat (e8s price) * unat rate" by (simp add: paid)
  also have "\<dots> \<le> ?N * ?D" unfolding p by (rule div_times_less_eq_dividend)
  finally have "unat c \<le> ?N * ?D div ?D" unfolding c(2) by (rule div_le_mono)
  then have "unat c \<le> ?N" by simp
  then have sum: "unat c + unat daily < 2 ^ 128" using small(2) by simp
  have "(unat c + unat daily div 2) div unat daily = unat days"
    unfolding c(2) paid p
    using price_computableD [OF comp] daily fee by (intro price_round_trip_nat) (simp_all add: unat_gt_0)
  with c(1) estimate_days_unat [OF sum daily] show ?thesis by simp
qed

text \<open>
  C31: price and estimate agree: the estimate for a top-up of exactly the current price of
  the initial period is exactly that period, whatever the rounding on the way, as long as the
  two transfer fees are worth less than half a day.
\<close>

theorem estimate_of_price:
  assumes P: "tokens_saturate P"
    and ra: "om_get (rental_agreements s) p = Some ra" and c: "conditions s (ra_rental_condition_id ra) = Some c"
    and rate: "om_get (rates s) (round_to_previous_midnight (now div BILLION)) = Some (rate, decimals)"
    and price: "calculate_subnet_price (rc_daily_cost_cycles c) (rc_initial_rental_period_days c) rate decimals = Inr price"
    and range: "4 \<le> unat decimals" "10 ^ unat decimals < (2::nat) ^ 128"
      "exact_price (rc_daily_cost_cycles c) (rc_initial_rental_period_days c) rate decimals < 2 ^ 64"
      "unat (rc_daily_cost_cycles c) * (unat (rc_initial_rental_period_days c) + 1) < 2 ^ 128" "rc_daily_cost_cycles c \<noteq> 0"
    and fee: "default_fee P \<le> price"
      "(2 * unat (e8s (default_fee P)) + 1) * unat rate \<le>
         unat (rc_daily_cost_cycles c) div 2 * 10 ^ (unat decimals - 4)"
  shows "\<exists>st. subnet_top_up_estimate P p price now s = Done (Inr st) s \<and>
    tus_days_added st = rc_initial_rental_period_days c"
proof -
  let ?paid = "e8s (tokens_sub P (tokens_sub P price (default_fee P)) (default_fee P))"
  have "unat ?paid = unat (e8s price) - 2 * unat (e8s (default_fee P))"
    by (simp add: tokens_sub_e8s [OF P])
  from estimate_of_price_word [OF range(1,2) price range(3-5) this fee(2)]
  obtain cyc where "estimate_cycles ?paid rate decimals = Some cyc"
    "estimate_days cyc (rc_daily_cost_cycles c) = Some (rc_initial_rental_period_days c)" by blast
  with ra c rate fee(1) [folded not_less] show ?thesis
    by (simp add: subnet_top_up_estimate_def get_rental_agreement_def get_cached_rate_def get_rental_conditions_def
        get_exchange_rate_icp_per_xdr_at_time_def exec_simps Let_def)
qed

theorem estimate_of_price_witness:
  "\<exists>st. subnet_top_up_estimate demo_platform demo_subnet (Tokens 4219674661940) 0 demo_leased = Done (Inr st) demo_leased \<and>
     tus_days_added st = 180"
  using estimate_of_price [of demo_platform demo_leased demo_subnet demo_agreement demo_condition 0 3497900000 9 "Tokens 4219674661940"]
  by (simp add: demo_price [unfolded TRILLION_def, simplified] exact_price_def TRILLION_def less_eq_tokens_def
     round_to_previous_midnight_def) (simp add: demo_agreement_def demo_price [unfolded TRILLION_def, simplified])

text \<open>
  C38: an exchange rate with fewer than four decimals makes the estimate divide by zero.
\<close>

theorem estimate_panics_on_few_decimals:
  assumes ra: "om_get (rental_agreements s) p = Some ra"
    and rate: "om_get (rates s) (round_to_previous_midnight (now div BILLION)) = Some (rate, decimals)"
    and fee: "default_fee P \<le> icp" and "unat decimals < 4"
  shows "subnet_top_up_estimate P p icp now s = Trapped ''subnet_top_up_estimate: attempt to divide by zero''"
  using ra rate fee [folded not_less] estimate_cycles_panics [OF assms(4)]
  by (simp add: subnet_top_up_estimate_def get_rental_agreement_def get_cached_rate_def
        get_exchange_rate_icp_per_xdr_at_time_def exec_simps Let_def)

theorem estimate_panics_on_few_decimals_witness:
  "subnet_top_up_estimate demo_platform demo_subnet (Tokens 20000) 0 (cache_rate 0 35 1 demo_leased) =
     Trapped ''subnet_top_up_estimate: attempt to divide by zero''"
  using estimate_panics_on_few_decimals [of "cache_rate 0 35 1 demo_leased" demo_subnet demo_agreement 0 35 1 demo_platform "Tokens 20000"]
  by (simp add: cache_rate_def round_to_previous_midnight_def less_eq_tokens_def)

text \<open>
  C17: walking the pages of 20 events back to continuation 0 returns the whole history of
  a principal, and of the rental conditions, in order and without loss or repetition.
\<close>

theorem history_pages_complete:
  assumes "wf s" and "om_size (history s) < 2 ^ 64 - 1" and "om_size (history s) < fuel"
  shows "all_pages (\<lambda>older. let page = query_history_page p older s in (ep_events page, ep_continuation page))
      fuel None = log_of (Some p) s \<and>
    all_pages (\<lambda>older. let page = get_rental_conditions_history_page older s in (ep_events page, ep_continuation page))
      fuel None = log_of None s"
proof -
  have ok: "history_ok s" using assms(1,2) by (simp add: wf_def history_inv_def)
  have "length (log_of key s) < fuel" for key
    using event_count_le_size [OF ok, of key] assms(3) by simp
  then have "all_pages (\<lambda>older. get_history_page key older 20 s) fuel None = log_of key s" for key
    by (intro src_log.all_pages_newest [OF ok]) simp_all
  moreover have "(let page = query_history_page p older s in (ep_events page, ep_continuation page)) =
      get_history_page (Some p) older 20 s" for older
    by (simp add: query_history_page_def Let_def case_prod_beta)
  moreover have "(let page = get_rental_conditions_history_page older s in (ep_events page, ep_continuation page)) =
      get_history_page None older 20 s" for older
    by (simp add: get_rental_conditions_history_page_def Let_def case_prod_beta)
  ultimately show ?thesis by simp
qed

theorem history_pages_complete_witness:
  "all_pages (\<lambda>older. let page = query_history_page (Principal [9]) older demo_state in (ep_events page, ep_continuation page))
      1 None = log_of (Some (Principal [9])) demo_state"
  using history_pages_complete [of demo_state 1 "Principal [9]"] by (simp add: om_size_def)

text \<open>
  C36: the status reports the cycles not yet burned, the full days until the deadline, and
  PAST DUE, WARNING or OK exactly as the deadline says.
\<close>

theorem status_correct:
  assumes "om_get (rental_agreements s) p = Some ra"
  shows "\<exists>st. rental_agreement_status p now s = Inr st \<and>
    unat (ras_cycles_left st) = unat (ra_total_cycles_created ra) - unat (ra_total_cycles_burned ra) \<and>
    unat (ras_days_left st) = (unat (ra_paid_until_nanos ra) - unat now) div (86400 * 10 ^ 9) \<and>
    (take 8 (ras_description st) = ''PAST DUE'' \<longleftrightarrow> ra_paid_until_nanos ra < now) \<and>
    (take 7 (ras_description st) = ''WARNING'' \<longleftrightarrow>
       now \<le> ra_paid_until_nanos ra \<and> unat (ras_days_left st) \<le> 30) \<and>
    (take 2 (ras_description st) = ''OK'' \<longleftrightarrow> 30 < unat (ras_days_left st))"
  using assms
  by (auto simp: rental_agreement_status_def get_rental_agreement_def Let_def unat_ops word_le_nat_alt word_less_nat_alt)

theorem status_correct_witness:
  "\<exists>st. rental_agreement_status demo_subnet (200 * BILLION) demo_leased = Inr st \<and>
     take 8 (ras_description st) = ''PAST DUE''"
proof -
  have "ra_paid_until_nanos demo_agreement < 200 * BILLION" by (simp add: demo_agreement_def BILLION_def)
  then show ?thesis using status_correct [of demo_leased demo_subnet demo_agreement "200 * BILLION"] by auto
qed

end
