(* ===== verification/Src_TopUp.thy ===== *)
theory Src_TopUp
  imports Src_External
begin

text \<open>
  The two operations on an existing agreement: \<^verbatim>\<open>top_up_subnet\<close>, which anybody may call to
  turn the renter's ICP into cycles and paid time, and \<^verbatim>\<open>update_subnet_admins\<close>, which only
  the renter may call. Both hold the guard \<^verbatim>\<open>"agreement"\<close> of the subnet across their calls,
  which is what makes their last writes safe.
\<close>

section \<open>Topping up\<close>

definition top_up_failed :: "platform \<Rightarrow> principal \<Rightarrow> principal \<Rightarrow> string \<Rightarrow> (string + 'a) prog" where
  "top_up_failed P subnet_id user reason =
     bnd (emit (SubnetTopUpFailed user reason) (Some subnet_id)) (\<lambda>_. ret (Inl reason))"

definition top_up_description :: "platform \<Rightarrow> principal \<Rightarrow> tokens \<Rightarrow> u128 \<Rightarrow> u64 \<Rightarrow> string" where
  "top_up_description P subnet_id user_icp_balance actual_cycles days_added =
     ''Topped up subnet '' @ show_principal P subnet_id @ '' with '' @ show_tokens P user_icp_balance @
     '' ICP corresponding to '' @ show_nat (unat actual_cycles) @
     '' cycles, extending the rental agreement by '' @ show_nat (unat days_added) @ '' days''"

text \<open>
  The credit after the conversion: deadline and totals are computed from the copy of the
  agreement read at the start, and only \<^verbatim>\<open>total_icp_paid\<close> from the stored one.
\<close>

definition top_up_credit_agreement ::
  "platform \<Rightarrow> principal \<Rightarrow> rental_agreement \<Rightarrow> tokens \<Rightarrow> u128 \<Rightarrow> (string + top_up_summary) prog" where
  "top_up_credit_agreement P subnet_id rental_agreement user_icp_balance actual_cycles =
     bnd (gets (get_rental_conditions (ra_rental_condition_id rental_agreement))) (\<lambda>condition.
     case condition of
       None \<Rightarrow> panic ''Fatal: Rental Condition not found''
     | Some c \<Rightarrow>
     (case top_up_credit (rc_daily_cost_cycles c) actual_cycles (ra_paid_until_nanos rental_agreement) of
        None \<Rightarrow> panic ''top_up_subnet: attempt to divide by zero''
      | Some (new_paid_until_nanos, days_added) \<Rightarrow>
     let new_total_cycles_created =
           saturating_add (ra_total_cycles_created rental_agreement) actual_cycles
     in
     bnd (update_with (update_rental_agreement subnet_id (\<lambda>agreement. agreement
            \<lparr>ra_total_cycles_created := new_total_cycles_created,
             ra_total_icp_paid := tokens_add P (ra_total_icp_paid agreement) user_icp_balance,
             ra_paid_until_nanos := new_paid_until_nanos\<rparr>))) (\<lambda>r.
     case r of
       Inl e \<Rightarrow> panic ''unwrap of update_rental_agreement''
     | Inr _ \<Rightarrow>
     bnd (emit (SubnetTopUp (ra_user rental_agreement) user_icp_balance actual_cycles days_added
                  new_paid_until_nanos) (Some subnet_id)) (\<lambda>_.
     ret (Inr \<lparr>tus_description = top_up_description P subnet_id user_icp_balance actual_cycles days_added,
               tus_cycles_added = actual_cycles, tus_days_added = days_added\<rparr>)))))"

definition top_up_body :: "platform \<Rightarrow> principal \<Rightarrow> (string + top_up_summary) prog" where
  "top_up_body P subnet_id =
     bnd (gets (get_rental_agreement subnet_id)) (\<lambda>agreement.
     case agreement of
       None \<Rightarrow> ret (Inl ''Rental agreement not found'')
     | Some rental_agreement \<Rightarrow>
     let user = ra_user rental_agreement in
     bnd (check_subaccount_balance P (subaccount_of P user)) (\<lambda>user_icp_balance.
     if user_icp_balance < default_fee P
     then top_up_failed P subnet_id user
            (''Failed to top up: '' @ show_principal P user @ '' has insufficient funds '' @
             show_tokens P user_icp_balance)
     else
     let icp_amount_for_cycles = tokens_sub P user_icp_balance (default_fee P) in
     bnd (convert_icp_to_cycles P icp_amount_for_cycles (subaccount_of P user)) (\<lambda>res.
     case res of
       Inl e \<Rightarrow> top_up_failed P subnet_id user
            (''Failed to convert ICP to cycles: '' @ debug_execute_error P e)
     | Inr (block_index, actual_cycles) \<Rightarrow>
     bnd (emit (TransferSuccess icp_amount_for_cycles block_index) (Some subnet_id)) (\<lambda>_.
     top_up_credit_agreement P subnet_id rental_agreement user_icp_balance actual_cycles))))"

definition top_up_subnet :: "platform \<Rightarrow> principal \<Rightarrow> (string + top_up_summary) prog" where
  "top_up_subnet P subnet_id =
     with_guard (subnet_id, ''agreement'') (ret (Inl ''Concurrent call, aborting''))
       (top_up_body P subnet_id)"

section \<open>Subnet admins\<close>

definition verify_caller_is_renting_subnet ::
  "principal \<Rightarrow> principal \<Rightarrow> canister \<Rightarrow> update_subnet_admins_error + unit" where
  "verify_caller_is_renting_subnet caller subnet_id s =
     (if list_ex (\<lambda>p. ra_user (snd p) = caller \<and> ra_subnet_id (snd p) = subnet_id) (iter_rental_agreements s)
      then Inr () else Inl CallerNotRentingSubnet)"

definition check_operation :: "operation_type option \<Rightarrow> update_subnet_admins_error + unit" where
  "check_operation operation =
     (case operation of
        None \<Rightarrow> Inl UnknownOperationType
      | Some (OpAdd provided_principals) \<Rightarrow>
          if provided_principals = [] then Inl PrincipalListEmpty else Inr ()
      | Some (OpRemove provided_principals) \<Rightarrow>
          if provided_principals = [] then Inl PrincipalListEmpty else Inr ()
      | Some OpClear \<Rightarrow> Inr ())"

definition update_subnet_admins ::
  "platform \<Rightarrow> principal \<Rightarrow> update_subnet_admins_payload \<Rightarrow> update_subnet_admins_result prog" where
  "update_subnet_admins P caller payload =
     (let subnet_id = usa_subnet_id payload in
     bnd (gets (verify_caller_is_renting_subnet caller subnet_id)) (\<lambda>verified.
     case verified of
       Inl e \<Rightarrow> ret (AdminsErr (Some e))
     | Inr _ \<Rightarrow>
     with_guard (subnet_id, ''agreement'') (ret (AdminsErr (Some ConcurrentChange)))
       (case check_operation (usa_operation_type payload) of
          Inl e \<Rightarrow> ret (AdminsErr (Some e))
        | Inr _ \<Rightarrow>
            bnd (registry_update_subnet_admins P (registry_admins_payload payload)) (\<lambda>res.
            case res of
              Inr _ \<Rightarrow> ret AdminsOk
            | Inl e \<Rightarrow> ret (AdminsErr (Some (RegistryError e)))))))"

section \<open>Safety of topping up\<close>

lemma later_agreement:
  "later H a X s0 s \<Longrightarrow> (p, ''agreement'') \<in> H \<Longrightarrow> om_get (rental_agreements a) p = Some ra \<Longrightarrow>
    om_get (rental_agreements s) p = Some ra"
  by (auto simp: later_def protects_def)

lemma top_up_failed_held:
  assumes "later H a X s0 s"
  shows "wp (src_spec P) (held H) H X s0 (top_up_failed P subnet u reason) n s"
  unfolding top_up_failed_def wp_bnd using assms
  by (rule wp_emitI) (auto simp: wp_ret intro: heldI)

text \<open>A credited agreement is a good successor of the old one.\<close>

lemma credited_agreement:
  assumes "tokens_saturate P" and "agreement_ok p ra"
    and "top_up_credit d c (ra_paid_until_nanos ra) = Some (paid, days)"
  shows "let ra' = ra\<lparr>ra_total_cycles_created := saturating_add (ra_total_cycles_created ra) c,
             ra_total_icp_paid := tokens_add P (ra_total_icp_paid ra) t, ra_paid_until_nanos := paid\<rparr>
    in agreement_ok p ra' \<and> agreement_evolves ra ra'"
proof -
  have "ra_paid_until_nanos ra \<le> paid"
  proof -
    have "paid = reprice c d (ra_paid_until_nanos ra)" and "\<not> unat d < 86400"
      using assms(3) by (auto simp: top_up_credit_reprice split: if_splits)
    then show ?thesis using unat_le_max [of "ra_paid_until_nanos ra"]
      by (simp add: word_le_nat_alt reprice_unat)
  qed
  moreover have "ra_total_icp_paid ra \<le> tokens_add P (ra_total_icp_paid ra) t"
    using assms(1) unat_le_max [of "e8s (ra_total_icp_paid ra)"]
    by (simp add: tokens_le_iff tokens_add_e8s)
  moreover have "ra_total_cycles_burned ra \<le> saturating_add (ra_total_cycles_created ra) c"
    using assms(2) saturating_add_ge_left order.trans unfolding agreement_ok_def by blast
  ultimately show ?thesis
    using assms(2) by (simp add: agreement_ok_def agreement_evolves_def)
qed

lemma credit_held:
  assumes "tokens_saturate P"
    and l: "later H a X s0 s" and H: "(p, ''agreement'') \<in> H"
    and ra: "om_get (rental_agreements s) p = Some ra"
  shows "wp (src_spec P) (held H) H X s0 (top_up_credit_agreement P p ra t c) n s"
proof -
  obtain cond where cond: "get_rental_conditions (ra_rental_condition_id ra) s = Some cond"
    and "86400 \<le> unat (rc_daily_cost_cycles cond)"
    using wf_condition [OF later_wf [OF l]] by metis
  then obtain paid days
    where credit: "top_up_credit (rc_daily_cost_cycles cond) c (ra_paid_until_nanos ra) = Some (paid, days)"
    by (simp add: top_up_credit_reprice)
  let ?ra = "ra\<lparr>ra_total_cycles_created := saturating_add (ra_total_cycles_created ra) c,
             ra_total_icp_paid := tokens_add P (ra_total_icp_paid ra) t, ra_paid_until_nanos := paid\<rparr>"
  have "agreement_ok p ra" using later_wf [OF l] ra by (simp add: wf_def)
  then have "agreement_ok p ?ra" "agreement_evolves ra ?ra"
    using credited_agreement [OF assms(1) _ credit, of p t] by (simp_all add: Let_def)
  moreover have "(p, ''agreement'') \<notin> X" using l H by (auto simp: later_def)
  ultimately have "good X s0 (s\<lparr>rental_agreements := om_insert p ?ra (rental_agreements s)\<rparr>)"
    using l ra by (intro good_update_agreement) (auto simp: later_def)
  then have "held H x X s0 n (persist_event n ev key (s\<lparr>rental_agreements := om_insert p ?ra (rental_agreements s)\<rparr>))" for x ev key
    using l by (intro held_good) (auto simp: later_def good_persist_event)
  with ra cond credit show ?thesis
    by (simp add: top_up_credit_agreement_def wp_bnd wp_gets wp_update_with update_rental_agreement_def
        emit_def wp_update_now wp_ret Let_def)
qed

lemma top_up_body_held:
  assumes P: "tokens_saturate P" and l: "later H s X s0 s" and H: "(p, ''agreement'') \<in> H"
  shows "wp (src_spec P) (held H) H X s0 (top_up_body P p) n s"
proof (cases "get_rental_agreement p s")
  case None
  with l show ?thesis by (auto simp: top_up_body_def wp_bnd wp_gets wp_ret intro: heldI)
next
  case (Some ra)
  then have ra: "om_get (rental_agreements s) p = Some ra" by (simp add: get_rental_agreement_def)
  show ?thesis
    unfolding top_up_body_def wp_bnd wp_gets Some option.case Let_def using l
  proof (rule wp_balanceI, goal_cases)
    case (1 x X' n' s')
    show ?case
    proof (cases "x < default_fee P")
      case True
      with 1 show ?thesis by (simp add: top_up_failed_held)
    next
      case False
      show ?thesis
        unfolding if_not_P [OF False] wp_bnd using 1
      proof (rule wp_convertI, goal_cases)
        case (1 y X' n' s')
        then show ?case
          by (auto simp: wp_bnd split: sum.split intro!: wp_emitI top_up_failed_held credit_held [OF P _ H]
              intro: later_agreement [OF _ H ra])
      qed
    qed
  qed
qed

lemma top_up_subnet_safe:
  assumes "tokens_saturate P"
  shows "message_safe (src_spec P) (top_up_subnet P p)"
proof (rule message_safeI)
  fix n s assume l: "later {} s (locks s) s s"
  then show "wp (src_spec P) (held {}) {} (locks s) s (top_up_subnet P p) n s"
    unfolding top_up_subnet_def
    by (rule wp_guard_held) (auto simp: wp_ret intro: heldI [OF l] top_up_body_held [OF assms])
qed

section \<open>Safety of updating admins\<close>

lemma renting_subnet_iff:
  assumes "wf s"
  shows "verify_caller_is_renting_subnet caller p s = Inr () \<longleftrightarrow>
    (\<exists>ra. om_get (rental_agreements s) p = Some ra \<and> ra_user ra = caller)"
proof -
  have "ra_subnet_id ra = q" if "om_get (rental_agreements s) q = Some ra" for q ra
    using assms that by (simp add: wf_def agreement_ok_def)
  then show ?thesis
    unfolding verify_caller_is_renting_subnet_def iter_rental_agreements_def list_ex_iff
      om.any_entry [where Q = "\<lambda>ra. ra_user ra = caller \<and> ra_subnet_id ra = p"]
    by auto
qed

lemma check_operation_ok:
  "check_operation oper = Inr () \<longleftrightarrow> (\<exists>x. oper = Some x \<and> x \<noteq> OpAdd [] \<and> x \<noteq> OpRemove [])"
  by (auto simp: check_operation_def split: option.split operation_type.split)

lemma registry_update_held:
  assumes l: "later H a X s0 s" and H: "(usa_subnet_id payload, ''agreement'') \<in> H"
    and rented: "om_get (rental_agreements s) (usa_subnet_id payload) \<noteq> None"
    and oper: "check_operation (usa_operation_type payload) = Inr ()"
    and Q: "\<And>r X' n' s'. later H a X' s' s' \<Longrightarrow> Q r X' s' n' s'"
  shows "wp (src_spec P) Q H X s0 (registry_update_subnet_admins P (registry_admins_payload payload)) n s"
proof (cases "principal_from_text P ''rwlgt-iiaaa-aaaaa-aaaaa-cai''")
  case None
  then show ?thesis
    by (simp add: registry_update_subnet_admins_def get_registry_canister_id_def wp_bnd wp_panic)
next
  case (Some registry)
  have "call_ok P (CallUpdateSubnetAdmins registry (registry_admins_payload payload)) s"
    using rented oper Some
    by (auto simp: registry_admins_payload_def check_operation_ok split: operation_type.splits)
  then show ?thesis
    unfolding registry_update_subnet_admins_def get_registry_canister_id_def Some option.case wp_bnd wp_ret
    using wp_awaitI [OF l] Q by (simp add: wp_ret split: reply.split)
qed

lemma update_subnet_admins_safe: "message_safe (src_spec P) (update_subnet_admins P caller payload)"
proof (rule message_safeI)
  fix n s assume wf: "wf s" and l: "later {} s (locks s) s s"
  let ?p = "usa_subnet_id payload"
  show "wp (src_spec P) (held {}) {} (locks s) s (update_subnet_admins P caller payload) n s"
  proof (cases "verify_caller_is_renting_subnet caller ?p s")
    case (Inl e)
    with l show ?thesis by (auto simp: update_subnet_admins_def Let_def wp_bnd wp_gets wp_ret intro: heldI)
  next
    case (Inr u)
    then have rented: "om_get (rental_agreements s) ?p \<noteq> None"
      using renting_subnet_iff [OF wf, of caller ?p] by auto
    show ?thesis
      unfolding update_subnet_admins_def Let_def wp_bnd wp_gets Inr sum.case using l
    proof (rule wp_guard_held, goal_cases)
      case 1
      with l show ?case by (auto simp: wp_ret intro: heldI)
    next
      case 2
      then show ?case
        using rented by (cases "check_operation (usa_operation_type payload)")
          (auto simp: wp_ret wp_bnd split: sum.split intro: heldI intro!: registry_update_held)
    qed
  qed
qed

section \<open>What the operations do\<close>

text \<open>
  C12: a top-up with a balance of at least the fee converts the whole balance, adds the minted cycles and the ICP to
  the agreement, and moves its deadline by what the cycles pay for. It logs the transfer and the
  top-up for the subnet. Nothing else changes: no other field of the agreement, no other agreement,
  no request, no condition, no rate, no guard, no other log, and nothing is burned.
\<close>

theorem top_up_extends:
  assumes free: "(p, ''agreement'') \<notin> locks s"
    and ra: "om_get (rental_agreements s) p = Some ra"
    and c: "conditions s (ra_rental_condition_id ra) = Some c"
    and credit: "top_up_credit (rc_daily_cost_cycles c) cycles (ra_paid_until_nanos ra) = Some (paid, days)"
    and funds: "default_fee P \<le> balance"
    and room: "has_room (Some p) 2 s"
  shows "\<exists>s' descr. run [(ReplyBalance balance, n1), (ReplyTransfer (Inr block), n2), (ReplyNotify (Inr cycles), n3)]
        (top_up_subnet P p n s) =
        Done (Inr \<lparr>tus_description = descr, tus_cycles_added = cycles, tus_days_added = days\<rparr>) s' \<and>
     calls [(ReplyBalance balance, n1), (ReplyTransfer (Inr block), n2), (ReplyNotify (Inr cycles), n3)]
        (top_up_subnet P p n s) =
       [CallAccountBalance (ledger_id P) (account_of P (self_id P) (subaccount_of P (ra_user ra))),
        CallLedgerTransfer (ledger_id P)
          \<lparr>ta_to = account_of P (cmc_id P) (subaccount_of P (self_id P)), ta_fee = default_fee P,
           ta_from_subaccount = Some (subaccount_of P (ra_user ra)),
           ta_amount = tokens_sub P (tokens_sub P balance (default_fee P)) (default_fee P),
           ta_memo = MEMO_TOP_UP_CANISTER, ta_created_at_time = None\<rparr>,
        CallNotifyTopUp (cmc_id P) \<lparr>nta_block_index = block, nta_canister_id = self_id P\<rparr>] \<and>
     om_get (rental_agreements s') = (om_get (rental_agreements s))(p \<mapsto> ra
       \<lparr>ra_total_cycles_created := saturating_add (ra_total_cycles_created ra) cycles,
        ra_total_icp_paid := tokens_add P (ra_total_icp_paid ra) balance,
        ra_paid_until_nanos := paid\<rparr>) \<and>
     log_of (Some p) s' = log_of (Some p) s @
       [event_of_type n3 (TransferSuccess (tokens_sub P balance (default_fee P)) block),
        event_of_type n3 (SubnetTopUp (ra_user ra) balance cycles days paid)] \<and>
     (\<forall>k. k \<noteq> Some p \<longrightarrow> log_of k s' = log_of k s) \<and>
     rental_requests s' = rental_requests s \<and> conditions s' = conditions s \<and> rates s' = rates s \<and>
     burn_log s' = burn_log s \<and> locks s' = locks s"
proof -
  have "has_room (Some p) (Suc (Suc 0)) s" "has_room (Some p) (Suc 0) s"
    using room by (auto elim: has_room_mono)
  then show ?thesis
    using free ra c credit funds [folded not_less]
    by (simp add: top_up_subnet_def top_up_body_def top_up_credit_agreement_def Let_def
      get_rental_agreement_def get_rental_conditions_def exec_simps check_subaccount_balance_def
      convert_icp_to_cycles_def transfer_to_cmc_def ledger_transfer_def update_rental_agreement_def
      notify_top_up_def emit_def log_simps)
qed

theorem top_up_extends_witness:
  "\<exists>s' st. run [(ReplyBalance (Tokens 30000), 1), (ReplyTransfer (Inr 7), 2), (ReplyNotify (Inr (820 * TRILLION)), 3)]
      (top_up_subnet demo_platform demo_subnet 0 demo_leased) = Done (Inr st) s' \<and> tus_days_added st = 1 \<and>
    (\<exists>a. om_get (rental_agreements s') demo_subnet = Some a \<and> ra_total_icp_paid a = Tokens 31000)"
proof -
  have "seconds_paid (820 * TRILLION) (820 * TRILLION) = 86400"
    by (simp add: seconds_paid_def TRILLION_def)
  then have c: "top_up_credit (rc_daily_cost_cycles demo_condition) (820 * TRILLION) (ra_paid_until_nanos demo_agreement) =
      Some (reprice (820 * TRILLION) (820 * TRILLION) (ra_paid_until_nanos demo_agreement), 1)"
    by (simp add: top_up_credit_reprice) (simp add: TRILLION_def)
  from top_up_extends [where P = demo_platform and p = demo_subnet and s = demo_leased and n = 0
      and balance = "Tokens 30000" and ?n1.0 = 1 and block = 7 and ?n2.0 = 2 and ?n3.0 = 3
      and ra = demo_agreement and c = demo_condition, OF _ _ _ c]
  show ?thesis by (force simp: demo_agreement_def demo_platform_def less_eq_tokens_def saturating_add_def)
qed

text \<open>
  C24: a concurrent top-up, one of an unknown subnet and one of a balance below the fee
  leave every agreement as it is; the last is logged.
\<close>

theorem top_up_refused:
  assumes room: "has_room (Some p) 1 s"
  shows "((p, ''agreement'') \<in> locks s \<longrightarrow> top_up_subnet P p n s = Done (Inl ''Concurrent call, aborting'') s) \<and>
    ((p, ''agreement'') \<notin> locks s \<longrightarrow> om_get (rental_agreements s) p = None \<longrightarrow>
       top_up_subnet P p n s = Done (Inl ''Rental agreement not found'') s) \<and>
    (\<forall>ra balance n1. (p, ''agreement'') \<notin> locks s \<longrightarrow> om_get (rental_agreements s) p = Some ra \<longrightarrow>
       balance < default_fee P \<longrightarrow>
       (\<exists>reason s'. run [(ReplyBalance balance, n1)] (top_up_subnet P p n s) = Done (Inl reason) s' \<and>
          log_of (Some p) s' = log_of (Some p) s @ [event_of_type n1 (SubnetTopUpFailed (ra_user ra) reason)] \<and>
          rental_agreements s' = rental_agreements s \<and> locks s' = locks s))"
  using room
  by (auto simp: top_up_subnet_def top_up_body_def Let_def get_rental_agreement_def exec_simps
      check_subaccount_balance_def top_up_failed_def emit_def log_simps)

theorem top_up_refused_witness:
  "top_up_subnet demo_platform demo_subnet 0 demo_state = Done (Inl ''Rental agreement not found'') demo_state \<and>
   (\<exists>reason s'. run [(ReplyBalance (Tokens 5), 1)] (top_up_subnet demo_platform demo_subnet 0 demo_leased) =
      Done (Inl reason) s' \<and> rental_agreements s' = rental_agreements demo_leased)"
proof -
  have "Tokens 5 < default_fee demo_platform" by (simp add: demo_platform_def less_tokens_def)
  then show ?thesis
    using top_up_refused [of demo_subnet demo_state demo_platform 0]
      top_up_refused [of demo_subnet demo_leased demo_platform 0] by fastforce
qed

definition demo_admins :: update_subnet_admins_payload where
  "demo_admins = \<lparr>usa_subnet_id = demo_subnet, usa_operation_type = Some (OpAdd [Principal [9]])\<rparr>"

text \<open>
  C15: the registry is only ever asked to change the admins of a subnet by the user who
  rents that subnet, under the subnet's guard, and with exactly the requested operation.
\<close>

theorem admins_only_for_renter:
  assumes "wf s" and "update_subnet_admins P caller payload n s = Suspended c h s' k"
  shows "(\<exists>ra. om_get (rental_agreements s) (usa_subnet_id payload) = Some ra \<and> ra_user ra = caller) \<and>
    h = [(usa_subnet_id payload, ''agreement'')] \<and>
    (\<exists>registry x. c = CallUpdateSubnetAdmins registry \<lparr>usa_subnet_id = usa_subnet_id payload, usa_operation_type = Some x\<rparr> \<and>
       usa_operation_type payload = Some x \<and> x \<noteq> OpAdd [] \<and> x \<noteq> OpRemove []) \<and>
    (\<forall>n' s''. k ReplyUnit n' s'' = Done AdminsOk (unlock_id (usa_subnet_id payload, ''agreement'') s''))"
proof (cases "verify_caller_is_renting_subnet caller (usa_subnet_id payload) s")
  case (Inl e)
  with assms(2) show ?thesis by (simp add: update_subnet_admins_def Let_def exec_simps)
next
  case (Inr u)
  then have renting: "\<exists>ra. om_get (rental_agreements s) (usa_subnet_id payload) = Some ra \<and> ra_user ra = caller"
    using renting_subnet_iff [OF assms(1)] by simp
  obtain x where x: "usa_operation_type payload = Some x" "x \<noteq> OpAdd []" "x \<noteq> OpRemove []"
    using assms(2) Inr
    by (cases "check_operation (usa_operation_type payload)")
      (auto simp: update_subnet_admins_def Let_def exec_simps check_operation_ok split: if_splits)
  have oper: "check_operation (usa_operation_type payload) = Inr ()"
    using x by (simp add: check_operation_ok)
  have payload': "registry_admins_payload payload = \<lparr>usa_subnet_id = usa_subnet_id payload, usa_operation_type = Some x\<rparr>"
    using x by (simp add: registry_admins_payload_def split: operation_type.split)
  show ?thesis
    using renting assms(2) Inr x oper payload'
    by (cases "principal_from_text P ''rwlgt-iiaaa-aaaaa-aaaaa-cai''")
      (auto simp: update_subnet_admins_def Let_def exec_simps registry_update_subnet_admins_def
        get_registry_canister_id_def split: if_splits)
qed

theorem admins_only_for_renter_witness:
  "\<exists>registry s' k. update_subnet_admins demo_platform (Principal [9]) demo_admins 0 demo_leased =
     Suspended (CallUpdateSubnetAdmins registry demo_admins) [(demo_subnet, ''agreement'')] s' k \<and>
     (\<exists>ra. om_get (rental_agreements demo_leased) demo_subnet = Some ra \<and> ra_user ra = Principal [9])"
proof -
  have "verify_caller_is_renting_subnet (Principal [9]) demo_subnet demo_leased = Inr ()"
    by (simp add: renting_subnet_iff) (simp add: demo_agreement_def)
  then obtain c h s' k where u: "update_subnet_admins demo_platform (Principal [9]) demo_admins 0 demo_leased = Suspended c h s' k"
    by (auto simp: update_subnet_admins_def demo_admins_def check_operation_def exec_simps
        registry_update_subnet_admins_def get_registry_canister_id_def demo_platform_def)
  from admins_only_for_renter [OF _ u] u show ?thesis by (auto simp: demo_admins_def)
qed

end
