(* ===== verification/Src_Timers.thy ===== *)
theory Src_Timers
  imports Src_External
begin

text \<open>
  The two timer tasks of \<^verbatim>\<open>canister.rs\<close>. \<open>burn_cycles\<close> runs in one part: it re-reads each
  agreement of its snapshot under the guard \<^verbatim>\<open>"agreement"\<close>. \<open>locking\<close> awaits conversions
  inside its loop and goes on with the snapshot of requests it took at its start; a request
  that was changed in the meantime is not re-read.
\<close>

section \<open>Burning cycles\<close>

definition add_burned :: "u128 \<Rightarrow> rental_agreement \<Rightarrow> rental_agreement" where
  "add_burned burned agreement =
     agreement\<lparr>ra_total_cycles_burned := saturating_add (ra_total_cycles_burned agreement) burned\<rparr>"

definition burn_and_record :: "platform \<Rightarrow> rental_agreement \<Rightarrow> u128 \<Rightarrow> unit prog" where
  "burn_and_record P rental_agreement amount =
     bnd (cycles_burn P amount) (\<lambda>burned.
     bnd (update_with (update_rental_agreement (ra_subnet_id rental_agreement) (add_burned burned))) (\<lambda>_.
     ret ()))"

definition burn_agreement :: "platform \<Rightarrow> rental_agreement \<Rightarrow> unit prog" where
  "burn_agreement P snapshot =
     bnd (gets (get_rental_agreement (ra_subnet_id snapshot))) (\<lambda>found.
     case found of
       None \<Rightarrow> ret ()
     | Some rental_agreement \<Rightarrow>
     let total_cycles_remaining =
           saturating_sub (ra_total_cycles_created rental_agreement) (ra_total_cycles_burned rental_agreement);
         paid_until_nanos = ra_paid_until_nanos rental_agreement
     in
     bnd api_time (\<lambda>now_nanos.
     if total_cycles_remaining = 0 then ret ()
     else if now_nanos \<ge> paid_until_nanos then burn_and_record P rental_agreement total_cycles_remaining
     else (case amount_to_burn total_cycles_remaining paid_until_nanos now_nanos of
             None \<Rightarrow> panic ''burn_cycles: attempt to divide by zero''
           | Some amount \<Rightarrow> burn_and_record P rental_agreement amount)))"

primrec burn_loop :: "platform \<Rightarrow> rental_agreement list \<Rightarrow> unit prog" where
  "burn_loop P [] = ret ()"
| "burn_loop P (a # as) =
     bnd (with_guard (ra_subnet_id a, ''agreement'') (ret ()) (burn_agreement P a)) (\<lambda>_. burn_loop P as)"

definition burn_cycles :: "platform \<Rightarrow> unit prog" where
  "burn_cycles P = bnd (gets iter_rental_agreements) (\<lambda>agreements. burn_loop P (map snd agreements))"

section \<open>Locking ICP\<close>

definition ten_percent :: "rental_request \<Rightarrow> tokens" where
  "ten_percent r = Tokens (e8s (rr_initial_cost_icp r) div 10)"

definition days_since_last_locking :: "u64 \<Rightarrow> rental_request \<Rightarrow> u64" where
  "days_since_last_locking now_nanos r =
     (now_nanos - rr_last_locking_time_nanos r) div BILLION div 60 div 60 div 24"

definition fully_locked :: "rental_request \<Rightarrow> bool" where
  "fully_locked r \<longleftrightarrow> rr_locked_amount_icp r \<ge> Tokens (e8s (ten_percent r) * 10)"

definition locked_request :: "platform \<Rightarrow> u64 \<Rightarrow> rental_request \<Rightarrow> u128 \<Rightarrow> rental_request" where
  "locked_request P now_nanos r locked_cycles = r
     \<lparr>rr_locked_amount_icp := tokens_add P (rr_locked_amount_icp r) (ten_percent r),
      rr_locked_amount_cycles := rr_locked_amount_cycles r + locked_cycles,
      rr_last_locking_time_nanos := now_nanos\<rparr>"

definition lock_request :: "platform \<Rightarrow> u64 \<Rightarrow> rental_request \<Rightarrow> unit prog" where
  "lock_request P now_nanos r =
     (let user = rr_user r in
     bnd (convert_icp_to_cycles P (ten_percent r) (subaccount_of P user)) (\<lambda>res.
     case res of
       Inl e \<Rightarrow> emit (LockingFailure user (debug_execute_error P e)) (Some user)
     | Inr (block_index, locked_cycles) \<Rightarrow>
     bnd (emit (TransferSuccess (ten_percent r) block_index) (Some user)) (\<lambda>_.
     bnd (emit (LockingSuccess user (ten_percent r) locked_cycles) (Some user)) (\<lambda>_.
     bnd (update_with (update_rental_request user (\<lambda>_. locked_request P now_nanos r locked_cycles))) (\<lambda>res.
     case res of
       Inl e \<Rightarrow> panic ''locking: unwrap of update_rental_request''
     | Inr _ \<Rightarrow> ret ())))))"

primrec lock_loop :: "platform \<Rightarrow> u64 \<Rightarrow> rental_request list \<Rightarrow> unit prog" where
  "lock_loop P now_nanos [] = ret ()"
| "lock_loop P now_nanos (r # rs) =
     bnd (if days_since_last_locking now_nanos r < 30 then ret ()
          else if fully_locked r then ret ()
          else with_guard (rr_user r, ''request'') (ret ()) (lock_request P now_nanos r)) (\<lambda>_.
     lock_loop P now_nanos rs)"

definition locking :: "platform \<Rightarrow> unit prog" where
  "locking P =
     bnd api_time (\<lambda>now_nanos.
     bnd (gets iter_rental_requests) (\<lambda>requests. lock_loop P now_nanos (map snd requests)))"

section \<open>Safety of burning\<close>

lemma burn_and_record_held:
  assumes P: "burns_at_most P" and l: "later H a X s0 s" and H: "(p, ''agreement'') \<in> H"
    and ra: "om_get (rental_agreements s) p = Some ra"
    and amount: "amount \<le> saturating_sub (ra_total_cycles_created ra) (ra_total_cycles_burned ra)"
  shows "wp (src_spec P) (held H) H X s0 (burn_and_record P ra amount) n s"
proof -
  have ok: "agreement_ok p ra" using later_wf [OF l] ra by (simp add: wf_def)
  have "good X s0 (s\<lparr>burn_log := bl, rental_agreements := om_insert p (add_burned b ra) (rental_agreements s)\<rparr>)"
    if "b \<le> amount" for b bl
  proof -
    have sum: "unat (ra_total_cycles_burned ra) + unat b \<le> unat (ra_total_cycles_created ra)"
      using ok amount that by (auto simp: agreement_ok_def word_le_nat_alt unat_saturating_sub)
    moreover have "unat (ra_total_cycles_created ra) < 2 ^ 128"
      using unat_less_len [of "ra_total_cycles_created ra"] by simp
    ultimately have "agreement_ok p (add_burned b ra)"
      using ok by (simp add: agreement_ok_def add_burned_def word_le_nat_alt unat_saturating_add)
    moreover have "agreement_evolves ra (add_burned b ra)"
      by (simp add: agreement_evolves_def add_burned_def)
    ultimately show ?thesis
      using l H ra good_update_agreement [OF good_burn_log [of X s0 s bl], of p "add_burned b ra" ra]
      by (auto simp: later_def)
  qed
  then have "held H x X s0 n
      (s\<lparr>burn_log := bl, rental_agreements := om_insert p (add_burned b ra) (rental_agreements s)\<rparr>)"
    if "b \<le> amount" for b bl x
    using that l by (intro held_good) (auto simp: later_def)
  moreover have "system_burn P (burn_log s) amount \<le> amount" using P by (simp add: burns_at_most_def)
  ultimately show ?thesis
    using ra ok by (simp add: burn_and_record_def cycles_burn_def wp_bnd wp_update_with Let_def wp_ret
        update_rental_agreement_def agreement_ok_def)
qed

lemma burn_agreement_held:
  assumes P: "burns_at_most P" and l: "later H a X s0 s" and H: "(ra_subnet_id snap, ''agreement'') \<in> H"
  shows "wp (src_spec P) (held H) H X s0 (burn_agreement P snap) n s"
proof (cases "om_get (rental_agreements s) (ra_subnet_id snap)")
  case None
  with l show ?thesis
    by (auto simp: burn_agreement_def get_rental_agreement_def wp_bnd wp_gets wp_ret intro: heldI)
next
  case (Some ra)
  note burn = burn_and_record_held [OF P l H Some]
  from l Some show ?thesis
    by (auto simp: burn_agreement_def get_rental_agreement_def wp_bnd wp_gets wp_ret wp_api_time wp_panic Let_def
        split: option.split intro: heldI burn amount_to_burn_le)
qed

lemma burn_loop_held:
  assumes P: "burns_at_most P"
  shows "later {} a X s0 s \<Longrightarrow> wp (src_spec P) (held {}) {} X s0 (burn_loop P as) n s"
proof (induction as arbitrary: a X s0 n s)
  case Nil
  then show ?case by (auto simp: wp_ret intro: heldI)
next
  case (Cons r as)
  have "wp (src_spec P) (held {}) {} X s0
      (with_guard (ra_subnet_id r, ''agreement'') (ret ()) (burn_agreement P r)) n s"
    using Cons.prems by (rule wp_guard_held)
      (auto simp: wp_ret intro: heldI Cons.prems burn_agreement_held [OF P])
  then show ?case
    unfolding burn_loop.simps by (rule wp_seq) (erule heldE, rule Cons.IH)
qed

lemma burn_cycles_safe:
  assumes "burns_at_most P"
  shows "message_safe (src_spec P) (burn_cycles P)"
  by (rule message_safeI) (auto simp: burn_cycles_def wp_bnd wp_gets intro: burn_loop_held [OF assms])

section \<open>Safety of locking\<close>

text \<open>A locking keeps the locked amount a multiple of a tenth, at most ten of them.\<close>

lemma ten_percent_unat: "unat (e8s (ten_percent r)) = unat (e8s (rr_initial_cost_icp r)) div 10"
  by (simp add: ten_percent_def unat_div)

lemma fully_locked_iff:
  "fully_locked r \<longleftrightarrow> 10 * (unat (e8s (rr_initial_cost_icp r)) div 10) \<le> unat (e8s (rr_locked_amount_icp r))"
proof -
  have "unat (e8s (ten_percent r)) * 10 < 2 ^ 64"
    using unat_less_len [of "e8s (rr_initial_cost_icp r)"] by (simp add: ten_percent_unat)
  then have "unat (e8s (ten_percent r) * 10) = 10 * (unat (e8s (rr_initial_cost_icp r)) div 10)"
    by (simp add: unat_mult_exact ten_percent_unat)
  then show ?thesis by (simp add: fully_locked_def tokens_le_iff)
qed

lemma request_ok_locked:
  assumes P: "tokens_saturate P" and r: "request_ok u r" and "\<not> fully_locked r"
  shows "request_ok u (locked_request P now r c)"
proof -
  let ?d = "unat (e8s (rr_initial_cost_icp r)) div 10"
  obtain k where k: "unat (e8s (rr_locked_amount_icp r)) = k * ?d"
    using r by (auto simp: request_ok_def locked_ok_def)
  then have less: "k * ?d < 10 * ?d" using assms(3) by (simp add: fully_locked_iff)
  then have "k < 10" by simp
  moreover have "k * ?d + ?d < 2 ^ 64"
  proof -
    have "k * ?d + ?d \<le> 10 * ?d" using \<open>k < 10\<close> mult_le_mono1 [of "k + 1" 10 ?d] by simp
    also have "\<dots> < 2 ^ 64" using unat_less_len [of "e8s (rr_initial_cost_icp r)"] by simp
    finally show ?thesis .
  qed
  then have "unat (e8s (tokens_add P (rr_locked_amount_icp r) (ten_percent r))) = (k + 1) * ?d"
    by (simp add: tokens_add_e8s [OF P] k ten_percent_unat)
  ultimately show ?thesis
    using r by (auto simp: request_ok_def locked_ok_def locked_request_def intro!: exI [of _ "k + 1"])
qed

lemma lock_request_held:
  assumes P: "tokens_saturate P" and l: "later H a X s0 s" and H: "(rr_user r, ''request'') \<in> H"
    and r: "request_ok (rr_user r) r" "\<not> fully_locked r"
  shows "wp (src_spec P) (held H) H X s0 (lock_request P now r) n s"
proof -
  have store: "wp (src_spec P) (held H) H X s0
      (bnd (update_with (update_rental_request (rr_user r) (\<lambda>_. locked_request P now r c))) (\<lambda>res.
       case res of Inl e \<Rightarrow> panic ''locking: unwrap of update_rental_request'' | Inr _ \<Rightarrow> ret ())) n s"
    if l: "later H a X s0 s" for X s0 n s c
  proof -
    have "good X s0 (s\<lparr>rental_requests := om_insert (rr_user r) (locked_request P now r c) (rental_requests s)\<rparr>)"
      using l H request_ok_locked [OF P r] by (intro good_put_request) (auto simp: later_def)
    then have "held H x X s0 n (s\<lparr>rental_requests := om_insert (rr_user r) (locked_request P now r c) (rental_requests s)\<rparr>)" for x :: unit
      using l by (intro held_good) (auto simp: later_def)
    then show ?thesis
      by (simp add: wp_bnd wp_update_with update_rental_request_def wp_ret wp_panic split: option.split)
  qed
  show ?thesis
    unfolding lock_request_def Let_def wp_bnd using l
  proof (rule wp_convertI, goal_cases)
    case (1 x X' n' s')
    show ?case
    proof (cases x)
      case (Inl e)
      with 1 show ?thesis by (auto intro!: wp_emitI intro: heldI)
    next
      case (Inr q)
      obtain block c where q: "q = (block, c)" by fastforce
      show ?thesis
        unfolding Inr q sum.case prod.case wp_bnd using 1
        by (rule wp_emitI) (erule wp_emitI, erule store [unfolded wp_bnd])
    qed
  qed
qed

lemma lock_loop_held:
  assumes P: "tokens_saturate P"
  shows "later {} a X s0 s \<Longrightarrow> \<forall>r\<in>set rs. request_ok (rr_user r) r \<Longrightarrow>
    wp (src_spec P) (held {}) {} X s0 (lock_loop P now rs) n s"
proof (induction rs arbitrary: a X s0 n s)
  case Nil
  then show ?case by (auto simp: wp_ret intro: heldI)
next
  case (Cons r rs)
  have "wp (src_spec P) (held {}) {} X s0
      (with_guard (rr_user r, ''request'') (ret ()) (lock_request P now r)) n s" if "\<not> fully_locked r"
    using Cons.prems(1) by (rule wp_guard_held)
      (use Cons.prems that in \<open>auto simp: wp_ret intro: heldI lock_request_held [OF P]\<close>)
  then have "wp (src_spec P) (held {}) {} X s0
     (if days_since_last_locking now r < 30 then ret ()
      else if fully_locked r then ret ()
      else with_guard (rr_user r, ''request'') (ret ()) (lock_request P now r)) n s"
    using Cons.prems(1) by (auto simp: wp_ret intro: heldI)
  then show ?case
    unfolding lock_loop.simps by (rule wp_seq) (use Cons.prems(2) in \<open>auto elim!: heldE intro: Cons.IH\<close>)
qed

lemma locking_safe:
  assumes P: "tokens_saturate P"
  shows "message_safe (src_spec P) (locking P)"
proof (rule message_safeI)
  fix n s assume wf: "wf s" and l: "later {} s (locks s) s s"
  have "\<forall>r\<in>set (map snd (iter_rental_requests s)). request_ok (rr_user r) r"
    using wf by (auto simp: iter_rental_requests_def om_entries_get wf_def request_ok_def)
  then show "wp (src_spec P) (held {}) {} (locks s) s (locking P) n s"
    by (auto simp: locking_def wp_bnd wp_gets wp_api_time intro!: lock_loop_held [OF P l])
qed

section \<open>What the timers do\<close>

text \<open>What a tick asks the system to burn for an agreement.\<close>

definition burn_request :: "rental_agreement \<Rightarrow> u64 \<Rightarrow> u128 option" where
  "burn_request ra now =
     (let rem = saturating_sub (ra_total_cycles_created ra) (ra_total_cycles_burned ra) in
      if rem = 0 then Some 0
      else if ra_paid_until_nanos ra \<le> now then Some rem
      else amount_to_burn rem (ra_paid_until_nanos ra) now)"

lemma burn_step:
  assumes ra: "om_get (rental_agreements s) (ra_subnet_id snap) = Some ra" and ok: "ra_subnet_id ra = ra_subnet_id snap"
    and free: "(ra_subnet_id snap, ''agreement'') \<notin> locks s"
  shows "with_guard (ra_subnet_id snap, ''agreement'') (ret ()) (burn_agreement P snap) now s =
    (case burn_request ra now of
       None \<Rightarrow> Trapped ''burn_cycles: attempt to divide by zero''
     | Some amount \<Rightarrow>
         if amount = 0 \<and> ra_total_cycles_created ra \<le> ra_total_cycles_burned ra then Done () s
         else
           let burned = system_burn P (burn_log s) amount in
           Done () (s\<lparr>burn_log := burn_log s @ [(amount, burned)],
             rental_agreements := om_insert (ra_subnet_id snap) (add_burned burned ra) (rental_agreements s)\<rparr>))"
  using assms
  by (auto simp: burn_agreement_def burn_and_record_def burn_request_def exec_simps Let_def
     get_rental_agreement_def cycles_burn_def update_rental_agreement_def not_le [symmetric] lock_id_def unlock_id_def
     split: option.split)

text \<open>
  C14: a tick asks to burn everything left of an overdue agreement, or the share of the
  minute, adds what was burned to the agreement without overflow, and goes on with the rest.
\<close>

theorem burn_tick:
  assumes ra: "om_get (rental_agreements s) p = Some ra" and snap: "ra_subnet_id snap = p"
    and ok: "ra_subnet_id ra = p" "ra_total_cycles_burned ra < ra_total_cycles_created ra"
    and free: "(p, ''agreement'') \<notin> locks s" and amount: "burn_request ra now = Some amount"
  shows "let burned = system_burn P (burn_log s) amount;
       s' = s\<lparr>burn_log := burn_log s @ [(amount, burned)],
             rental_agreements := om_insert p (add_burned burned ra) (rental_agreements s)\<rparr>
     in burn_loop P (snap # snaps) now s = burn_loop P snaps now s' \<and>
        (burns_at_most P \<longrightarrow> unat (ra_total_cycles_burned (add_burned burned ra)) =
           unat (ra_total_cycles_burned ra) + unat burned)"
proof -
  let ?b = "system_burn P (burn_log s) amount"
  have "amount \<le> saturating_sub (ra_total_cycles_created ra) (ra_total_cycles_burned ra)"
    using amount by (auto simp: burn_request_def Let_def split: if_splits dest: amount_to_burn_le)
  then have bound: "unat (ra_total_cycles_burned ra) + unat ?b < 2 ^ 128" if "burns_at_most P"
  proof -
    have "?b \<le> amount" using that by (simp add: burns_at_most_def)
    then have "unat ?b \<le> unat (ra_total_cycles_created ra) - unat (ra_total_cycles_burned ra)"
      using \<open>amount \<le> _\<close> by (simp add: word_le_nat_alt unat_saturating_sub)
    then show ?thesis
      using ok(2) unat_less_len [of "ra_total_cycles_created ra"] by (simp add: word_less_nat_alt)
  qed
  have "unat (ra_total_cycles_burned (add_burned ?b ra)) = unat (ra_total_cycles_burned ra) + unat ?b"
    if "burns_at_most P"
    using bound [OF that] by (simp add: add_burned_def unat_saturating_add)
  moreover have "with_guard (p, ''agreement'') (ret ()) (burn_agreement P snap) now s =
      Done () (s\<lparr>burn_log := burn_log s @ [(amount, ?b)],
        rental_agreements := om_insert p (add_burned ?b ra) (rental_agreements s)\<rparr>)"
    using burn_step [of s snap ra P now] assms by (simp add: not_le [symmetric] Let_def)
  ultimately show ?thesis by (simp add: snap bnd_def Let_def)
qed

theorem burn_tick_witness:
  "\<exists>s'. burn_loop demo_platform [demo_agreement] 0 demo_leased = burn_loop demo_platform [] 0 s' \<and>
     burn_log s' = [(264 * TRILLION, 264 * TRILLION)]"
proof -
  have "burn_request demo_agreement 0 = Some (264 * TRILLION)"
    by (simp add: burn_request_def demo_agreement_def amount_to_burn_def src_constants saturating_sub_def)
  moreover have "ra_total_cycles_burned demo_agreement < ra_total_cycles_created demo_agreement"
    by (simp add: demo_agreement_def TRILLION_def)
  ultimately show ?thesis
    using burn_tick [of demo_leased demo_subnet demo_agreement demo_agreement 0 "264 * TRILLION" demo_platform "[]"]
    by (auto simp: demo_agreement_def Let_def)
qed

text \<open>An agreement in its last second stops the whole tick.\<close>

lemma burn_loop_traps:
  assumes "burn_request ra now = None"
  shows "\<lbrakk>p \<in> ra_subnet_id ` set as; om_get (rental_agreements s) p = Some ra; (p, ''agreement'') \<notin> locks s;
      \<forall>q a. om_get (rental_agreements s) q = Some a \<longrightarrow> ra_subnet_id a = q\<rbrakk> \<Longrightarrow>
    burn_loop P as now s = Trapped ''burn_cycles: attempt to divide by zero''"
proof (induction as arbitrary: s)
  case (Cons snap as)
  let ?q = "ra_subnet_id snap" and ?trap = "''burn_cycles: attempt to divide by zero''"
  let ?g = "with_guard (?q, ''agreement'') (ret ()) (burn_agreement P snap)"
  show ?case
  proof (cases "?q = p")
    case True
    with Cons.prems assms have "?g now s = Trapped ?trap"
      using burn_step [of s snap ra P now] by simp
    then show ?thesis by (simp add: bnd_def)
  next
    case False
    have "?g now s = Trapped ?trap \<or> (\<exists>s'. ?g now s = Done () s' \<and> om_get (rental_agreements s') p = Some ra \<and>
        locks s' = locks s \<and> (\<forall>q a. om_get (rental_agreements s') q = Some a \<longrightarrow> ra_subnet_id a = q))"
    proof (cases "(?q, ''agreement'') \<in> locks s \<or> om_get (rental_agreements s) ?q = None")
      case True
      then show ?thesis using Cons.prems
        by (auto simp: with_guard_def caller_guard_new_def burn_agreement_def get_rental_agreement_def exec_simps)
    next
      case False
      then obtain a where a: "om_get (rental_agreements s) ?q = Some a" by auto
      then have "ra_subnet_id a = ?q" using Cons.prems(4) by simp
      with a False \<open>?q \<noteq> p\<close> Cons.prems show ?thesis
        using burn_step [of s snap a P now]
        by (auto simp: Let_def add_burned_def split: option.split)
    qed
    then show ?thesis
    proof (elim disjE exE conjE)
      assume "?g now s = Trapped ?trap"
      then show ?thesis by (simp add: bnd_def)
    next
      fix s' assume s': "?g now s = Done () s'" "om_get (rental_agreements s') p = Some ra"
        "locks s' = locks s" "\<forall>q a. om_get (rental_agreements s') q = Some a \<longrightarrow> ra_subnet_id a = q"
      then have "burn_loop P as now s' = Trapped ?trap"
        using Cons.prems(1,3) False by (intro Cons.IH) auto
      with s'(1) show ?thesis by (simp add: bnd_def)
    qed
  qed
qed simp

text \<open>
  C27: one agreement with less than a second of paid time left makes the whole tick trap,
  so that no subnet's cycles are burned in it.
\<close>

theorem burn_last_second_stops_all:
  assumes wf: "wf s" and ra: "om_get (rental_agreements s) p = Some ra" and free: "(p, ''agreement'') \<notin> locks s"
    and left: "ra_total_cycles_burned ra < ra_total_cycles_created ra"
    and last: "now < ra_paid_until_nanos ra" "unat (ra_paid_until_nanos ra) - unat now < 10 ^ 9"
  shows "burn_cycles P now s = Trapped ''burn_cycles: attempt to divide by zero''"
proof -
  have none: "burn_request ra now = None"
    using left last amount_to_burn_None_iff [of now "ra_paid_until_nanos ra"]
    by (simp add: burn_request_def Let_def not_le word_less_nat_alt word_le_nat_alt)
  have keyed: "\<forall>q a. om_get (rental_agreements s) q = Some a \<longrightarrow> ra_subnet_id a = q"
    using wf by (simp add: wf_def agreement_ok_def)
  have "ra \<in> set (map snd (om_entries (rental_agreements s)))"
    using ra om_entries_get [of p ra "rental_agreements s"] by force
  then have "p \<in> ra_subnet_id ` set (map snd (om_entries (rental_agreements s)))"
    using keyed ra by blast
  then show ?thesis
    using burn_loop_traps [OF none _ ra free keyed, of _ P]
    by (simp add: burn_cycles_def exec_simps iter_rental_agreements_def)
qed

theorem burn_last_second_stops_all_witness:
  "burn_cycles demo_platform (99 * BILLION + 1) demo_leased = Trapped ''burn_cycles: attempt to divide by zero''"
  using burn_last_second_stops_all [of demo_leased demo_subnet demo_agreement "99 * BILLION + 1" demo_platform]
  by (simp add: demo_agreement_def BILLION_def TRILLION_def)

section \<open>What locking does\<close>

text \<open>The requests that a locking task started at \<open>now\<close> has something to do for.\<close>

definition due :: "u64 \<Rightarrow> rental_request \<Rightarrow> bool" where
  "due now r \<longleftrightarrow> 30 \<le> days_since_last_locking now r \<and> \<not> fully_locked r"

lemma lock_loop_due:
  "lock_loop P now (r # rs) = bnd
    (if due now r then with_guard (rr_user r, ''request'') (ret ()) (lock_request P now r) else ret ())
    (\<lambda>_. lock_loop P now rs)"
  by (auto simp: due_def not_le)

text \<open>The calls of a conversion that succeeds, and the events of a locking.\<close>

definition conversion :: "platform \<Rightarrow> principal \<Rightarrow> tokens \<Rightarrow> u64 \<Rightarrow> call list" where
  "conversion P u amount block =
     [CallLedgerTransfer (ledger_id P)
        \<lparr>ta_to = account_of P (cmc_id P) (subaccount_of P (self_id P)), ta_fee = default_fee P,
         ta_from_subaccount = Some (subaccount_of P u), ta_amount = tokens_sub P amount (default_fee P),
         ta_memo = MEMO_TOP_UP_CANISTER, ta_created_at_time = None\<rparr>,
      CallNotifyTopUp (cmc_id P) \<lparr>nta_block_index = block, nta_canister_id = self_id P\<rparr>]"

text \<open>
  One turn of the loop for a due request, followed by any number of further replies. The answers
  to a conversion are the transfer's block, its time, the minted cycles and their time.
\<close>

lemma lock_turn:
  assumes due: "due now r" and free: "(rr_user r, ''request'') \<notin> locks s"
    and present: "om_get (rental_requests s) (rr_user r) \<noteq> None" and room: "has_room (Some (rr_user r)) 2 s"
  obtains s' where "\<And>more. run ((ReplyTransfer (Inr b), n1) # (ReplyNotify (Inr c), n2) # more) (lock_loop P now (r # rs) n s) =
      run more (lock_loop P now rs n2 s')"
    and "\<And>more. calls ((ReplyTransfer (Inr b), n1) # (ReplyNotify (Inr c), n2) # more) (lock_loop P now (r # rs) n s) =
      conversion P (rr_user r) (ten_percent r) b @ calls more (lock_loop P now rs n2 s')"
    and "om_get (rental_requests s') = (om_get (rental_requests s))(rr_user r \<mapsto> locked_request P now r c)"
    and "log_of (Some (rr_user r)) s' = log_of (Some (rr_user r)) s @
      [event_of_type n2 (TransferSuccess (ten_percent r) b), event_of_type n2 (LockingSuccess (rr_user r) (ten_percent r) c)]"
    and "\<And>k. k \<noteq> Some (rr_user r) \<Longrightarrow> log_of k s' = log_of k s"
    and "\<And>k m. k \<noteq> Some (rr_user r) \<Longrightarrow> has_room k m s \<Longrightarrow> has_room k m s'"
    and "locks s' = locks s" "rental_agreements s' = rental_agreements s" "conditions s' = conditions s"
      "rates s' = rates s" "burn_log s' = burn_log s"
proof
  let ?u = "Some (rr_user r)" and ?l = "(rr_user r, ''request'')"
  let ?s' = "unlock_id ?l ((persist_event n2 (LockingSuccess (rr_user r) (ten_percent r) c) ?u
      (persist_event n2 (TransferSuccess (ten_percent r) b) ?u (lock_id ?l s)))
    \<lparr>rental_requests := om_insert (rr_user r) (locked_request P now r c) (rental_requests s)\<rparr>)"
  have room: "has_room ?u (Suc (Suc 0)) s" "has_room ?u (Suc 0) s"
    using room by (auto elim: has_room_mono)
  show "run ((ReplyTransfer (Inr b), n1) # (ReplyNotify (Inr c), n2) # more) (lock_loop P now (r # rs) n s) =
      run more (lock_loop P now rs n2 ?s')"
    "calls ((ReplyTransfer (Inr b), n1) # (ReplyNotify (Inr c), n2) # more) (lock_loop P now (r # rs) n s) =
      conversion P (rr_user r) (ten_percent r) b @ calls more (lock_loop P now rs n2 ?s')" for more
    unfolding lock_loop_due using due free present
    by (auto simp: lock_request_def exec_simps Let_def convert_icp_to_cycles_def transfer_to_cmc_def
        ledger_transfer_def notify_top_up_def emit_def update_rental_request_def conversion_def)
  show "om_get (rental_requests ?s') = (om_get (rental_requests s))(rr_user r \<mapsto> locked_request P now r c)"
    "log_of ?u ?s' = log_of ?u s @
      [event_of_type n2 (TransferSuccess (ten_percent r) b), event_of_type n2 (LockingSuccess (rr_user r) (ten_percent r) c)]"
    "k \<noteq> ?u \<Longrightarrow> log_of k ?s' = log_of k s" "k \<noteq> ?u \<Longrightarrow> has_room k m s \<Longrightarrow> has_room k m ?s'" for k m
    using room by (simp_all add: log_simps)
qed (use free in auto)

text \<open>A successful run of the whole loop, with one answer for each due request.\<close>

type_synonym answer = "u64 \<times> u64 \<times> u128 \<times> u64"

definition answers :: "answer list \<Rightarrow> (reply \<times> u64) list" where
  "answers as = concat (map (\<lambda>(b, n1, c, n2). [(ReplyTransfer (Inr b), n1), (ReplyNotify (Inr c), n2)]) as)"

lemma answers_simps [simp]:
  "answers [] = []"
  "answers ((b, n1, c, n2) # as) = (ReplyTransfer (Inr b), n1) # (ReplyNotify (Inr c), n2) # answers as"
  by (simp_all add: answers_def)

definition lock_calls :: "platform \<Rightarrow> rental_request list \<Rightarrow> answer list \<Rightarrow> call list" where
  "lock_calls P ds as = concat (map2 (\<lambda>r (b, n1, c, n2). conversion P (rr_user r) (ten_percent r) b) ds as)"

lemma lock_calls_simps [simp]:
  "lock_calls P [] as = []"
  "lock_calls P (r # ds) ((b, n1, c, n2) # as) = conversion P (rr_user r) (ten_percent r) b @ lock_calls P ds as"
  by (simp_all add: lock_calls_def)

text \<open>What a run of the loop over \<open>ds\<close>, the due requests, has done to the state.\<close>

definition locked_all :: "platform \<Rightarrow> u64 \<Rightarrow> rental_request list \<Rightarrow> answer list \<Rightarrow> canister \<Rightarrow> canister \<Rightarrow> bool" where
  "locked_all P now ds as s s' \<longleftrightarrow>
     (\<forall>(r, b, n1, c, n2)\<in>set (zip ds as).
        om_get (rental_requests s') (rr_user r) = Some (locked_request P now r c) \<and>
        log_of (Some (rr_user r)) s' = log_of (Some (rr_user r)) s @
          [event_of_type n2 (TransferSuccess (ten_percent r) b),
           event_of_type n2 (LockingSuccess (rr_user r) (ten_percent r) c)]) \<and>
     (\<forall>u. u \<notin> rr_user ` set ds \<longrightarrow> om_get (rental_requests s') u = om_get (rental_requests s) u) \<and>
     (\<forall>k. k \<notin> Some ` rr_user ` set ds \<longrightarrow> log_of k s' = log_of k s) \<and>
     rental_agreements s' = rental_agreements s \<and> conditions s' = conditions s \<and> rates s' = rates s \<and>
     burn_log s' = burn_log s \<and> locks s' = locks s"

lemma locked_all_Nil: "locked_all P now [] [] s s"
  by (simp add: locked_all_def)

lemma locked_all_Cons:
  assumes rest: "locked_all P now ds as s1 s'" and new: "rr_user r \<notin> rr_user ` set ds"
    and req: "om_get (rental_requests s1) = (om_get (rental_requests s))(rr_user r \<mapsto> locked_request P now r c)"
    and log: "log_of (Some (rr_user r)) s1 = log_of (Some (rr_user r)) s @
      [event_of_type n2 (TransferSuccess (ten_percent r) b), event_of_type n2 (LockingSuccess (rr_user r) (ten_percent r) c)]"
    and others: "\<And>k. k \<noteq> Some (rr_user r) \<Longrightarrow> log_of k s1 = log_of k s"
    and same: "locks s1 = locks s" "rental_agreements s1 = rental_agreements s" "conditions s1 = conditions s"
      "rates s1 = rates s" "burn_log s1 = burn_log s"
  shows "locked_all P now (r # ds) ((b, n1, c, n2) # as) s s'"
proof -
  have "log_of (Some (rr_user q)) s1 = log_of (Some (rr_user q)) s" if "(q, x) \<in> set (zip ds as)" for q x
    using set_zip_leftD [OF that] new by (intro others) (metis imageI option.inject)
  moreover have "Some (rr_user r) \<notin> Some ` rr_user ` set ds" using new by auto
  ultimately show ?thesis
    using rest new unfolding locked_all_def by (auto simp: req log same others case_prod_beta)
qed

lemma lock_loop_run:
  assumes "distinct (map rr_user rs)"
    and "\<And>r. r \<in> set rs \<Longrightarrow> due now r \<Longrightarrow> (rr_user r, ''request'') \<notin> locks s \<and>
      om_get (rental_requests s) (rr_user r) \<noteq> None \<and> has_room (Some (rr_user r)) 2 s"
    and "length as = length (filter (due now) rs)"
  shows "\<exists>s'. run (answers as) (lock_loop P now rs n s) = Done () s' \<and>
    calls (answers as) (lock_loop P now rs n s) =
      lock_calls P (filter (due now) rs) as \<and>
    locked_all P now (filter (due now) rs) as s s'"
  using assms
proof (induction rs arbitrary: as n s)
  case Nil
  then show ?case by (simp add: locked_all_Nil ret_def)
next
  case (Cons r rs)
  show ?case
  proof (cases "due now r")
    case False
    then have "lock_loop P now (r # rs) n s = lock_loop P now rs n s"
      unfolding lock_loop_due by (simp add: exec_simps)
    moreover have "\<exists>s'. run (answers as) (lock_loop P now rs n s) = Done () s' \<and>
        calls (answers as) (lock_loop P now rs n s) =
          lock_calls P (filter (due now) rs) as \<and>
        locked_all P now (filter (due now) rs) as s s'"
      using Cons.prems False by (intro Cons.IH) auto
    ultimately show ?thesis using False by (simp del: lock_loop.simps)
  next
    case True
    obtain b n1 c n2 as' where as: "as = (b, n1, c, n2) # as'"
      using Cons.prems(3) True by (cases as) auto
    from Cons.prems(2) [OF _ True] have "(rr_user r, ''request'') \<notin> locks s"
      and "om_get (rental_requests s) (rr_user r) \<noteq> None" and "has_room (Some (rr_user r)) 2 s" by simp_all
    from lock_turn [OF True this, of b n1 c n2 P rs n] obtain s1
      where run: "\<And>more. run ((ReplyTransfer (Inr b), n1) # (ReplyNotify (Inr c), n2) # more) (lock_loop P now (r # rs) n s) =
          run more (lock_loop P now rs n2 s1)"
        and calls: "\<And>more. calls ((ReplyTransfer (Inr b), n1) # (ReplyNotify (Inr c), n2) # more) (lock_loop P now (r # rs) n s) =
          conversion P (rr_user r) (ten_percent r) b @ calls more (lock_loop P now rs n2 s1)"
        and req: "om_get (rental_requests s1) = (om_get (rental_requests s))(rr_user r \<mapsto> locked_request P now r c)"
        and log: "log_of (Some (rr_user r)) s1 = log_of (Some (rr_user r)) s @
          [event_of_type n2 (TransferSuccess (ten_percent r) b), event_of_type n2 (LockingSuccess (rr_user r) (ten_percent r) c)]"
        and others: "\<And>k. k \<noteq> Some (rr_user r) \<Longrightarrow> log_of k s1 = log_of k s"
        and room: "\<And>k m. k \<noteq> Some (rr_user r) \<Longrightarrow> has_room k m s \<Longrightarrow> has_room k m s1"
        and same: "locks s1 = locks s" "rental_agreements s1 = rental_agreements s" "conditions s1 = conditions s"
          "rates s1 = rates s" "burn_log s1 = burn_log s"
      by blast
    have new: "rr_user r \<notin> rr_user ` set (filter (due now) rs)" and d: "distinct (map rr_user rs)"
      and len: "length as' = length (filter (due now) rs)"
      using Cons.prems(1,3) True as by auto
    have "(rr_user q, ''request'') \<notin> locks s1 \<and> om_get (rental_requests s1) (rr_user q) \<noteq> None \<and>
        has_room (Some (rr_user q)) 2 s1" if "q \<in> set rs" "due now q" for q
    proof -
      have "rr_user r \<notin> rr_user ` set rs" using Cons.prems(1) by simp
      then have "rr_user q \<noteq> rr_user r" using that(1) by (metis imageI)
      then show ?thesis using Cons.prems(2) [of q] that by (auto simp: req same intro: room)
    qed
    from Cons.IH [OF d this len, of n2] obtain s'
      where "run (answers as') (lock_loop P now rs n2 s1) = Done () s'"
        and "calls (answers as') (lock_loop P now rs n2 s1) =
          lock_calls P (filter (due now) rs) as'"
        and rest: "locked_all P now (filter (due now) rs) as' s1 s'" by blast
    moreover note locked_all_Cons [OF rest new req log others same]
    ultimately show ?thesis
      using True by (intro exI [of _ s']) (simp add: as run calls del: lock_loop.simps)
  qed
qed

lemma snapshot_of_wf:
  assumes "wf s"
  shows "distinct (map rr_user (map snd (om_entries (rental_requests s))))"
    and "r \<in> set (map snd (om_entries (rental_requests s))) \<longleftrightarrow> om_get (rental_requests s) (rr_user r) = Some r"
proof -
  have keyed: "rr_user r = u" if "om_get (rental_requests s) u = Some r" for u r
    using assms that by (simp add: wf_def request_ok_def)
  have "map rr_user (map snd (om_entries (rental_requests s))) = map fst (om_entries (rental_requests s))"
    using keyed by (auto simp: om_entries_get)
  then show "distinct (map rr_user (map snd (om_entries (rental_requests s))))"
    by (simp only: sorted_keys_distinct [OF om_entries_sorted])
  show "r \<in> set (map snd (om_entries (rental_requests s))) \<longleftrightarrow> om_get (rental_requests s) (rr_user r) = Some r"
  proof
    assume "r \<in> set (map snd (om_entries (rental_requests s)))"
    then obtain u where "om_get (rental_requests s) u = Some r" by (auto simp: om_entries_get)
    with keyed [OF this] show "om_get (rental_requests s) (rr_user r) = Some r" by simp
  next
    assume "om_get (rental_requests s) (rr_user r) = Some r"
    then have "(rr_user r, r) \<in> set (om_entries (rental_requests s))" by (simp add: om_entries_get)
    then show "r \<in> set (map snd (om_entries (rental_requests s)))" by (metis image_eqI list.set_map snd_conv)
  qed
qed

text \<open>
  C13: a locking task on a well-formed state whose conversions succeed, running alone, converts a tenth of
  the price of each request that is due (last locked 30 days ago or more, not fully locked), one after the other
  with one transfer and one minting each; it stores each of them with one more tenth, the minted
  cycles and the start of the task as its locking time, logs the two events of each, and changes
  nothing else. The hypotheses: no due request is in use, and its log has room for two events.
\<close>

theorem locking_effect:
  fixes now s
  defines "ds \<equiv> filter (due now) (map snd (om_entries (rental_requests s)))"
  assumes "wf s" and free: "\<forall>r\<in>set ds. (rr_user r, ''request'') \<notin> locks s"
    and room: "\<forall>r\<in>set ds. has_room (Some (rr_user r)) 2 s"
    and len: "length as = length ds"
  shows "\<exists>s'. run (answers as) (locking P now s) = Done () s' \<and>
    calls (answers as) (locking P now s) =
      concat (map2 (\<lambda>r (b, n1, c, n2). conversion P (rr_user r) (Tokens (e8s (rr_initial_cost_icp r) div 10)) b) ds as) \<and>
    (\<forall>(r, b, n1, c, n2)\<in>set (zip ds as).
      om_get (rental_requests s') (rr_user r) = Some (r
        \<lparr>rr_locked_amount_icp := tokens_add P (rr_locked_amount_icp r) (Tokens (e8s (rr_initial_cost_icp r) div 10)),
         rr_locked_amount_cycles := rr_locked_amount_cycles r + c, rr_last_locking_time_nanos := now\<rparr>) \<and>
      log_of (Some (rr_user r)) s' = log_of (Some (rr_user r)) s @
        [event_of_type n2 (TransferSuccess (Tokens (e8s (rr_initial_cost_icp r) div 10)) b),
         event_of_type n2 (LockingSuccess (rr_user r) (Tokens (e8s (rr_initial_cost_icp r) div 10)) c)]) \<and>
    (\<forall>u. u \<notin> rr_user ` set ds \<longrightarrow> om_get (rental_requests s') u = om_get (rental_requests s) u) \<and>
    (\<forall>k. k \<notin> Some ` rr_user ` set ds \<longrightarrow> log_of k s' = log_of k s) \<and>
    rental_agreements s' = rental_agreements s \<and> conditions s' = conditions s \<and> rates s' = rates s \<and>
    burn_log s' = burn_log s \<and> locks s' = locks s"
proof -
  let ?rs = "map snd (om_entries (rental_requests s))"
  have "(rr_user r, ''request'') \<notin> locks s \<and> om_get (rental_requests s) (rr_user r) \<noteq> None \<and>
      has_room (Some (rr_user r)) 2 s" if "r \<in> set ?rs" "due now r" for r
    using that free room snapshot_of_wf(2) [OF assms(2), of r] unfolding ds_def by auto
  from lock_loop_run [OF snapshot_of_wf(1) [OF assms(2)] this len [unfolded ds_def], of P now]
  have "\<exists>s'. run (answers as) (locking P now s) = Done () s' \<and>
      calls (answers as) (locking P now s) = lock_calls P ds as \<and> locked_all P now ds as s s'"
    by (simp add: ds_def locking_def exec_simps iter_rental_requests_def)
  then show ?thesis
    unfolding locked_all_def lock_calls_def locked_request_def ten_percent_def .
qed

definition demo_second :: rental_request where
  "demo_second = demo_request\<lparr>rr_user := Principal [10], rr_rental_condition_id := App7CH\<rparr>"

definition demo_two :: canister where
  "demo_two = demo_state\<lparr>rental_requests :=
     om_insert (Principal [9]) demo_request (om_insert (Principal [10]) demo_second om_empty)\<rparr>"

lemma demo_two_ok:
  "wf demo_two" "locks demo_two = {}" "has_room k 2 demo_two"
  "om_entries (rental_requests demo_two) = [(Principal [9], demo_request), (Principal [10], demo_second)]"
  "due (2592000 * BILLION) demo_request" "due (2592000 * BILLION) demo_second"
proof -
  show "wf demo_two"
    by (auto simp: demo_two_def demo_state_def wf_def history_inv_def history_ok_def event_count_def
      empty_canister_def request_ok_def locked_ok_def demo_request_def demo_second_def intro!: exI [of _ 1])
  show "om_entries (rental_requests demo_two) = [(Principal [9], demo_request), (Principal [10], demo_second)]"
    by (simp add: demo_two_def less_principal_def)
  show "due (2592000 * BILLION) demo_request" "due (2592000 * BILLION) demo_second"
    by (simp_all add: due_def fully_locked_iff days_since_last_locking_def demo_second_def demo_request_def BILLION_def)
qed (simp_all add: demo_two_def)

theorem locking_effect_witness:
  "\<exists>s'. run (answers [(7, 2, 11, 3), (8, 4, 12, 5)]) (locking demo_platform (30 * 86400 * BILLION) demo_two) = Done () s' \<and>
    (\<exists>r. om_get (rental_requests s') (Principal [10]) = Some r \<and> rr_locked_amount_icp r = Tokens 843934932388)"
proof -
  let ?now = "30 * 86400 * BILLION" and ?as = "[(7, 2, 11, 3), (8, 4, 12, 5)]"
  have ds: "filter (due ?now) (map snd (om_entries (rental_requests demo_two))) = [demo_request, demo_second]"
    by (simp add: demo_two_ok)
  have add: "tokens_add demo_platform (Tokens 421967466194) (Tokens 421967466194) = Tokens 843934932388"
    by (simp add: demo_platform_def saturating_add_def)
  have pre: "\<forall>r\<in>set [demo_request, demo_second]. (rr_user r, ''request'') \<notin> locks demo_two"
    "\<forall>r\<in>set [demo_request, demo_second]. has_room (Some (rr_user r)) 2 demo_two"
    "length ?as = length [demo_request, demo_second]" by (simp_all add: demo_two_ok)
  have "\<exists>s'. run (answers ?as) (locking demo_platform ?now demo_two) = Done () s' \<and>
      om_get (rental_requests s') (rr_user demo_second) = Some (demo_second
        \<lparr>rr_locked_amount_icp := tokens_add demo_platform (rr_locked_amount_icp demo_second)
           (Tokens (e8s (rr_initial_cost_icp demo_second) div 10)),
         rr_locked_amount_cycles := rr_locked_amount_cycles demo_second + 12, rr_last_locking_time_nanos := ?now\<rparr>)"
    using locking_effect [of demo_two ?now ?as demo_platform, unfolded ds, OF demo_two_ok(1) pre]
    by - (elim exE conjE, intro exI conjI, assumption, simp)
  then show ?thesis using add by (auto simp: demo_second_def demo_request_def)
qed

text \<open>Requests that are not due are not touched, whatever the replies are.\<close>

lemma keeps_convert:
  assumes "I s" and "\<And>c. c \<in> set (conversion P u amount block) \<Longrightarrow> C c"
    and "\<And>b. C (CallNotifyTopUp (cmc_id P) \<lparr>nta_block_index = b, nta_canister_id = self_id P\<rparr>)"
  shows "keeps C I (convert_icp_to_cycles P amount (subaccount_of P u) n s)"
  using assms by (auto simp: convert_icp_to_cycles_def transfer_to_cmc_def ledger_transfer_def notify_top_up_def
      conversion_def exec_simps split: reply.split sum.split)

definition untouched :: "principal \<Rightarrow> canister \<Rightarrow> canister \<Rightarrow> bool" where
  "untouched u s s' \<longleftrightarrow> om_get (rental_requests s') u = om_get (rental_requests s) u \<and>
     log_of (Some u) s' = log_of (Some u) s \<and> ((u, ''request'') \<in> locks s \<longrightarrow> (u, ''request'') \<in> locks s')"

lemma keeps_lock_request:
  assumes "untouched u s0 s" and "rr_user r \<noteq> u"
    and "\<And>c. c \<in> set (conversion P (rr_user r) (ten_percent r) 0) \<Longrightarrow> C c"
    and "\<And>b. C (CallNotifyTopUp (cmc_id P) \<lparr>nta_block_index = b, nta_canister_id = self_id P\<rparr>)"
  shows "keeps C (untouched u s0) (lock_request P now r n s)"
  unfolding lock_request_def Let_def
proof (rule keeps_bnd)
  show "keeps C (untouched u s0) (convert_icp_to_cycles P (ten_percent r) (subaccount_of P (rr_user r)) n s)"
    using assms by (intro keeps_convert) auto
qed (use assms(2) in \<open>auto simp: untouched_def exec_simps emit_def update_rental_request_def log_simps
    split: sum.split option.split\<close>)

lemma keeps_lock_loop:
  assumes C: "\<And>r c. r \<in> set rs \<Longrightarrow> due now r \<Longrightarrow> rr_user r \<noteq> u \<Longrightarrow> c \<in> set (conversion P (rr_user r) (ten_percent r) 0) \<Longrightarrow> C c"
    and N: "\<And>b. C (CallNotifyTopUp (cmc_id P) \<lparr>nta_block_index = b, nta_canister_id = self_id P\<rparr>)"
    and gate: "\<And>r. r \<in> set rs \<Longrightarrow> rr_user r = u \<Longrightarrow> due now r \<Longrightarrow> (u, ''request'') \<in> locks s0"
  shows "untouched u s0 s \<Longrightarrow> keeps C (untouched u s0) (lock_loop P now rs n s)"
  using C gate
proof (induction rs arbitrary: n s)
  case (Cons r rs)
  let ?l = "(rr_user r, ''request'')"
  have "keeps C (untouched u s0) ((if due now r then with_guard ?l (ret ()) (lock_request P now r) else ret ()) n s)"
  proof (cases "due now r \<and> ?l \<notin> locks s")
    case True
    have "rr_user r \<noteq> u"
    proof
      assume "rr_user r = u"
      then have "(u, ''request'') \<in> locks s0"
        using Cons.prems(3) [of r] True by simp
      with Cons.prems(1) True \<open>rr_user r = u\<close> show False by (simp add: untouched_def)
    qed
    moreover have "untouched u s0 s' \<Longrightarrow> untouched u s0 (unlock_id ?l s')" for s'
      using calculation by (simp add: untouched_def)
    moreover have "untouched u s0 (lock_id ?l s)" using Cons.prems(1) by (simp add: untouched_def)
    ultimately show ?thesis
      using True Cons.prems(2) [of r] N by (auto intro!: keeps_with_guard keeps_lock_request)
  next
    case False
    with Cons.prems(1) show ?thesis by (auto simp: exec_simps)
  qed
  then show ?case
    unfolding lock_loop_due by (rule keeps_bnd) (use Cons.prems in \<open>auto intro: Cons.IH\<close>)
qed (simp add: ret_def)

text \<open>
  C25: a request that was locked less than 30 days ago, that is fully locked, or that is in use by
  another message is not touched by a locking task that runs alone on a well-formed state, whatever
  other requests there are and whatever the task is replied: at every await and at the end the request
  and the user's log are as before, and every transfer is for the tenth of another user's due request.
  A task that finds no request to lock ends at once and changes nothing at all.
\<close>

theorem locking_gate:
  assumes "wf s"
    and gate: "\<And>r. om_get (rental_requests s) u = Some r \<Longrightarrow>
      days_since_last_locking now r < 30 \<or> fully_locked r \<or> (u, ''request'') \<in> locks s"
  shows "(\<forall>s' c h k. run rs (locking P now s) = Done () s' \<or> run rs (locking P now s) = Suspended c h s' k \<longrightarrow>
      om_get (rental_requests s') u = om_get (rental_requests s) u \<and> log_of (Some u) s' = log_of (Some u) s) \<and>
    (\<forall>target args. CallLedgerTransfer target args \<in> set (calls rs (locking P now s)) \<longrightarrow>
      (\<exists>u' r. u' \<noteq> u \<and> om_get (rental_requests s) u' = Some r \<and> 30 \<le> days_since_last_locking now r \<and>
        \<not> fully_locked r \<and> ta_from_subaccount args = Some (subaccount_of P u') \<and>
        ta_amount args = tokens_sub P (Tokens (e8s (rr_initial_cost_icp r) div 10)) (default_fee P))) \<and>
    ((\<forall>u r. om_get (rental_requests s) u = Some r \<longrightarrow>
        days_since_last_locking now r < 30 \<or> fully_locked r \<or> (u, ''request'') \<in> locks s) \<longrightarrow>
      locking P now s = Done () s)"
proof -
  let ?rs = "map snd (om_entries (rental_requests s))"
  let ?C = "\<lambda>c. \<forall>target args. c = CallLedgerTransfer target args \<longrightarrow>
      (\<exists>u' r. u' \<noteq> u \<and> om_get (rental_requests s) u' = Some r \<and> 30 \<le> days_since_last_locking now r \<and>
        \<not> fully_locked r \<and> ta_from_subaccount args = Some (subaccount_of P u') \<and>
        ta_amount args = tokens_sub P (Tokens (e8s (rr_initial_cost_icp r) div 10)) (default_fee P))"
  note snap = snapshot_of_wf(2) [OF assms(1)]
  have loop: "locking P now s = lock_loop P now ?rs now s"
    by (simp add: locking_def exec_simps iter_rental_requests_def)
  have "keeps ?C (untouched u s) (lock_loop P now ?rs now s)"
  proof (rule keeps_lock_loop)
    fix r c
    assume r: "r \<in> set ?rs" "due now r" "rr_user r \<noteq> u" and c: "c \<in> set (conversion P (rr_user r) (ten_percent r) 0)"
    have "om_get (rental_requests s) (rr_user r) = Some r" using r(1) snap by simp
    with r c show "?C c" by (auto simp: conversion_def due_def ten_percent_def)
  next
    show "(u, ''request'') \<in> locks s" if "r \<in> set ?rs" "rr_user r = u" "due now r" for r
      using that snap [of r] gate [of r] by (auto simp: due_def)
  qed (simp_all add: untouched_def)
  note keeps = this [folded loop]
  have "locking P now s = Done () s" if none: "\<forall>u r. om_get (rental_requests s) u = Some r \<longrightarrow>
      days_since_last_locking now r < 30 \<or> fully_locked r \<or> (u, ''request'') \<in> locks s"
  proof -
    have "lock_loop P now qs n s = Done () s" if "\<forall>r\<in>set qs. due now r \<longrightarrow> (rr_user r, ''request'') \<in> locks s" for qs n
      using that by (induction qs) (auto simp: exec_simps due_def)
    moreover have "\<forall>r\<in>set ?rs. due now r \<longrightarrow> (rr_user r, ''request'') \<in> locks s"
      using none snap by (force simp: due_def)
    ultimately show ?thesis unfolding loop by blast
  qed
  with keeps_run [OF keeps] keeps_calls [OF keeps] show ?thesis
    unfolding untouched_def by blast
qed

text \<open>The first of the two requests has just been locked; only the other user's ICP are asked for.\<close>

definition demo_gated :: canister where
  "demo_gated = demo_two\<lparr>rental_requests := om_insert (Principal [9])
     (demo_request\<lparr>rr_last_locking_time_nanos := 2592000 * BILLION\<rparr>) (rental_requests demo_two)\<rparr>"

theorem locking_gate_witness:
  "wf demo_gated \<and>
   (\<exists>target args u. calls [] (locking demo_platform (2592000 * BILLION) demo_gated) = [CallLedgerTransfer target args] \<and>
     u \<noteq> Principal [9] \<and> om_get (rental_requests demo_gated) u \<noteq> None \<and>
     ta_from_subaccount args = Some (subaccount_of demo_platform u))"
proof -
  have wf: "wf demo_gated"
    by (auto simp: demo_gated_def demo_two_def demo_state_def wf_def history_inv_def history_ok_def event_count_def
      empty_canister_def request_ok_def locked_ok_def demo_request_def demo_second_def intro!: exI [of _ 1])
  have gate: "days_since_last_locking (2592000 * BILLION) r < 30"
    if "om_get (rental_requests demo_gated) (Principal [9]) = Some r" for r
    using that by (auto simp: demo_gated_def days_since_last_locking_def)
  obtain target args
    where one: "calls [] (locking demo_platform (2592000 * BILLION) demo_gated) = [CallLedgerTransfer target args]"
  proof -
    have "om_entries (rental_requests demo_gated) =
        [(Principal [9], demo_request\<lparr>rr_last_locking_time_nanos := 2592000 * BILLION\<rparr>), (Principal [10], demo_second)]"
      by (simp add: demo_gated_def demo_two_def less_principal_def)
    moreover have "locks demo_gated = {}" by (simp add: demo_gated_def demo_two_ok)
    moreover have "\<not> due (2592000 * BILLION) (demo_request\<lparr>rr_last_locking_time_nanos := 2592000 * BILLION\<rparr>)"
      by (simp add: due_def days_since_last_locking_def)
    ultimately show ?thesis
      using that demo_two_ok(6) by (simp add: locking_def iter_rental_requests_def lock_loop_due exec_simps lock_request_def Let_def
          convert_icp_to_cycles_def transfer_to_cmc_def ledger_transfer_def del: lock_loop.simps)
  qed
  then have "CallLedgerTransfer target args \<in> set (calls [] (locking demo_platform (2592000 * BILLION) demo_gated))"
    by simp
  then obtain u where "u \<noteq> Principal [9]" "om_get (rental_requests demo_gated) u \<noteq> None"
      "ta_from_subaccount args = Some (subaccount_of demo_platform u)"
    using locking_gate [OF wf, of "Principal [9]" "2592000 * BILLION" "[]" demo_platform] gate by blast
  with wf one show ?thesis by blast
qed

text \<open>
  C26: the task acts on the snapshot it took at its start. Let its first two requests be due, and
  let other messages bring the canister into the state \<open>s2\<close> while the first one's minting is under
  way (its own request is guarded, the second user's is not). If the second user's request is gone
  by then, a refund for example, the task still converts a tenth of that user's ICP and then panics,
  which undoes the events and stops it before the later requests; if the request was replaced, it
  is overwritten with the one of the snapshot plus the new tenth, and the task goes on.
\<close>

theorem locking_stale:
  fixes P b1 n1 c1 n2 b2 n3 c2 n4
  assumes snapshot: "om_entries (rental_requests s) = (rr_user r1, r1) # (rr_user r2, r2) # later_requests"
    and due: "due now r1" "due now r2" and free: "(rr_user r1, ''request'') \<notin> locks s"
    and guarded: "om_get (rental_requests s2) (rr_user r1) = Some r1"
    and free2: "(rr_user r2, ''request'') \<notin> locks s2" and other: "rr_user r1 \<noteq> rr_user r2"
  defines "result \<equiv> drive [(ReplyTransfer (Inr b1), n1, id), (ReplyNotify (Inr c1), n2, \<lambda>_. s2),
      (ReplyTransfer (Inr b2), n3, id), (ReplyNotify (Inr c2), n4, id)] (locking P now s)"
    and "converted \<equiv> conversion P (rr_user r1) (ten_percent r1) b1 @ conversion P (rr_user r2) (ten_percent r2) b2"
  shows "(om_get (rental_requests s2) (rr_user r2) = None \<longrightarrow>
      result = (converted, Trapped ''locking: unwrap of update_rental_request'')) \<and>
    (om_get (rental_requests s2) (rr_user r2) \<noteq> None \<longrightarrow>
      (\<exists>s'. result = (converted, lock_loop P now (map snd later_requests) n4 s') \<and>
        om_get (rental_requests s') (rr_user r2) = Some (r2
          \<lparr>rr_locked_amount_icp := tokens_add P (rr_locked_amount_icp r2) (Tokens (e8s (rr_initial_cost_icp r2) div 10)),
           rr_locked_amount_cycles := rr_locked_amount_cycles r2 + c2, rr_last_locking_time_nanos := now\<rparr>)))"
proof -
  have loop: "locking P now s = lock_loop P now (r1 # r2 # map snd later_requests) now s"
    by (simp add: locking_def exec_simps iter_rental_requests_def snapshot)
  show ?thesis
    unfolding result_def converted_def loop lock_loop_due using due free guarded free2 other
    by (auto simp: lock_request_def exec_simps Let_def convert_icp_to_cycles_def transfer_to_cmc_def
        ledger_transfer_def notify_top_up_def emit_def update_rental_request_def conversion_def
        locked_request_def ten_percent_def)
qed

theorem locking_stale_witness:
  "\<exists>cs. drive [(ReplyTransfer (Inr 7), 2, id), (ReplyNotify (Inr 11), 3, \<lambda>_. demo_requested\<lparr>locks := {(Principal [9], ''request'')}\<rparr>),
      (ReplyTransfer (Inr 8), 4, id), (ReplyNotify (Inr 12), 5, id)] (locking demo_platform (2592000 * BILLION) demo_two) =
     (cs, Trapped ''locking: unwrap of update_rental_request'') \<and> length cs = 4"
  using locking_stale [where s = demo_two and ?r1.0 = demo_request and ?r2.0 = demo_second and later_requests = "[]"
      and now = "2592000 * BILLION" and ?s2.0 = "demo_requested\<lparr>locks := {(Principal [9], ''request'')}\<rparr>" and P = demo_platform and ?b1.0 = 7 and ?n1.0 = 2
      and ?c1.0 = 11 and ?n2.0 = 3 and ?b2.0 = 8 and ?n3.0 = 4 and ?c2.0 = 12 and ?n4.0 = 5]
  by (simp add: demo_two_ok conversion_def) (simp add: demo_second_def demo_request_def)

end
