(* ===== verification/Src_Service.thy ===== *)
theory Src_Service
  imports Src_System Src_Proposals Src_Queries Src_TopUp Src_Timers
begin

text \<open>
  The canister as a service: its update methods and timers as messages, the dispatcher
  \<open>handle\<close>, and the interpretation of \<open>safe_service\<close> on the model, which turns the safety of
  the handlers into invariants of every reachable system, whatever other canisters reply
  and in whatever order. Queries run on a copy of the state and are functions of it.
\<close>

section \<open>Messages\<close>

datatype message =
  ExecuteRentalRequestProposal subnet_rental_proposal_payload
  | ExecuteCreateRentalAgreement create_rental_agreement_payload
  | Refund
  | SubnetTopUpEstimate principal tokens
  | TopUpSubnet principal
  | UpdateSubnetAdmins update_subnet_admins_payload
  | GetTodaysPrice rental_condition_id
  | LockingTimer
  | BurnTimer

datatype response =
  RespExecuted "string + unit"
  | RespRefund "string + u64"
  | RespSummary "string + top_up_summary"
  | RespAdmins update_subnet_admins_result
  | RespPrice "string + tokens"
  | RespTimer

definition respond :: "('a \<Rightarrow> response) \<Rightarrow> 'a prog \<Rightarrow> response prog" where
  "respond f m = bnd m (\<lambda>x. ret (f x))"

fun handle :: "platform \<Rightarrow> principal \<times> message \<Rightarrow> response prog" where
  "handle P (caller, ExecuteRentalRequestProposal payload) =
     respond RespExecuted (execute_rental_request_proposal P caller payload)"
| "handle P (caller, ExecuteCreateRentalAgreement payload) =
     respond RespExecuted (execute_create_rental_agreement P caller payload)"
| "handle P (caller, Refund) = respond RespRefund (refund P caller)"
| "handle P (caller, SubnetTopUpEstimate subnet_id icp) =
     respond RespSummary (subnet_top_up_estimate P subnet_id icp)"
| "handle P (caller, TopUpSubnet subnet_id) = respond RespSummary (top_up_subnet P subnet_id)"
| "handle P (caller, UpdateSubnetAdmins payload) =
     respond RespAdmins (update_subnet_admins P caller payload)"
| "handle P (caller, GetTodaysPrice k) = respond RespPrice (get_todays_price P k)"
| "handle P (caller, LockingTimer) = respond (\<lambda>_. RespTimer) (locking P)"
| "handle P (caller, BurnTimer) = respond (\<lambda>_. RespTimer) (burn_cycles P)"

abbreviation src_step :: "platform \<Rightarrow> response system \<Rightarrow> response obs \<Rightarrow> response system \<Rightarrow> bool" where
  "src_step P \<equiv> msg_step (handle P)"

abbreviation src_reachable :: "platform \<Rightarrow> response system \<Rightarrow> bool" where
  "src_reachable P \<equiv> reachable (handle P) (post_upgrade P) canister_init"

section \<open>The service is safe\<close>

text \<open>
  \<open>honest P\<close> is \<open>P\<close> with the documented behaviour of token arithmetic and of burning written
  in; for a platform that has this behaviour it is the platform itself.
\<close>

definition honest :: "platform \<Rightarrow> platform" where
  "honest P = P\<lparr>tokens_add := \<lambda>a b. Tokens (saturating_add (e8s a) (e8s b)),
     tokens_sub := \<lambda>a b. Tokens (saturating_sub (e8s a) (e8s b)),
     system_burn := \<lambda>log n. min (system_burn P log n) n\<rparr>"

lemma honest_ok [simp]: "tokens_saturate (honest P)" "burns_at_most (honest P)"
  by (simp_all add: honest_def tokens_saturate_def burns_at_most_def)

lemma honest_id: "tokens_saturate P \<Longrightarrow> burns_at_most P \<Longrightarrow> honest P = P"
proof -
  assume P: "tokens_saturate P" "burns_at_most P"
  then have "tokens_add P = (\<lambda>a b. Tokens (saturating_add (e8s a) (e8s b)))"
    "tokens_sub P = (\<lambda>a b. Tokens (saturating_sub (e8s a) (e8s b)))"
    "system_burn P = (\<lambda>log n. min (system_burn P log n) n)"
    by (auto simp: fun_eq_iff tokens_saturate_def burns_at_most_def min_def)
  then show ?thesis by (simp add: honest_def)
qed

lemma respond_safe: "message_safe (src_spec P) m \<Longrightarrow> message_safe (src_spec P) (respond f m)"
  unfolding respond_def by (rule message_safe_map) auto

lemma handle_safe:
  assumes "tokens_saturate P" and "burns_at_most P"
  shows "message_safe (src_spec P) (handle P cm)"
proof -
  obtain c m where "cm = (c, m)" by fastforce
  then show ?thesis
    using assms by (cases m) (simp_all add: respond_safe execute_rental_request_proposal_safe
        execute_create_rental_agreement_safe refund_safe subnet_top_up_estimate_safe top_up_subnet_safe
        update_subnet_admins_safe get_todays_price_safe locking_safe burn_cycles_safe)
qed

lemma locks_init [simp]: "locks (canister_init n) = {}"
  by (simp add: canister_init_def empty_canister_def)

lemma locks_post_upgrade [simp]: "locks (post_upgrade P n s) = {}"
proof (cases rule: migration_cases [of P "set_initial_conditions n (heap_lost s)"])
  case (1 subnet a c)
  then show ?thesis by (simp add: post_upgrade_def app13ch_to_app7ch_applies)
qed (simp add: post_upgrade_def app13ch_to_app7ch_skips)

interpretation src: safe_service "handle (honest P)" "post_upgrade (honest P)" canister_init
    "src_spec (honest P)" for P
proof unfold_locales
  show "message_safe (src_spec (honest P)) (handle (honest P) m)" for m
    by (rule handle_safe) simp_all
  show "sp_inv (src_spec (honest P)) (canister_init n) \<and> locks (canister_init n) = {}" for n
    by (simp add: wf_init)
  show "sp_inv (src_spec (honest P)) s \<Longrightarrow>
      sp_inv (src_spec (honest P)) (post_upgrade (honest P) n s) \<and> locks (post_upgrade (honest P) n s) = {}" for s n
    by (simp add: wf_post_upgrade)
  show "sp_guar (src_spec (honest P)) s s' \<Longrightarrow> sp_guar (src_spec (honest P)) s' s'' \<Longrightarrow>
      sp_guar (src_spec (honest P)) s s''" for s s' s''
    by (simp add: evolves_trans)
  show "sp_inv (src_spec (honest P)) s \<Longrightarrow>
      sp_inv (src_spec (honest P)) (release_all h s) \<and> sp_guar (src_spec (honest P)) s (release_all h s)" for s h
    using good_release_all [OF good_start [of s "{}"]] by (simp add: good_def)
qed simp

text \<open>The facts of the service for an honest platform.\<close>

lemma src_system_ok:
  "tokens_saturate P \<Longrightarrow> burns_at_most P \<Longrightarrow> src_reachable P \<sigma> \<Longrightarrow> system_ok (src_spec P) \<sigma>"
  using src.reachable_ok [of P \<sigma>] by (simp add: honest_id)

lemma src_wf: "tokens_saturate P \<Longrightarrow> burns_at_most P \<Longrightarrow> src_reachable P (s, ts) \<Longrightarrow> wf s"
  using src_system_ok [of P "(s, ts)"] by (simp add: system_ok_def)

lemma src_evolves:
  assumes "tokens_saturate P" "burns_at_most P" "src_reachable P \<sigma>" "msg_steps (handle P) \<sigma> obs \<sigma>'"
  shows "evolves (fst \<sigma>) (fst \<sigma>')"
  using src.steps_guar [of P \<sigma> obs \<sigma>'] assms src_system_ok by (simp add: honest_id)

section \<open>An example\<close>

text \<open>A concrete reachable system: a refund waiting for the balance of its caller.\<close>

definition demo_task :: "response task" where
  "demo_task = (case handle demo_platform (Principal [9], Refund) 0 (canister_init 0) of
     Suspended c h s k \<Rightarrow> Task c h s k)"

definition demo_transfer :: transfer_args where
  "demo_transfer = \<lparr>ta_to = 9 # replicate 32 0, ta_fee = Tokens 10000, ta_from_subaccount = Some [9],
     ta_amount = Tokens 20000, ta_memo = 0, ta_created_at_time = None\<rparr>"

lemma demo_refund_suspends:
  "handle demo_platform (Principal [9], Refund) 0 (canister_init 0) =
     Suspended (pending demo_task) (held_locks demo_task) (left demo_task) (rest demo_task)"
  "held_locks demo_task = [(Principal [4], ''refund''), (Principal [9], ''request'')]"
  "history (left demo_task) = history (canister_init 0)"
  "rest demo_task (ReplyFailed e) n s = Trapped ''Failed to call LedgerCanister''"
  "\<exists>k'. rest demo_task (ReplyBalance (Tokens 30000)) n s =
     Suspended (CallLedgerTransfer (ledger_id demo_platform) demo_transfer) (held_locks demo_task) s k'"
  by (auto simp: demo_task_def demo_transfer_def respond_def refund_def refund_body_def exec_simps
      check_subaccount_balance_def refund_user_def ledger_transfer_def Let_def demo_platform_def
      less_tokens_def saturating_sub_def)

lemma demo_arrives:
  "src_step demo_platform (canister_init 0, []) (Called (pending demo_task)) (left demo_task, [demo_task])"
  using arrive_call [where handler = "handle demo_platform", OF demo_refund_suspends(1), of "[]"] by simp

lemma demo_reachable: "src_reachable demo_platform (left demo_task, [demo_task])"
  using demo_arrives by (rule reach_step [OF reach_start])

lemma demo_resumes:
  "rest demo_task r n s = Trapped e \<Longrightarrow>
     src_step demo_platform (s, [demo_task]) (Panicked e) (release_all (held_locks demo_task) s, [])"
  "rest demo_task r n s = Suspended c h s' k \<Longrightarrow>
     src_step demo_platform (s, [demo_task]) (Called c) (s', [Task c h s' k])"
  using resume_trap [of "rest demo_task" r n s e "handle demo_platform" "[]" "pending demo_task" "held_locks demo_task" "left demo_task" "[]"]
    resume_call [of "rest demo_task" r n s c h s' k "handle demo_platform" "[]" "pending demo_task" "held_locks demo_task" "left demo_task" "[]"]
  by simp_all

definition demo_first_event :: event where
  "demo_first_event = event_of_type 0 (RentalConditionsChanged App13CH (map_of initial_conditions App13CH))"

lemma demo_init_history:
  "om_size (history (canister_init 0)) = 2"
  "om_get (history (canister_init 0)) (None, 0) = Some demo_first_event"
  by (simp_all add: canister_init_def set_initial_conditions_def initial_conditions_def empty_canister_def
      persist_event_def next_seq_def Let_def om_size_def demo_first_event_def)

end
