(* ===== verification/Src_Termination.thy ===== *)
theory Src_Termination
  imports Src_Service
begin

text \<open>
  Every message ends. \<open>awaits_at_most\<close> bounds the calls of an outcome under all replies and
  all interleavings; each handler gets its bound by the structure of its program, loops by
  induction on their snapshots.
\<close>

section \<open>Bounded numbers of calls\<close>

primrec awaits_at_most :: "'a out \<Rightarrow> nat \<Rightarrow> bool" where
  "awaits_at_most (Done a s) b = True"
| "awaits_at_most (Trapped m) b = True"
| "awaits_at_most (Suspended c h s k) b = (0 < b \<and> (\<forall>r n s'. awaits_at_most (k r n s') (b - 1)))"

definition prog_awaits :: "'a prog \<Rightarrow> nat \<Rightarrow> bool" where
  "prog_awaits m b \<longleftrightarrow> (\<forall>n s. awaits_at_most (m n s) b)"

lemma awaits_mono: "awaits_at_most out b \<Longrightarrow> b \<le> b' \<Longrightarrow> awaits_at_most out b'"
proof (induction out arbitrary: b b')
  case (Suspended c h s k)
  have "awaits_at_most (k r n s') (b' - 1)" for r n s'
    by (rule Suspended.IH [of r n s' "b - 1"]) (use Suspended.prems in auto)
  with Suspended.prems show ?case by auto
qed simp_all

lemma awaits_bind:
  "awaits_at_most out b \<Longrightarrow> (\<And>a. prog_awaits (f a) b') \<Longrightarrow> awaits_at_most (bind_out out n f) (b + b')"
proof (induction out arbitrary: b n)
  case (Done a s)
  then show ?case using awaits_mono [of "f a n s" b' "b + b'"] by (simp add: prog_awaits_def)
next
  case (Suspended c h s k)
  have "awaits_at_most (bind_out (k r n' s') n' f) (b - 1 + b')" for r n' s'
    using Suspended.prems by (intro Suspended.IH) auto
  moreover have "b - 1 + b' = b + b' - 1" using Suspended.prems by simp
  ultimately show ?case using Suspended.prems by simp
qed simp

lemma prog_awaits_bnd: "prog_awaits m b \<Longrightarrow> (\<And>a. prog_awaits (f a) b') \<Longrightarrow> prog_awaits (bnd m f) (b + b')"
  by (simp add: prog_awaits_def bnd_def awaits_bind)

lemma prog_awaits_now: "prog_awaits m 0 \<Longrightarrow> (\<And>a. prog_awaits (f a) b) \<Longrightarrow> prog_awaits (bnd m f) b"
  using prog_awaits_bnd [of m 0 f b] by simp

lemma prog_awaits_call: "(\<And>a. prog_awaits (f a) b) \<Longrightarrow> prog_awaits (bnd (await_call c) f) (Suc b)"
  using prog_awaits_bnd [of "await_call c" 1 f b] by (simp add: prog_awaits_def await_call_def)

lemma awaits_release: "awaits_at_most (release_out l out) b = awaits_at_most out b"
  by (induction out arbitrary: b) auto

lemma prog_awaits_guard: "prog_awaits busy b \<Longrightarrow> prog_awaits body b \<Longrightarrow> prog_awaits (with_guard l busy body) b"
  by (simp add: prog_awaits_def with_guard_def caller_guard_new_def awaits_release)

lemma prog_awaits_steps [simp]:
  "prog_awaits (ret a) b" "prog_awaits (panic e) b" "prog_awaits (gets g) b" "prog_awaits (modify h) b"
  "prog_awaits (update_with w) b" "prog_awaits (update_now v) b" "prog_awaits api_time b"
  "prog_awaits (emit ev key) b" "prog_awaits (cycles_burn P x) b"
  by (simp_all add: prog_awaits_def exec_simps emit_def cycles_burn_def case_prod_beta)

lemma prog_awaits_mono: "prog_awaits m b \<Longrightarrow> b \<le> b' \<Longrightarrow> prog_awaits m b'"
  using awaits_mono unfolding prog_awaits_def by blast

text \<open>Sequencing: a part without calls, with one call, with the two calls of a conversion.\<close>

lemma awaits_seq0: "prog_awaits m 0 \<Longrightarrow> (\<And>a. prog_awaits (f a) b) \<Longrightarrow> prog_awaits (bnd m f) b"
  using prog_awaits_bnd [of m 0 f b] by simp

lemma awaits_last: "prog_awaits m b \<Longrightarrow> (\<And>a. prog_awaits (f a) 0) \<Longrightarrow> prog_awaits (bnd m f) b"
  using prog_awaits_bnd [of m b f 0] by simp

lemma awaits_seq1: "prog_awaits m 1 \<Longrightarrow> (\<And>a. prog_awaits (f a) b) \<Longrightarrow> prog_awaits (bnd m f) (Suc b)"
  using prog_awaits_bnd [of m 1 f b] by simp

lemma awaits_seq2: "prog_awaits m 2 \<Longrightarrow> (\<And>a. prog_awaits (f a) b) \<Longrightarrow> prog_awaits (bnd m f) (Suc (Suc b))"
  using prog_awaits_bnd [of m 2 f b] by (simp add: numeral_2_eq_2)

lemma transfer_awaits: "prog_awaits (ledger_transfer P args) 1"
  unfolding ledger_transfer_def One_nat_def by (rule prog_awaits_call) (simp split: reply.split)

lemma notify_awaits: "prog_awaits (notify_top_up P b) 1"
  unfolding notify_top_up_def One_nat_def by (rule prog_awaits_call) (simp split: reply.split)

lemma authorize_awaits: "prog_awaits (set_authorized_subnetwork_list P u p) 1"
  unfolding set_authorized_subnetwork_list_def One_nat_def by (rule prog_awaits_call) (simp split: reply.split)

lemma balance_awaits: "prog_awaits (check_subaccount_balance P a) 1"
  unfolding check_subaccount_balance_def One_nat_def by (rule prog_awaits_call) (simp split: reply.split)

lemma refund_user_awaits: "prog_awaits (refund_user P u x) 1"
  unfolding refund_user_def by (rule transfer_awaits)

lemma convert_awaits: "prog_awaits (convert_icp_to_cycles P x u) 2"
  unfolding convert_icp_to_cycles_def transfer_to_cmc_def numeral_2_eq_2
  by (intro awaits_seq1 transfer_awaits)
    (auto split: sum.split intro!: awaits_seq1 [OF notify_awaits])

lemma rate_awaits: "prog_awaits (get_exchange_rate_icp_per_xdr_at_time P t) 1"
  unfolding get_exchange_rate_icp_per_xdr_at_time_def get_exchange_rate_canister_id_def One_nat_def
  by (auto split: option.split sum.split reply.split intro!: awaits_seq0 prog_awaits_call)

lemma registry_awaits: "prog_awaits (registry_update_subnet_admins P payload) 1"
  unfolding registry_update_subnet_admins_def get_registry_canister_id_def One_nat_def
  by (auto split: option.split reply.split intro!: awaits_seq0 prog_awaits_call)

lemmas awaits_calls =
  awaits_seq1 [OF rate_awaits] awaits_seq1 [OF balance_awaits] awaits_seq2 [OF convert_awaits]
  awaits_seq1 [OF refund_user_awaits] awaits_seq1 [OF authorize_awaits] awaits_seq1 [OF registry_awaits]

lemma awaits_steps:
  "(\<And>a. prog_awaits (f1 a) b) \<Longrightarrow> prog_awaits (bnd (gets g) f1) b"
  "(\<And>a. prog_awaits (f2 a) b) \<Longrightarrow> prog_awaits (bnd (update_with w) f2) b"
  "(\<And>a. prog_awaits (f3 a) b) \<Longrightarrow> prog_awaits (bnd (update_now v) f3) b"
  "(\<And>a. prog_awaits (f4 a) b) \<Longrightarrow> prog_awaits (bnd api_time f4) b"
  "(\<And>a. prog_awaits (f5 a) b) \<Longrightarrow> prog_awaits (bnd (emit ev key) f5) b"
  "(\<And>a. prog_awaits (f6 a) b) \<Longrightarrow> prog_awaits (bnd (cycles_burn P x) f6) b"
  by (rule awaits_seq0; simp)+

lemma respond_awaits: "prog_awaits m b \<Longrightarrow> prog_awaits (respond f m) b"
  unfolding respond_def by (erule awaits_last) simp

lemma with_error_awaits [simp]: "prog_awaits (with_error P u i e) b"
  unfolding with_error_def by (intro awaits_steps prog_awaits_steps)

lemma top_up_failed_awaits [simp]: "prog_awaits (top_up_failed P p u reason) b"
  unfolding top_up_failed_def by (intro awaits_steps prog_awaits_steps)

lemma checks_awaits: "prog_awaits (rental_request_checks u k) 0"
  unfolding rental_request_checks_def
  by (auto split: option.split intro!: awaits_steps awaits_seq0)

lemma payment_awaits: "prog_awaits (rental_request_payment P payload c) (Suc (Suc (Suc (Suc 0))))"
  unfolding rental_request_payment_def Let_def
  by (auto split: sum.split intro!: awaits_calls awaits_steps)

lemma rental_request_awaits: "prog_awaits (execute_rental_request_proposal P caller payload) (Suc (Suc (Suc (Suc 0))))"
proof -
  have "prog_awaits (execute_rental_request_proposal_inner P caller payload) (Suc (Suc (Suc (Suc 0))))"
    unfolding execute_rental_request_proposal_inner_def
    by (auto split: sum.split intro!: prog_awaits_guard awaits_seq0 [OF checks_awaits] payment_awaits)
  then show ?thesis
    unfolding execute_rental_request_proposal_def by (rule awaits_last) (simp split: sum.split)
qed

lemma create_awaits: "prog_awaits (execute_create_rental_agreement P caller payload) (Suc (Suc (Suc 0)))"
proof -
  have "prog_awaits (execute_create_rental_agreement_inner P caller payload) (Suc (Suc (Suc 0)))"
    unfolding execute_create_rental_agreement_inner_def create_rental_agreement_body_def Let_def
    by (auto split: sum.split option.split intro!: prog_awaits_guard awaits_calls awaits_steps)
  then show ?thesis
    unfolding execute_create_rental_agreement_def by (rule awaits_last) (simp split: sum.split)
qed

lemma refund_awaits: "prog_awaits (refund P caller) (Suc (Suc 0))"
  unfolding refund_def refund_body_def Let_def
  by (auto split: sum.split option.split intro!: prog_awaits_guard awaits_calls awaits_steps awaits_seq0)

lemma top_up_awaits: "prog_awaits (top_up_subnet P p) (Suc (Suc (Suc 0)))"
  unfolding top_up_subnet_def top_up_body_def top_up_credit_agreement_def Let_def
  by (auto split: sum.split option.split intro!: prog_awaits_guard awaits_calls awaits_steps)

lemma admins_awaits: "prog_awaits (update_subnet_admins P caller payload) (Suc 0)"
  unfolding update_subnet_admins_def Let_def
  by (auto split: sum.split intro!: prog_awaits_guard awaits_calls awaits_steps)

lemma price_awaits: "prog_awaits (get_todays_price P k) (Suc 0)"
proof -
  have rate: "prog_awaits (with_guard l (ret e) (bnd (get_exchange_rate_icp_per_xdr_at_time P t) f)) (Suc 0)"
    if "\<And>y. prog_awaits (f y) 0" for l e t f
    using that by (intro prog_awaits_guard awaits_calls prog_awaits_steps)
  show ?thesis
    unfolding get_todays_price_def Let_def
    by (auto split: sum.split option.split intro!: awaits_steps awaits_last rate)
qed

lemma estimate_awaits: "prog_awaits (subnet_top_up_estimate P p x) (Suc 0)"
  unfolding subnet_top_up_estimate_def Let_def
  by (auto split: sum.split option.split intro!: awaits_calls awaits_steps)

lemma burn_awaits: "prog_awaits (burn_cycles P) 0"
proof -
  have "prog_awaits (burn_agreement P a) 0" for a
    unfolding burn_agreement_def burn_and_record_def Let_def
    by (auto split: option.split intro!: awaits_steps)
  then have "prog_awaits (burn_loop P as) 0" for as
    by (induction as) (auto intro!: awaits_seq0 prog_awaits_guard)
  then show ?thesis unfolding burn_cycles_def by (intro awaits_steps)
qed

lemma lock_loop_awaits: "prog_awaits (lock_loop P now rs) (2 * length rs)"
proof (induction rs)
  case (Cons r rs)
  have "prog_awaits (lock_request P now r) (Suc (Suc 0))"
    unfolding lock_request_def Let_def
    by (auto split: sum.split intro!: awaits_calls awaits_steps)
  then have "prog_awaits (if days_since_last_locking now r < 30 then ret ()
          else if fully_locked r then ret ()
          else with_guard (rr_user r, ''request'') (ret ()) (lock_request P now r)) 2"
    by (auto intro: prog_awaits_guard simp: numeral_2_eq_2)
  from awaits_seq2 [OF this Cons.IH] show ?case by (simp only: lock_loop.simps length_Cons mult_Suc_right) simp
qed simp

section \<open>Every message ends\<close>

lemma awaits_run:
  "awaits_at_most out b \<Longrightarrow> b \<le> length rs \<Longrightarrow> \<nexists>c h s k. run rs out = Suspended c h s k"
proof (induction rs out arbitrary: b rule: run.induct)
  case (1 r n rs c h s k)
  have "\<nexists>c h s' k'. run rs (k r n s) = Suspended c h s' k'"
    by (rule "1.IH" [of "b - 1"]) (use "1.prems" in auto)
  then show ?case by simp
qed auto

lemma handle_awaits:
  "awaits_at_most (handle P (caller, m) n s)
    (case m of LockingTimer \<Rightarrow> 2 * om_size (rental_requests s) | _ \<Rightarrow> 4)"
proof (cases "m = LockingTimer")
  case True
  have "awaits_at_most (locking P n s) (2 * om_size (rental_requests s))"
    using lock_loop_awaits [of P n "map snd (iter_rental_requests s)"]
    by (simp add: locking_def exec_simps prog_awaits_def iter_rental_requests_def om_size_def)
  from awaits_bind [OF this, of "\<lambda>_. ret RespTimer" 0 n] True show ?thesis
    by (simp add: respond_def bnd_def)
next
  case False
  note handlers = rental_request_awaits create_awaits refund_awaits top_up_awaits admins_awaits
    price_awaits estimate_awaits burn_awaits
  have "prog_awaits (handle P (caller, m)) 4"
    using False by (cases m) (auto intro!: respond_awaits intro: prog_awaits_mono [OF handlers(1)]
      prog_awaits_mono [OF handlers(2)] prog_awaits_mono [OF handlers(3)] prog_awaits_mono [OF handlers(4)]
      prog_awaits_mono [OF handlers(5)] prog_awaits_mono [OF handlers(6)] prog_awaits_mono [OF handlers(7)]
      prog_awaits_mono [OF handlers(8)])
  with False show ?thesis by (cases m) (simp_all add: prog_awaits_def)
qed

text \<open>
  C8: every message ends: whatever the others reply, after at most four replies, and for
  the locking task two per stored request, it has answered or trapped.
\<close>

theorem every_message_ends:
  assumes "(case m of LockingTimer \<Rightarrow> 2 * om_size (rental_requests s) | _ \<Rightarrow> 4) \<le> length rs"
  shows "\<nexists>c h s' k. run rs (handle P (caller, m) n s) = Suspended c h s' k"
  using awaits_run [OF handle_awaits assms] .

theorem every_message_ends_witness:
  "\<nexists>c h s' k. run [(ReplyBalance (Tokens 30000), 1), (ReplyTransfer (Inr 7), 2), (ReplyUnit, 3), (ReplyUnit, 4)]
     (handle demo_platform (Principal [9], Refund) 0 demo_requested) = Suspended c h s' k"
  by (rule every_message_ends) simp

end
