(* ===== verification/Xrc_Mock.thy ===== *)
theory Xrc_Mock
  imports Src_Types
begin

text \<open>
  The exchange rate canister used in the project's tests (\<^verbatim>\<open>xrc_mock/src/lib.rs\<close>): a list of
  rates to which tests append, and the answer with the rate whose time is closest to the
  requested one. Its state is the list; time is a parameter.
\<close>

type_synonym mock_rates = "(u64 \<times> u64) list"

definition abs_diff :: "u64 \<Rightarrow> u64 \<Rightarrow> u64" where
  "abs_diff a b = (if a \<le> b then b - a else a - b)"

text \<open>\<^verbatim>\<open>Iterator::min_by_key\<close>: the first of the elements with the least key.\<close>

fun min_by_key :: "('a \<Rightarrow> 'k::linorder) \<Rightarrow> 'a list \<Rightarrow> 'a option" where
  "min_by_key f [] = None"
| "min_by_key f (x # xs) =
     (case min_by_key f xs of
        None \<Rightarrow> Some x
      | Some y \<Rightarrow> Some (if f x \<le> f y then x else y))"

definition DEFAULT_RATE :: u64 where "DEFAULT_RATE = 3497900000"

definition mock_timestamp :: "u64 \<Rightarrow> get_exchange_rate_request \<Rightarrow> u64" where
  "mock_timestamp now request =
     (case ger_timestamp request of Some t \<Rightarrow> t | None \<Rightarrow> now div 1000000000 + 6)"

definition get_exchange_rate ::
  "u64 \<Rightarrow> get_exchange_rate_request \<Rightarrow> mock_rates \<Rightarrow> exchange_rate_error + exchange_rate" where
  "get_exchange_rate now request stored =
     (let timestamp = mock_timestamp now request;
          closest_rate = min_by_key (\<lambda>p. abs_diff (fst p) timestamp) stored;
          default_rate = (timestamp, DEFAULT_RATE);
          rate = snd (case closest_rate of Some r \<Rightarrow> r | None \<Rightarrow> default_rate)
      in Inr \<lparr>er_base_asset = \<lparr>as_class = Cryptocurrency, as_symbol = ''ICP''\<rparr>,
              er_quote_asset = \<lparr>as_class = FiatCurrency, as_symbol = ''CXDR''\<rparr>,
              er_timestamp = timestamp,
              er_rate = rate,
              er_metadata =
                \<lparr>erm_decimals = 9,
                 erm_base_asset_num_queried_sources = 7,
                 erm_base_asset_num_received_rates = 5,
                 erm_quote_asset_num_queried_sources = 10,
                 erm_quote_asset_num_received_rates = 4,
                 erm_standard_deviation = 0,
                 erm_forex_timestamp = None\<rparr>\<rparr>)"

definition set_exchange_rate_data :: "(u64 \<times> u64) list \<Rightarrow> mock_rates \<Rightarrow> mock_rates" where
  "set_exchange_rate_data data stored = stored @ data"

section \<open>The closest rate\<close>

lemma abs_diff_unat: "unat (abs_diff a b) = (if unat a \<le> unat b then unat b - unat a else unat a - unat b)"
  by (simp add: abs_diff_def unat_sub_exact word_le_nat_alt)

lemma min_by_key_None [simp]: "min_by_key f xs = None \<longleftrightarrow> xs = []"
  by (cases xs) (auto split: option.split)

lemma min_by_key_Some:
  "min_by_key f xs = Some x \<Longrightarrow> x \<in> set xs \<and> (\<forall>y\<in>set xs. f x \<le> f y)"
  by (induction xs arbitrary: x) (auto split: option.splits if_splits dest: order.trans)

lemma min_by_key_first:
  "min_by_key f xs = Some x \<Longrightarrow> \<exists>ys zs. xs = ys @ x # zs \<and> (\<forall>y\<in>set ys. f x < f y)"
proof (induction xs arbitrary: x)
  case (Cons a xs)
  show ?case
  proof (cases "min_by_key f xs")
    case None
    with Cons.prems have "a # xs = [] @ x # []" by simp
    then show ?thesis by (metis empty_iff list.set(1))
  next
    case (Some y)
    show ?thesis
    proof (cases "f a \<le> f y")
      case True
      with Cons.prems Some show ?thesis by (auto intro: exI [of _ "[]"])
    next
      case False
      obtain ys zs where "xs = ys @ y # zs" "\<forall>y'\<in>set ys. f y < f y'" using Cons.IH [OF Some] by blast
      with False Cons.prems Some show ?thesis
        by (intro exI [of _ "a # ys"] exI [of _ zs]) auto
    qed
  qed
qed simp

definition demo_mock_request :: get_exchange_rate_request where
  "demo_mock_request =
     \<lparr>ger_timestamp = Some 10, ger_quote_asset = \<lparr>as_class = FiatCurrency, as_symbol = ''CXDR''\<rparr>,
      ger_base_asset = \<lparr>as_class = Cryptocurrency, as_symbol = ''ICP''\<rparr>\<rparr>"

text \<open>
  C40: the mock answers with nine decimals and the first rate whose time is closest to the
  requested one, or the default rate when there is none.
\<close>

theorem mock_answers_closest:
  "\<exists>er. get_exchange_rate now request (set_exchange_rate_data data stored) = Inr er \<and>
    erm_decimals (er_metadata er) = 9 \<and> er_timestamp er = mock_timestamp now request \<and>
    (stored @ data = [] \<longrightarrow> er_rate er = 3497900000) \<and>
    (stored @ data \<noteq> [] \<longrightarrow> (\<exists>ys p zs. stored @ data = ys @ p # zs \<and> snd p = er_rate er \<and>
       (\<forall>q\<in>set (stored @ data). abs_diff (fst p) (mock_timestamp now request) \<le> abs_diff (fst q) (mock_timestamp now request)) \<and>
       (\<forall>q\<in>set ys. abs_diff (fst p) (mock_timestamp now request) < abs_diff (fst q) (mock_timestamp now request))))"
proof (cases "min_by_key (\<lambda>p. abs_diff (fst p) (mock_timestamp now request)) (stored @ data)")
  case None
  then show ?thesis by (simp add: get_exchange_rate_def set_exchange_rate_data_def DEFAULT_RATE_def)
next
  case (Some x)
  from min_by_key_first [OF this] min_by_key_Some [OF this]
  have "\<exists>ys p zs. stored @ data = ys @ p # zs \<and> snd p = snd x \<and>
       (\<forall>q\<in>set (stored @ data). abs_diff (fst p) (mock_timestamp now request) \<le> abs_diff (fst q) (mock_timestamp now request)) \<and>
       (\<forall>q\<in>set ys. abs_diff (fst p) (mock_timestamp now request) < abs_diff (fst q) (mock_timestamp now request))"
    by blast
  moreover have "stored @ data \<noteq> []" using Some by auto
  ultimately show ?thesis
    using Some by (simp add: get_exchange_rate_def set_exchange_rate_data_def Let_def) blast
qed

theorem mock_answers_closest_witness:
  "\<exists>er. get_exchange_rate 0 (demo_mock_request) (set_exchange_rate_data [(3, 4), (9, 5), (11, 6)] []) = Inr er \<and>
     er_timestamp er = 10 \<and> erm_decimals (er_metadata er) = 9"
  using mock_answers_closest [of 0 demo_mock_request "[(3, 4), (9, 5), (11, 6)]" "[]"]
  by (auto simp: mock_timestamp_def demo_mock_request_def)

end
