(* ===== verification/Spec2Isabelle.thy ===== *)
theory Spec2Isabelle
  imports Src_Service Src_Termination Xrc_Mock
begin

text \<open>
  Verification of the Subnet Rental Canister (\<^verbatim>\<open>src/src/subnet_rental_canister/src\<close>), an NNS
  canister of the Internet Computer that rents subnets.

  \<^bold>\<open>The program.\<close> A user pays ICP into a subaccount of the canister. An accepted NNS proposal
  (\<^verbatim>\<open>execute_rental_request_proposal\<close>) turns them into a rental request: a tenth of the price is
  converted to cycles at once and another tenth every 30 days by the timer \<^verbatim>\<open>locking\<close>, until a
  second proposal (\<^verbatim>\<open>execute_create_rental_agreement\<close>) converts the rest, authorises the user on
  the new subnet and creates the rental agreement, or until the user asks for a \<^verbatim>\<open>refund\<close>. An
  agreement is extended by \<^verbatim>\<open>top_up_subnet\<close>, its cycles are burned minute by minute by the timer
  \<^verbatim>\<open>burn_cycles\<close>, and its renter may change the subnet's admins (\<^verbatim>\<open>update_subnet_admins\<close>). Every
  step is logged per user and per subnet. The handlers await calls to the ledger, the cycles
  minting canister (CMC), the exchange rate canister (XRC) and the registry; between a call
  and its reply other messages run, and \<^verbatim>\<open>CallerGuard\<close>s exclude the harmful interleavings.

  \<^bold>\<open>The theories.\<close>
  \<^item> \<open>Src_Prelude\<close>: machine integers, checked and saturating operations of Rust.
  \<^item> \<open>Src_Store\<close>: stable maps as ordered maps (\<open>omap\<close>); the locale \<open>ordered_store\<close>.
  \<^item> \<open>Src_Types\<close>: \<^verbatim>\<open>lib.rs\<close>, \<^verbatim>\<open>history.rs\<close>, \<^verbatim>\<open>external_types.rs\<close> and the state of
    \<^verbatim>\<open>canister_state.rs\<close> as the record \<open>canister\<close>; third-party functions as the record \<open>platform\<close>.
  \<^item> \<open>Src_Exec\<close>: how a message runs: the outcome type \<open>out\<close> (done, trapped, suspended at a call),
    the combinators of the handlers, \<open>with_guard\<close> for \<^verbatim>\<open>CallerGuard\<close>, the locale \<open>mutex\<close>, and the
    rely/guarantee logic (\<open>safe\<close>, \<open>wp\<close>, \<open>message_safe\<close>).
  \<^item> \<open>Src_State\<close>, \<open>Src_History\<close>: the functions of \<^verbatim>\<open>canister_state.rs\<close>; the history refines a log
    per key (locale \<open>event_log\<close>).
  \<^item> \<open>Src_Pricing\<close>: all arithmetic of \<^verbatim>\<open>canister.rs\<close> and \<^verbatim>\<open>migration.rs\<close> on \<open>u64\<close> and \<open>u128\<close>.
  \<^item> \<open>Src_Lifecycle\<close>: \<^verbatim>\<open>init\<close>, \<^verbatim>\<open>post_upgrade\<close> and the migration \<^verbatim>\<open>app13ch_to_app7ch\<close>.
  \<^item> \<open>Src_Invariant\<close>: the state invariant \<open>wf\<close>, the guarantee \<open>evolves\<close>, and one preservation
    lemma per state operation (\<open>good_intros\<close>).
  \<^item> \<open>Src_External\<close>: \<^verbatim>\<open>external_calls.rs\<close>; which calls (\<open>call_ok\<close>) and panics
    (\<open>tolerated_panics\<close>) may occur; rules for handlers (\<open>later\<close>, \<open>wp_guard_held\<close>).
  \<^item> \<open>Src_Proposals\<close>, \<open>Src_Queries\<close>, \<open>Src_TopUp\<close>, \<open>Src_Timers\<close>: the methods of \<^verbatim>\<open>canister.rs\<close>,
    each with its safety against every interleaving and with what it does when run.
  \<^item> \<open>Src_System\<close>: messages in flight, steps and reachability; the locale \<open>safe_service\<close> proves
    once that safe handlers make a safe service. \<open>Src_Service\<close> interprets it on the model.
  \<^item> \<open>Src_Termination\<close>: bounds on the number of calls of every message.
  \<^item> \<open>Xrc_Mock\<close>: the exchange rate canister of the tests (\<^verbatim>\<open>xrc_mock/src/lib.rs\<close>).

  \<^bold>\<open>What is shown.\<close> This theory: properties of every reachable service, for all replies and
  orders of messages (invariant, mutual exclusion, protection of guarded data, absence of
  unexpected panics, safety of ICP and of privileged calls, monotonicity). The component
  theories: the exact effect of each operation when its calls succeed and on its error
  branches; prices, deadlines, estimates and burning against exact arithmetic; completeness of
  history paging; idempotence and effect of the migration. Runs (\<open>run\<close>, \<open>calls\<close>) feed a list of
  replies to one message that runs alone; the list is as long as the message has calls, and
  \<open>every_message_ends\<close> bounds that number. \<open>drive\<close> is a run with the interference of others between
  the calls, and \<open>keeps\<close> states what all states and calls of a message have in common. \<open>all_pages\<close> has fuel for its requests; more fuel than
  stored events is enough, as each page moves the continuation down.

  \<^bold>\<open>Assumptions.\<close> The program is built in release mode, so plain arithmetic wraps around. Token
  arithmetic saturates (\<open>tokens_saturate\<close>) and the system burns at most what it is asked to
  (\<open>burns_at_most\<close>), as documented; properties that need this say so. An upgrade happens on a
  stopped canister, with no message in flight. Sequence numbers are 64 bit, so statements on
  the history assume fewer than \<open>2 ^ 64 - 1\<close> stored events. Other canisters are arbitrary: any
  reply, at any time, in any order.

  \<^bold>\<open>Not modelled.\<close> Candid and \<^verbatim>\<open>Storable\<close> encodings, console output, the registration of timers
  (a timer message may arrive at any moment), the cycles balance, types used only by the
  integration tests, and the called canisters themselves. Candid rejects a message with more than ten
  admins before the handler runs; here the list has any length. A call that cannot even be sent
  fails in the part that makes it; here every call is sent first and its failure is a reply.
\<close>

section \<open>Properties of the whole service\<close>

text \<open>
  C1: in every reachable state of the service, whatever messages are in flight: the rental
  conditions are the initial ones, requests and agreements are stored under the user and the
  subnet they name, no request has locked more ICP than its price, no agreement has burned
  more cycles than were created for it, cached rates belong to midnights, and the history is
  gapless.
\<close>

theorem system_invariant:
  assumes "tokens_saturate P" and "burns_at_most P" and "src_reachable P (s, ts)"
  shows "conditions s = map_of initial_conditions \<and>
    (\<forall>u r. om_get (rental_requests s) u = Some r \<longrightarrow>
       rr_user r = u \<and> rr_locked_amount_icp r \<le> rr_initial_cost_icp r) \<and>
    (\<forall>p a. om_get (rental_agreements s) p = Some a \<longrightarrow>
       ra_subnet_id a = p \<and> ra_total_cycles_burned a \<le> ra_total_cycles_created a) \<and>
    (\<forall>t v. om_get (rates s) t = Some v \<longrightarrow> unat t mod 86400 = 0) \<and>
    (om_size (history s) < 2 ^ 64 - 1 \<longrightarrow> history_ok s)"
proof -
  have "wf s" by (rule src_wf [OF assms])
  then show ?thesis
    using locked_ok_le by (auto simp: wf_def request_ok_def agreement_ok_def history_inv_def tokens_le_iff)
qed

theorem system_invariant_witness:
  "src_reachable demo_platform (left demo_task, [demo_task]) \<and> conditions (left demo_task) = map_of initial_conditions"
  using demo_reachable system_invariant [OF demo_platform_ok demo_reachable] by blast

text \<open>
  C2: the set of locks is exactly the guards of the messages in flight, and no two messages
  hold the same guard: guards exclude each other, and none is leaked on any path, panics
  included.
\<close>

theorem mutual_exclusion:
  assumes "tokens_saturate P" and "burns_at_most P" and "src_reachable P (s, ts)"
  shows "(\<forall>t\<in>set ts. distinct (held_locks t)) \<and> locks s = (\<Union>t\<in>set ts. set (held_locks t)) \<and>
    (\<forall>ts1 t ts2 t' ts3. ts = ts1 @ t # ts2 @ t' # ts3 \<longrightarrow> set (held_locks t) \<inter> set (held_locks t') = {})"
proof -
  have d: "distinct (all_held ts)" and l: "locks s = set (all_held ts)"
    using src_system_ok [OF assms] by (simp_all add: system_ok_def)
  from d have "\<forall>t\<in>set ts. distinct (held_locks t)" by (induction ts) auto
  moreover have "set (held_locks t) \<inter> set (held_locks t') = {}" if "ts = ts1 @ t # ts2 @ t' # ts3" for ts1 t ts2 t' ts3
    using d unfolding that by auto
  ultimately show ?thesis using l by (auto simp: all_held_def)
qed

theorem mutual_exclusion_witness:
  "src_reachable demo_platform (left demo_task, [demo_task]) \<and>
   locks (left demo_task) = {(Principal [4], ''refund''), (Principal [9], ''request'')}"
  using demo_reachable mutual_exclusion [OF demo_platform_ok demo_reachable]
  by (simp add: demo_refund_suspends(2))

text \<open>
  C3: while a message is suspended, nobody else changes what its guards protect: the
  user's request under \<^verbatim>\<open>request\<close>, the subnet's agreement under \<^verbatim>\<open>agreement\<close>, and that the subnet
  is not rented under \<^verbatim>\<open>nns\<close>.
\<close>

theorem guarded_data:
  assumes "tokens_saturate P" and "burns_at_most P" and "src_reachable P (s, ts)" and "t \<in> set ts"
  shows "(\<forall>u. (u, ''request'') \<in> set (held_locks t) \<longrightarrow>
      om_get (rental_requests s) u = om_get (rental_requests (left t)) u) \<and>
    (\<forall>p a. (p, ''agreement'') \<in> set (held_locks t) \<longrightarrow> om_get (rental_agreements (left t)) p = Some a \<longrightarrow>
      om_get (rental_agreements s) p = Some a) \<and>
    (\<forall>p. (p, ''nns'') \<in> set (held_locks t) \<longrightarrow> om_get (rental_agreements (left t)) p = None \<longrightarrow>
      om_get (rental_agreements s) p = None)"
proof -
  have prot: "protects l (left t) s" if "l \<in> set (held_locks t)" for l
    using src_system_ok [OF assms(1-3)] assms(4) that by (simp add: system_ok_def task_ok_def)
  show ?thesis
    by (intro conjI allI impI; drule prot; simp add: protects_def)
qed

theorem guarded_data_witness:
  "src_reachable demo_platform (left demo_task, [demo_task]) \<and> (Principal [9], ''request'') \<in> set (held_locks demo_task) \<and>
   om_get (rental_requests (left demo_task)) (Principal [9]) = om_get (rental_requests (left demo_task)) (Principal [9])"
  using demo_reachable guarded_data [OF demo_platform_ok demo_reachable, of demo_task]
  by (simp add: demo_refund_suspends(2))

text \<open>
  C4: the only panics of a reachable service are failed calls, bad constants, a concurrent
  proposal, and three defects; in particular the \<^verbatim>\<open>unwrap\<close>s the code calls safe (creating and
  removing requests, creating and updating agreements, looking up conditions) never fail.
\<close>

theorem no_unexpected_panic:
  assumes "tokens_saturate P" and "burns_at_most P" and "src_reachable P \<sigma>" and "src_step P \<sigma> (Panicked e) \<sigma>'"
  shows "e \<in> set
     [''Failed to call CMC'', ''Failed to decode result'', ''Failed to call ledger canister'',
      ''Failed to call LedgerCanister'', ''Failed to call ExchangeRateCanister'',
      ''Invalid XRC canister ID'', ''Invalid Registry canister ID'', ''Fatal: Concurrent call'',
      ''burn_cycles: attempt to divide by zero'', ''subnet_top_up_estimate: attempt to divide by zero'',
      ''locking: unwrap of update_rental_request'']"
  unfolding tolerated_panics_def [symmetric]
  using src.reachable_no_panic [of P \<sigma> e \<sigma>'] assms by (simp only: honest_id src_spec_def spec.select_convs)

theorem no_unexpected_panic_witness:
  "src_step demo_platform (left demo_task, [demo_task]) (Panicked ''Failed to call LedgerCanister'')
     (release_all (held_locks demo_task) (left demo_task), []) \<and>
   ''Failed to call LedgerCanister'' \<in> set
     [''Failed to call CMC'', ''Failed to decode result'', ''Failed to call ledger canister'',
      ''Failed to call LedgerCanister'', ''Failed to call ExchangeRateCanister'',
      ''Invalid XRC canister ID'', ''Invalid Registry canister ID'', ''Fatal: Concurrent call'',
      ''burn_cycles: attempt to divide by zero'', ''subnet_top_up_estimate: attempt to divide by zero'',
      ''locking: unwrap of update_rental_request'']"
  using no_unexpected_panic [OF demo_platform_ok demo_reachable demo_resumes(1) [OF demo_refund_suspends(4)]]
    demo_resumes(1) [OF demo_refund_suspends(4)] by (rule conjI [rotated])

text \<open>
  C5: ICP leave a user's subaccount only towards the canister's own top-up account at
  the cycles minting canister, or back to the same user, and always with the ledger's fee.
\<close>

theorem funds_safe:
  assumes "tokens_saturate P" and "burns_at_most P" and "src_reachable P \<sigma>"
    and "src_step P \<sigma> (Called (CallLedgerTransfer target args)) \<sigma>'"
  shows "target = ledger_id P \<and> ta_fee args = default_fee P \<and>
    (\<exists>u. ta_from_subaccount args = Some (subaccount_of P u) \<and>
      (ta_to args = account_of P (cmc_id P) (subaccount_of P (self_id P)) \<and> ta_memo args = MEMO_TOP_UP_CANISTER \<or>
       ta_to args = account_of P u (default_subaccount P) \<and> ta_memo args = 0))"
  using src.reachable_calls [of P \<sigma> "CallLedgerTransfer target args" \<sigma>'] assms by (simp add: honest_id)

theorem funds_safe_witness:
  "\<exists>\<sigma>'. src_step demo_platform (left demo_task, [demo_task])
     (Called (CallLedgerTransfer (ledger_id demo_platform) demo_transfer)) \<sigma>' \<and>
   ta_fee demo_transfer = default_fee demo_platform"
proof -
  obtain k' where "rest demo_task (ReplyBalance (Tokens 30000)) 0 (left demo_task) =
      Suspended (CallLedgerTransfer (ledger_id demo_platform) demo_transfer) (held_locks demo_task) (left demo_task) k'"
    using demo_refund_suspends(5) by blast
  note st = demo_resumes(2) [OF this]
  from funds_safe [OF demo_platform_ok demo_reachable st] st show ?thesis by blast
qed

text \<open>
  C6: from any idle well-formed state: a subnet is authorised only for a user with a
  pending request and only while nobody rents it; admins are changed only on rented subnets and
  never with an empty list; cycles are minted for the canister itself; rates are asked for
  midnights with a billion cycles.
\<close>

theorem privileged_calls:
  assumes P: "tokens_saturate P" "burns_at_most P" and idle: "wf s" "locks s = {}"
    and "msg_steps (handle P) (s, []) obs \<sigma>" and "src_step P \<sigma> (Called c) (s', ts')"
  shows "(\<forall>target args. c = CallSetAuthorizedSubnetworkList target args \<longrightarrow> target = cmc_id P \<and>
      (\<exists>u p. args = \<lparr>sal_who = Some u, sal_subnets = [p]\<rparr> \<and>
        om_get (rental_requests s') u \<noteq> None \<and> om_get (rental_agreements s') p = None)) \<and>
    (\<forall>target payload. c = CallUpdateSubnetAdmins target payload \<longrightarrow>
      om_get (rental_agreements s') (usa_subnet_id payload) \<noteq> None \<and>
      (\<exists>x. usa_operation_type payload = Some x \<and> x \<noteq> OpAdd [] \<and> x \<noteq> OpRemove [])) \<and>
    (\<forall>target arg. c = CallNotifyTopUp target arg \<longrightarrow> target = cmc_id P \<and> nta_canister_id arg = self_id P) \<and>
    (\<forall>target request cycles. c = CallGetExchangeRate target request cycles \<longrightarrow> cycles = 1000000000 \<and>
      (\<exists>t. request = exchange_rate_request t \<and> unat t mod 86400 = 0))"
proof -
  have "system_ok (src_spec P) (s, [] :: response task list)" using idle by (simp add: system_ok_def)
  then have "system_ok (src_spec P) \<sigma>"
    using src.steps_guar [of P "(s, [])" obs \<sigma>] P assms(5) by (simp add: honest_id)
  then have "call_ok P c s'"
    using src.step_ok [of P \<sigma> "Called c" "(s', ts')"] P assms(6) by (simp add: honest_id)
  then show ?thesis by (cases c) simp_all
qed

theorem privileged_calls_witness:
  "\<exists>registry s' ts'. src_step demo_platform (demo_leased, []) (Called (CallUpdateSubnetAdmins registry demo_admins)) (s', ts') \<and>
     om_get (rental_agreements s') (usa_subnet_id demo_admins) \<noteq> None"
proof -
  have v: "verify_caller_is_renting_subnet (Principal [9]) demo_subnet demo_leased = Inr ()"
    by (simp add: renting_subnet_iff) (simp add: demo_agreement_def)
  obtain registry h s' k where
    u: "handle demo_platform (Principal [9], UpdateSubnetAdmins demo_admins) 0 demo_leased =
      Suspended (CallUpdateSubnetAdmins registry demo_admins) h s' k"
    using v by (auto simp: update_subnet_admins_def demo_admins_def check_operation_def exec_simps respond_def
        registry_update_subnet_admins_def get_registry_canister_id_def demo_platform_def registry_admins_payload_def)
  note st = arrive_call [where handler = "handle demo_platform", OF u, of "[]"]
  from privileged_calls [OF demo_platform_ok _ _ steps_Nil st] st show ?thesis by auto
qed

text \<open>
  C7: between upgrades, along every execution, no agreement disappears or changes its user, subnet,
  conditions, proposals or creation time; its deadline, payments and cycles only grow, and no recorded
  event is lost or changed. An upgrade keeps every agreement too, and changes at most the conditions
  and the deadline of one: that of the target subnet, when it moves from App13CH to App7CH.
\<close>

theorem agreements_evolve:
  assumes "tokens_saturate P" and "burns_at_most P" and "src_reachable P (s, ts)"
    and "msg_steps (handle P) (s, ts) obs (s', ts')"
  shows "(\<forall>p a. om_get (rental_agreements s) p = Some a \<longrightarrow>
      (\<exists>a'. om_get (rental_agreements s') p = Some a' \<and>
        (ra_user a', ra_rental_request_proposal_id a', ra_subnet_creation_proposal_id a', ra_subnet_id a',
         ra_rental_condition_id a', ra_creation_time_nanos a') =
        (ra_user a, ra_rental_request_proposal_id a, ra_subnet_creation_proposal_id a, ra_subnet_id a,
         ra_rental_condition_id a, ra_creation_time_nanos a) \<and>
        ra_paid_until_nanos a \<le> ra_paid_until_nanos a' \<and> ra_total_icp_paid a \<le> ra_total_icp_paid a' \<and>
        ra_total_cycles_created a \<le> ra_total_cycles_created a' \<and>
        ra_total_cycles_burned a \<le> ra_total_cycles_burned a')) \<and>
    (om_size (history s') < 2 ^ 64 - 1 \<longrightarrow>
      (\<forall>k e. om_get (history s) k = Some e \<longrightarrow> om_get (history s') k = Some e)) \<and>
    (\<forall>n p a. om_get (rental_agreements s') p = Some a \<longrightarrow>
      (\<exists>k paid. om_get (rental_agreements (post_upgrade P n s')) p =
          Some (a\<lparr>ra_rental_condition_id := k, ra_paid_until_nanos := paid\<rparr>) \<and>
        (k = ra_rental_condition_id a \<and> paid = ra_paid_until_nanos a \<or>
         principal_from_text P TARGET_SUBNET = Some p \<and> ra_rental_condition_id a = App13CH \<and> k = App7CH)))"
proof (intro conjI)
  have "evolves s s'" using src_evolves [OF assms] by simp
  then show "\<forall>p a. om_get (rental_agreements s) p = Some a \<longrightarrow>
      (\<exists>a'. om_get (rental_agreements s') p = Some a' \<and>
        (ra_user a', ra_rental_request_proposal_id a', ra_subnet_creation_proposal_id a', ra_subnet_id a',
         ra_rental_condition_id a', ra_creation_time_nanos a') =
        (ra_user a, ra_rental_request_proposal_id a, ra_subnet_creation_proposal_id a, ra_subnet_id a,
         ra_rental_condition_id a, ra_creation_time_nanos a) \<and>
        ra_paid_until_nanos a \<le> ra_paid_until_nanos a' \<and> ra_total_icp_paid a \<le> ra_total_icp_paid a' \<and>
        ra_total_cycles_created a \<le> ra_total_cycles_created a' \<and>
        ra_total_cycles_burned a \<le> ra_total_cycles_burned a')"
    unfolding evolves_def agreement_evolves_def by blast
  from \<open>evolves s s'\<close> show "om_size (history s') < 2 ^ 64 - 1 \<longrightarrow>
      (\<forall>k e. om_get (history s) k = Some e \<longrightarrow> om_get (history s') k = Some e)"
    unfolding evolves_def by blast
  show "\<forall>n p a. om_get (rental_agreements s') p = Some a \<longrightarrow>
      (\<exists>k paid. om_get (rental_agreements (post_upgrade P n s')) p =
          Some (a\<lparr>ra_rental_condition_id := k, ra_paid_until_nanos := paid\<rparr>) \<and>
        (k = ra_rental_condition_id a \<and> paid = ra_paid_until_nanos a \<or>
         principal_from_text P TARGET_SUBNET = Some p \<and> ra_rental_condition_id a = App13CH \<and> k = App7CH))"
    using post_upgrade_agreement [of s'] by blast
qed

theorem agreements_evolve_witness:
  "msg_steps (handle demo_platform) (canister_init 0, []) [Called (pending demo_task)] (left demo_task, [demo_task]) \<and>
   om_get (history (left demo_task)) (None, 0) = Some (demo_first_event)"
proof -
  have "om_size (history (left demo_task)) < 2 ^ 64 - 1" and "om_get (history (canister_init 0)) (None, 0) = Some demo_first_event"
    by (simp_all add: demo_refund_suspends(3) demo_init_history)
  then show ?thesis
    using agreements_evolve [OF demo_platform_ok reach_start msg_steps_single [OF demo_arrives]]
      msg_steps_single [OF demo_arrives] by blast
qed

end
